(* ===== verification/Go_Prelude.thy ===== *)
theory Go_Prelude
  imports Main "HOL-Library.Word" "HOL-Library.Multiset"
begin

text \<open>
  The prelude of the development: the parts of the Go language and of its standard library
  that every package of the repository relies on, and the generic lemmas about them.

  \<^item> machine integers: \<open>byte\<close>, \<open>u16\<close>, \<open>u32\<close>, \<open>u64\<close> are Go's unsigned types and \<open>i64\<close> is
    the two's complement carrier of Go's \<open>int64\<close>; Go's \<open>int\<close> is 64 bits wide (the code is
    modelled for 64-bit Linux), and \<open>int_of_u64\<close> and \<open>wrap_int\<close> write its wrap-around out;
  \<^item> \<open>outcome\<close>: a Go call returns a value, returns an error, or panics;
  \<^item> byte slices and strings are byte lists (a Go string is an immutable byte sequence);
  \<^item> \<open>make\<close>, slicing, \<open>encoding/binary\<close>, \<open>bytes.Compare\<close>, \<open>sort.SliceStable\<close>,
    \<open>strings.Contains\<close> and the integer verbs of \<open>fmt\<close>.
\<close>

unbundle bit_operations_syntax

named_theorems go_eval \<open>equations that evaluate the Go runtime and library model on literals\<close>

section \<open>Machine integers and byte sequences\<close>

type_synonym byte = "8 word"
type_synonym u16 = "16 word"
type_synonym u32 = "32 word"
type_synonym u64 = "64 word"
type_synonym i64 = "64 word"
type_synonym bytes = "8 word list"
type_synonym gostring = "8 word list"

text \<open>The bytes of an ASCII string literal.\<close>

definition ascii :: "string \<Rightarrow> gostring" where
  "ascii s = map of_char s"

text \<open>\<open>int(x)\<close> of a \<open>uint64\<close> (two's complement), and the wrap-around of \<open>int\<close> arithmetic.\<close>

definition int_of_u64 :: "u64 \<Rightarrow> int" where
  "int_of_u64 w = (if unat w < 2 ^ 63 then int (unat w) else int (unat w) - 2 ^ 64)"

definition wrap_int :: "int \<Rightarrow> int" where
  "wrap_int x = int_of_u64 (word_of_int x)"

definition max_int :: int where
  "max_int = 2 ^ 63 - 1"

lemma unat_u64_bound: "unat (w :: u64) < 18446744073709551616"
  using unsigned_less [of w, where ?'a = nat] by simp

lemma int_unat_u64_bound: "int (unat (w :: u64)) < 18446744073709551616"
  using unat_u64_bound [of w] by linarith

lemma int_of_u64_small: "unat w < 2 ^ 63 \<Longrightarrow> int_of_u64 w = int (unat w)"
  by (simp add: int_of_u64_def)

lemma int_of_u64_neg: "2 ^ 63 \<le> unat w \<Longrightarrow> int_of_u64 w < 0"
  using int_unat_u64_bound [of w] unfolding int_of_u64_def by simp

lemma int_of_u64_nonneg_iff: "0 \<le> int_of_u64 w \<longleftrightarrow> unat w < 2 ^ 63"
  using int_of_u64_neg [of w] by (cases "unat w < 2 ^ 63") (auto simp: int_of_u64_small)

lemma int_of_u64_le: "q + unat w \<le> n \<Longrightarrow> n < 2 ^ 63 \<Longrightarrow> int_of_u64 w \<le> int n - int q"
  by (subst int_of_u64_small) linarith+

lemma int_of_u64_ge: "- (2 ^ 63) \<le> int_of_u64 w"
proof (cases "unat w < 2 ^ 63")
  case False
  then have "2 ^ 63 \<le> int (unat w)" by (metis not_less of_nat_le_iff of_nat_numeral of_nat_power)
  then have "- (2 ^ 63) \<le> int (unat w) - 2 ^ 64" by simp
  with False show ?thesis unfolding int_of_u64_def by (simp only: if_False)
next
  case True
  have "- (2 ^ 63) \<le> int (unat w)" by (rule order_trans [of _ 0]) simp_all
  with True show ?thesis unfolding int_of_u64_def by (simp only: if_True)
qed

lemma int_of_u64_lt: "int_of_u64 w < 2 ^ 63"
proof (cases "unat w < 2 ^ 63")
  case True
  then have "int (unat w) < 2 ^ 63" by (metis of_nat_less_iff of_nat_numeral of_nat_power)
  with True show ?thesis unfolding int_of_u64_def by (simp only: if_True)
next
  case False
  then have "int_of_u64 w < 0" by (intro int_of_u64_neg) simp
  then show ?thesis by (rule less_trans) simp
qed

lemma wrap_int_id:
  assumes "- (2 ^ 63) \<le> x" and "x < 2 ^ 63"
  shows "wrap_int x = x"
proof (cases "0 \<le> x")
  case True
  with assms have "unat (word_of_int x :: u64) = nat x"
    by (simp add: unat_eq_nat_uint uint_word_of_int)
  with True assms show ?thesis unfolding wrap_int_def int_of_u64_def by simp
next
  case False
  have "uint (word_of_int x :: u64) = x mod 2 ^ 64" by (simp add: uint_word_of_int)
  also have "\<dots> = (x + 2 ^ 64) mod 2 ^ 64" by simp
  also have "\<dots> = x + 2 ^ 64" using False assms by (intro mod_pos_pos_trivial) auto
  finally have "unat (word_of_int x :: u64) = nat (x + 2 ^ 64)"
    by (simp add: unat_eq_nat_uint)
  with False assms show ?thesis unfolding wrap_int_def int_of_u64_def by simp
qed

lemma word_of_int_minus_2p64: "(word_of_int (x - 2 ^ 64) :: u64) = word_of_int x"
  by (simp only: word_of_int_eq_iff take_bit_eq_mod) simp

lemma word_of_int_int_of_u64: "word_of_int (int_of_u64 w) = w"
  by (simp add: int_of_u64_def word_of_int_minus_2p64)

lemma wrap_int_minus: "wrap_int (x - 2 ^ 64) = wrap_int x"
  by (simp only: wrap_int_def word_of_int_minus_2p64)

lemma unat_of_nat_u64: "n < 2 ^ 64 \<Longrightarrow> unat (of_nat n :: u64) = n"
  by (simp add: unat_of_nat)

lemma unat_of_nat_u32: "n < 2 ^ 32 \<Longrightarrow> unat (of_nat n :: u32) = n"
  by (simp add: unat_of_nat)

text \<open>Truncating a length to 32 bits only ever makes it smaller.\<close>

lemma trunc_u32_le: "\<not> of_nat n < (w :: u32) \<Longrightarrow> unat w \<le> n"
proof -
  assume "\<not> of_nat n < w"
  then have "unat w \<le> unat (of_nat n :: u32)" by (simp only: word_less_nat_alt not_less)
  also have "\<dots> \<le> n" unfolding unat_of_nat by (rule mod_less_eq_dividend)
  finally show ?thesis .
qed

text \<open>Facts about every byte can be checked byte by byte.\<close>

lemma all_bytes: "(\<forall>b :: byte. P b) \<longleftrightarrow> list_all P (map of_nat [0..<256])"
proof -
  have "(b :: byte) \<in> of_nat ` {0..<256}" for b
    by (rule image_eqI [of _ _ "unat b"]) (use unsigned_less [of b, where ?'a = nat] in auto)
  then have "set (map of_nat [0..<256] :: bytes) = UNIV" by auto
  then show ?thesis by (auto simp: list_all_iff)
qed

section \<open>Outcomes of a call\<close>

datatype ('e, 'a) outcome = Ok 'a | Err 'e | Panic

fun obind :: "('e, 'a) outcome \<Rightarrow> ('a \<Rightarrow> ('e, 'b) outcome) \<Rightarrow> ('e, 'b) outcome" where
  "obind (Ok a) f = f a"
| "obind (Err e) f = Err e"
| "obind Panic f = Panic"

lemma obind_cong [fundef_cong]:
  "m = m' \<Longrightarrow> (\<And>a. m' = Ok a \<Longrightarrow> f a = g a) \<Longrightarrow> obind m f = obind m' g"
  by (cases m') auto

lemma obind_eq_Ok [simp]: "obind m f = Ok b \<longleftrightarrow> (\<exists>a. m = Ok a \<and> f a = Ok b)"
  by (cases m) auto

lemma obind_eq_Err: "obind m f = Err e \<longleftrightarrow> m = Err e \<or> (\<exists>a. m = Ok a \<and> f a = Err e)"
  by (cases m) auto

lemma obind_eq_Panic: "obind m f = Panic \<longleftrightarrow> m = Panic \<or> (\<exists>a. m = Ok a \<and> f a = Panic)"
  by (cases m) auto

fun is_Ok :: "('e, 'a) outcome \<Rightarrow> bool" where
  "is_Ok (Ok a) = True"
| "is_Ok (Err e) = False"
| "is_Ok Panic = False"

lemma is_Ok_iff: "is_Ok m \<longleftrightarrow> (\<exists>a. m = Ok a)"
  by (cases m) auto

section \<open>Time\<close>

text \<open>A \<open>time.Duration\<close> counts nanoseconds; a \<open>time.Time\<close> is an integer number of them.\<close>

definition second :: int where
  "second = 1000000000"

section \<open>Slices and allocation\<close>

text \<open>
  \<open>data[i:j]\<close> panics unless \<open>0 \<le> i \<le> j\<close> and \<open>j\<close> is within the slice.
  \<open>make([]T, n)\<close> panics when the requested memory exceeds what the runtime can address: on
  64-bit Linux the runtime's limit is \<open>2 ^ 48\<close> bytes (a negative length read as unsigned is
  beyond it too). Exhaustion of the memory below that limit is not modelled.
\<close>

definition go_slice :: "bytes \<Rightarrow> int \<Rightarrow> int \<Rightarrow> ('e, bytes) outcome" where
  "go_slice data i j =
     (if 0 \<le> i \<and> i \<le> j \<and> j \<le> int (length data)
      then Ok (take (nat (j - i)) (drop (nat i) data)) else Panic)"

definition make_ok :: "u64 \<Rightarrow> nat \<Rightarrow> bool" where
  "make_ok n elem_size \<longleftrightarrow> unat n * elem_size \<le> 2 ^ 48"

lemma go_slice_nat:
  "i \<le> j \<Longrightarrow> j \<le> length data \<Longrightarrow>
   go_slice data (int i) (int j) = Ok (take (j - i) (drop i data))"
  by (simp add: go_slice_def of_nat_diff [symmetric] del: of_nat_diff)

section \<open>Big-endian integers (encoding/binary)\<close>

primrec be_put :: "nat \<Rightarrow> 'a::len word \<Rightarrow> bytes" where
  "be_put 0 v = []"
| "be_put (Suc n) v = be_put n (drop_bit 8 v) @ [ucast v]"

definition be_get :: "bytes \<Rightarrow> 'a::len word" where
  "be_get bs = foldl (\<lambda>acc b. push_bit 8 acc OR ucast b) 0 bs"

abbreviation PutUint16 :: "u16 \<Rightarrow> bytes" where "PutUint16 v \<equiv> be_put 2 v"
abbreviation PutUint32 :: "u32 \<Rightarrow> bytes" where "PutUint32 v \<equiv> be_put 4 v"
abbreviation PutUint64 :: "u64 \<Rightarrow> bytes" where "PutUint64 v \<equiv> be_put 8 v"

abbreviation Uint16 :: "bytes \<Rightarrow> u16" where "Uint16 bs \<equiv> be_get (take 2 bs)"
abbreviation Uint32 :: "bytes \<Rightarrow> u32" where "Uint32 bs \<equiv> be_get (take 4 bs)"
abbreviation Uint64 :: "bytes \<Rightarrow> u64" where "Uint64 bs \<equiv> be_get (take 8 bs)"

lemma length_be_put [simp]: "length (be_put n v) = n"
  by (induction n arbitrary: v) auto

lemma be_get_snoc: "be_get (bs @ [b]) = push_bit 8 (be_get bs) OR ucast b"
  by (simp add: be_get_def)

lemma be_get_put_take: "be_get (be_put n v) = take_bit (8 * n) v"
proof (induction n arbitrary: v)
  case 0
  show ?case by (simp add: be_get_def)
next
  case (Suc n)
  have "push_bit 8 (take_bit (8 * n) (drop_bit 8 v)) OR ucast (ucast v :: byte)
        = take_bit (8 * Suc n) v"
    by (rule bit_word_eqI)
      (auto simp: bit_or_iff bit_push_bit_iff bit_take_bit_iff bit_drop_bit_eq bit_ucast_iff)
  with Suc show ?case by (simp add: be_get_snoc)
qed

lemma be_get_put: "LENGTH('a) \<le> 8 * n \<Longrightarrow> be_get (be_put n (v :: 'a::len word)) = v"
  by (simp add: be_get_put_take take_bit_word_eq_self)

lemma be_put_get:
  "8 * length bs \<le> LENGTH('a) \<Longrightarrow> be_put (length bs) (be_get bs :: 'a::len word) = bs"
proof (induction bs rule: rev_induct)
  case Nil
  show ?case by simp
next
  case (snoc b bs)
  let ?g = "be_get bs :: 'a word"
  have "be_get bs = (take_bit (8 * length bs) ?g)"
    using snoc by (metis add_leD1 be_get_put_take distrib_left_numeral length_append)
  then have small: "\<And>i. bit ?g i \<Longrightarrow> i < 8 * length bs"
    by (metis bit_take_bit_iff)
  have small': "8 + i < LENGTH('a)" if "bit ?g i" for i
    using small [OF that] snoc.prems by simp
  have "drop_bit 8 (push_bit 8 ?g OR ucast b) = ?g"
    by (intro bit_word_eqI)
      (auto simp: bit_drop_bit_eq bit_or_iff bit_push_bit_iff bit_ucast_iff small'
        dest: bit_imp_le_length)
  moreover have "(ucast (push_bit 8 ?g OR ucast b) :: byte) = b"
    using snoc.prems
    by (intro bit_word_eqI) (auto simp: bit_or_iff bit_push_bit_iff bit_ucast_iff)
  ultimately show ?case using snoc by (simp add: be_get_snoc)
qed

lemma be_put_numeral [go_eval]:
  "be_put (numeral k) v = be_put (pred_numeral k) (drop_bit 8 v) @ [ucast v]"
  by (simp add: numeral_eq_Suc)

lemma replicate_numeral [go_eval]:
  "replicate (numeral k) x = x # replicate (pred_numeral k) x"
  by (simp add: numeral_eq_Suc)

lemmas go_eval_defs [go_eval] = be_get_def int_of_u64_def make_ok_def go_slice_def Let_def
  ascii_def of_char_def

lemma be_put_inj:
  "LENGTH('a) \<le> 8 * n \<Longrightarrow> be_put n (v :: 'a::len word) = be_put n w \<longleftrightarrow> v = w"
  by (metis be_get_put)

section \<open>Comparing and sorting\<close>

text \<open>\<open>bytes.Compare\<close>, which is also the order of \<open><\<close> on Go strings.\<close>

fun bytes_compare :: "bytes \<Rightarrow> bytes \<Rightarrow> int" where
  "bytes_compare [] [] = 0"
| "bytes_compare [] (b # bs) = -1"
| "bytes_compare (a # as) [] = 1"
| "bytes_compare (a # as) (b # bs) =
     (if a < b then -1 else if b < a then 1 else bytes_compare as bs)"

lemma bytes_compare_refl [simp]: "bytes_compare a a = 0"
  by (induction a) auto

lemma bytes_compare_0_iff [simp]: "bytes_compare a b = 0 \<longleftrightarrow> a = b"
  by (induction a b rule: bytes_compare.induct) auto

lemma bytes_compare_antisym: "bytes_compare a b < 0 \<longleftrightarrow> 0 < bytes_compare b a"
  by (induction a b rule: bytes_compare.induct) auto

lemma bytes_compare_total: "a \<noteq> b \<Longrightarrow> bytes_compare a b < 0 \<or> bytes_compare b a < 0"
  by (metis bytes_compare_0_iff bytes_compare_antisym linorder_cases)

lemma bytes_compare_trans:
  "bytes_compare a b < 0 \<Longrightarrow> bytes_compare b c < 0 \<Longrightarrow> bytes_compare a c < 0"
proof (induction a b arbitrary: c rule: bytes_compare.induct)
  case (2 b bs)
  then show ?case by (cases c) auto
next
  case (4 a as b bs)
  then show ?case by (cases c) (auto split: if_splits)
qed auto

text \<open>
  \<open>sort.SliceStable(xs, less)\<close>: sorts by \<open>less\<close> and keeps the order of elements neither of
  which is less than the other.
\<close>

fun insert_stable :: "('a \<Rightarrow> 'a \<Rightarrow> bool) \<Rightarrow> 'a \<Rightarrow> 'a list \<Rightarrow> 'a list" where
  "insert_stable lt x [] = [x]"
| "insert_stable lt x (y # ys) =
     (if lt y x then y # insert_stable lt x ys else x # y # ys)"

definition SliceStable :: "('a \<Rightarrow> 'a \<Rightarrow> bool) \<Rightarrow> 'a list \<Rightarrow> 'a list" where
  "SliceStable lt xs = foldr (insert_stable lt) xs []"

lemma SliceStable_simps [simp]:
  "SliceStable lt [] = []"
  "SliceStable lt (x # xs) = insert_stable lt x (SliceStable lt xs)"
  by (simp_all add: SliceStable_def)

lemma mset_insert_stable [simp]: "mset (insert_stable lt x xs) = add_mset x (mset xs)"
  by (induction xs) auto

lemma mset_SliceStable [simp]: "mset (SliceStable lt xs) = mset xs"
  by (induction xs) auto

lemma set_SliceStable [simp]: "set (SliceStable lt xs) = set xs"
  by (metis mset_SliceStable set_mset_mset)

lemma length_SliceStable [simp]: "length (SliceStable lt xs) = length xs"
  by (metis mset_SliceStable size_mset)

lemma set_insert_stable [simp]: "set (insert_stable lt x xs) = insert x (set xs)"
  by (metis mset_insert_stable set_mset_add_mset_insert set_mset_mset)

lemma map_insert_stable:
  "map f (insert_stable (\<lambda>a b. lt (f a) (f b)) x xs) = insert_stable lt (f x) (map f xs)"
  by (induction xs) auto

lemma map_SliceStable:
  "map f (SliceStable (\<lambda>a b. lt (f a) (f b)) xs) = SliceStable lt (map f xs)"
  by (induction xs) (auto simp: map_insert_stable)

lemma SliceStable_sorted: "sorted_wrt (\<lambda>a b. \<not> lt b a) xs \<Longrightarrow> SliceStable lt xs = xs"
proof (induction xs)
  case (Cons x xs)
  then show ?case by (cases xs) auto
qed simp

text \<open>
  A strict weak order: what \<open>sort\<close> requires of \<open>less\<close>. Its users below interpret it.
\<close>

locale less_order =
  fixes lt :: "'a \<Rightarrow> 'a \<Rightarrow> bool"
  assumes less_irrefl: "\<not> lt x x"
    and less_trans: "lt x y \<Longrightarrow> lt y z \<Longrightarrow> lt x z"
    and less_total: "x \<noteq> y \<Longrightarrow> lt x y \<or> lt y x"
begin

lemma less_asym: "lt x y \<Longrightarrow> \<not> lt y x"
  using less_irrefl less_trans by blast

lemma not_less_trans: "\<not> lt y x \<Longrightarrow> \<not> lt z y \<Longrightarrow> \<not> lt z x"
  by (metis less_trans less_total)

lemma sorted_insert_stable:
  "sorted_wrt (\<lambda>a b. \<not> lt b a) xs \<Longrightarrow> sorted_wrt (\<lambda>a b. \<not> lt b a) (insert_stable lt x xs)"
proof (induction xs)
  case (Cons y ys)
  then have "\<not> lt z x" if "z \<in> set ys" "\<not> lt y x" for z
    using that not_less_trans by auto
  with Cons show ?case by (auto dest: less_asym)
qed simp

lemma sorted_SliceStable: "sorted_wrt (\<lambda>a b. \<not> lt b a) (SliceStable lt xs)"
  by (induction xs) (auto intro: sorted_insert_stable)

lemma SliceStable_key_idem:
  "SliceStable (\<lambda>a b. lt (f a) (f b)) (SliceStable (\<lambda>a b. lt (f a) (f b)) xs)
   = SliceStable (\<lambda>a b. lt (f a) (f b)) xs"
proof (rule SliceStable_sorted)
  have "sorted_wrt (\<lambda>a b. \<not> lt b a) (map f (SliceStable (\<lambda>a b. lt (f a) (f b)) xs))"
    unfolding map_SliceStable by (rule sorted_SliceStable)
  then show "sorted_wrt (\<lambda>a b. \<not> lt (f b) (f a)) (SliceStable (\<lambda>a b. lt (f a) (f b)) xs)"
    by (simp add: sorted_wrt_map)
qed

lemma SliceStable_strict:
  "distinct xs \<Longrightarrow> sorted_wrt lt (SliceStable lt xs)"
proof -
  assume "distinct xs"
  then have d: "distinct (SliceStable lt xs)"
    by (metis mset_SliceStable mset_eq_imp_distinct_iff)
  have "sorted_wrt (\<lambda>a b. \<not> lt b a) ys \<Longrightarrow> distinct ys \<Longrightarrow> sorted_wrt lt ys" for ys
    by (induction ys) (auto, metis less_total)
  with d show ?thesis using sorted_SliceStable by blast
qed

lemma insert_stable_id: "\<forall>y \<in> set ys. lt x y \<Longrightarrow> insert_stable lt x ys = x # ys"
  using less_asym by (cases ys) auto

lemma SliceStable_id: "sorted_wrt lt xs \<Longrightarrow> SliceStable lt xs = xs"
  by (induction xs) (auto simp: insert_stable_id)

lemma sorted_unique:
  "sorted_wrt lt xs \<Longrightarrow> sorted_wrt lt ys \<Longrightarrow> set xs = set ys \<Longrightarrow> xs = ys"
proof (induction xs arbitrary: ys)
  case (Cons x xs)
  then obtain y ys' where ys: "ys = y # ys'" by (cases ys) auto
  have "x = y \<or> lt y x" "y = x \<or> lt x y" using Cons.prems ys by auto
  then have "x = y" using less_asym by blast
  moreover have "x \<notin> set xs" "y \<notin> set ys'" using Cons.prems ys less_irrefl by auto
  ultimately have "set xs = set ys'" using Cons.prems ys by (auto simp: insert_ident)
  with \<open>x = y\<close> show ?case using Cons ys by simp
qed simp

text \<open>Sorting forgets the order in which distinct elements arrive.\<close>

lemma SliceStable_perm:
  assumes "distinct xs" and "mset xs = mset ys"
  shows "SliceStable lt xs = SliceStable lt ys"
proof -
  have d: "distinct ys" using assms mset_eq_imp_distinct_iff by blast
  have "set xs = set ys" using assms(2) by (rule mset_eq_setD)
  then show ?thesis
    by (intro sorted_unique SliceStable_strict assms(1) d) simp
qed

text \<open>The same when the elements are compared through a key that tells them apart.\<close>

lemma SliceStable_key_perm:
  assumes "distinct (map f xs)" and "mset xs = mset ys"
  shows "SliceStable (\<lambda>a b. lt (f a) (f b)) xs = SliceStable (\<lambda>a b. lt (f a) (f b)) ys"
proof -
  have "mset (map f xs) = mset (map f ys)" using assms(2) by simp
  then have "map f (SliceStable (\<lambda>a b. lt (f a) (f b)) xs)
           = map f (SliceStable (\<lambda>a b. lt (f a) (f b)) ys)"
    unfolding map_SliceStable by (rule SliceStable_perm [OF assms(1)])
  moreover have "set xs = set ys" using assms(2) by (rule mset_eq_setD)
  ultimately show ?thesis
    using assms(1) by (intro map_inj_on [of f]) (auto simp: distinct_map)
qed

end

text \<open>The order of \<open>bytes.Compare\<close> is one.\<close>

interpretation bytes_order: less_order "\<lambda>a b. bytes_compare a b < 0"
  by unfold_locales (auto dest: bytes_compare_trans bytes_compare_total)

section \<open>Strings\<close>

text \<open>\<open>strings.Contains\<close>, and the verbs \<open>%d\<close> and \<open>%02x\<close> of \<open>fmt\<close> on unsigned values.\<close>

fun contains :: "string \<Rightarrow> string \<Rightarrow> bool" where
  "contains [] pat = (pat = [])"
| "contains (c # cs) pat = (take (length pat) (c # cs) = pat \<or> contains cs pat)"

lemma contains_prefix: "contains (pat @ s) pat"
proof (cases "pat @ s")
  case (Cons c cs)
  have "take (length pat) (c # cs) = pat" by (simp flip: Cons)
  with Cons show ?thesis by (simp only: contains.simps) simp
qed simp

lemma contains_append: "contains s pat \<Longrightarrow> contains (p @ s) pat"
  by (induction p) auto

lemma containsI: "s = p @ pat @ r \<Longrightarrow> contains s pat"
  by (simp add: contains_append contains_prefix)

lemma contains_set: "contains s pat \<Longrightarrow> set pat \<subseteq> set s"
proof (induction s)
  case (Cons c cs)
  show ?case
  proof (cases "contains cs pat")
    case True
    with Cons.IH show ?thesis by auto
  next
    case False
    with Cons.prems have "take (length pat) (c # cs) = pat" by simp
    then show ?thesis by (metis set_take_subset)
  qed
qed simp

fun fmt_d :: "nat \<Rightarrow> string" where
  "fmt_d n = (if n < 10 then [char_of (48 + n)] else fmt_d (n div 10) @ [char_of (48 + n mod 10)])"

declare fmt_d.simps [simp del]

definition digits :: "char set" where
  "digits = set ''0123456789''"

lemma char_of_digit: "n < 10 \<Longrightarrow> char_of (48 + n :: nat) \<in> digits"
proof -
  have "list_all (\<lambda>n. char_of (48 + n :: nat) \<in> digits) [0..<10]"
    by (simp add: upt_rec digits_def char_of_def bit_iff_odd)
  moreover assume "n < 10"
  ultimately show ?thesis by (simp add: list_all_iff)
qed

lemma fmt_d_digits: "set (fmt_d n) \<subseteq> digits"
proof (induction n rule: fmt_d.induct)
  case (1 n)
  then show ?case by (subst fmt_d.simps) (auto simp: char_of_digit)
qed

definition hex_digit :: "nat \<Rightarrow> char" where
  "hex_digit n = (if n < 10 then char_of (48 + n) else char_of (87 + n))"

definition fmt_02x :: "byte \<Rightarrow> string" where
  "fmt_02x b = [hex_digit (unat b div 16), hex_digit (unat b mod 16)]"

section \<open>Ranging over a map\<close>

text \<open>
  The order of a \<open>range\<close> loop over a Go map is unspecified: the runtime chooses some order of the
  entries. The choice is a parameter; one that is no order of the entries stands for the stored one.
\<close>

definition go_range :: "('a list \<Rightarrow> 'a list) \<Rightarrow> 'a list \<Rightarrow> 'a list" where
  "go_range ord m = (if mset (ord m) = mset m then ord m else m)"

lemma mset_go_range [simp]: "mset (go_range ord m) = mset m"
  by (simp add: go_range_def)

lemma go_range_id [simp]: "go_range (\<lambda>m. m) m = m"
  by (simp add: go_range_def)

lemma set_go_range [simp]: "set (go_range ord m) = set m"
  by (metis mset_go_range mset_eq_setD)

lemma distinct_map_go_range [simp]: "distinct (map f (go_range ord m)) = distinct (map f m)"
  by (metis mset_go_range mset_map mset_eq_imp_distinct_iff)

lemma go_range_Nil_iff [simp]: "go_range ord m = [] \<longleftrightarrow> m = []"
  by (metis mset_go_range mset_zero_iff)

end
