(* ===== verification/Cbor_Encode.thy ===== *)
theory Cbor_Encode
  imports Go_Prelude
begin

text \<open>
  Package \<open>cbor\<close>, first half (\<open>src/cbor/cbor.go\<close>, up to \<open>sortStrMapEntries\<close>): the value type
  with its constructors and accessors, and the canonical encoder. A \<open>Value\<close> struct is a tagged
  union selected by \<open>kind\<close>; its fields are private and only the package's constructors build
  it, so it is a datatype with one constructor per kind. \<open>NegV\<close> is only built by \<open>NInt\<close>.
\<close>

section \<open>Constants\<close>

definition mtUnsigned :: byte where "mtUnsigned = 0x00"
definition mtNegative :: byte where "mtNegative = 0x20"
definition mtByteStr :: byte where "mtByteStr = 0x40"
definition mtTextStr :: byte where "mtTextStr = 0x60"
definition mtArray :: byte where "mtArray = 0x80"
definition mtMap :: byte where "mtMap = 0xa0"
definition mtSimple :: byte where "mtSimple = 0xe0"

definition aiOneByte :: byte where "aiOneByte = 24"
definition aiTwoBytes :: byte where "aiTwoBytes = 25"
definition aiFourBytes :: byte where "aiFourBytes = 26"
definition aiEightBytes :: byte where "aiEightBytes = 27"
definition aiBreak :: byte where "aiBreak = 31"

definition simpleFalse :: byte where "simpleFalse = 20"
definition simpleTrue :: byte where "simpleTrue = 21"
definition simpleNull :: byte where "simpleNull = 22"
definition simpleUndef :: byte where "simpleUndef = 23"

named_theorems cbor_consts \<open>the numeric constants of package cbor\<close>

lemmas mt_defs [cbor_consts] =
  mtUnsigned_def mtNegative_def mtByteStr_def mtTextStr_def mtArray_def mtMap_def mtSimple_def

lemmas ai_defs [cbor_consts] =
  aiOneByte_def aiTwoBytes_def aiFourBytes_def aiEightBytes_def aiBreak_def

lemmas simple_defs [cbor_consts] =
  simpleFalse_def simpleTrue_def simpleNull_def simpleUndef_def

section \<open>Values\<close>

datatype cbor_value =
    UUint u64
  | NegV i64
  | BStr bytes
  | TStr gostring
  | Arr "cbor_value list"
  | IMap "(i64 \<times> cbor_value) list"
  | SMap "(gostring \<times> cbor_value) list"
  | BoolV bool
  | NullV

datatype ValueKind = KindUnsigned | KindNegative | KindByteString | KindTextString | KindArray
  | KindIntMap | KindStrMap | KindBool | KindNull

definition NInt :: "i64 \<Rightarrow> cbor_value" where
  "NInt n = (if 0 \<le> int_of_u64 n then UUint n else NegV n)"

fun Kind :: "cbor_value \<Rightarrow> ValueKind" where
  "Kind (UUint _) = KindUnsigned"
| "Kind (NegV _) = KindNegative"
| "Kind (BStr _) = KindByteString"
| "Kind (TStr _) = KindTextString"
| "Kind (Arr _) = KindArray"
| "Kind (IMap _) = KindIntMap"
| "Kind (SMap _) = KindStrMap"
| "Kind (BoolV _) = KindBool"
| "Kind NullV = KindNull"

text \<open>An accessor of another kind reads that field's zero value.\<close>

fun v_uint :: "cbor_value \<Rightarrow> u64" where
  "v_uint (UUint n) = n"
| "v_uint _ = 0"

fun v_neg :: "cbor_value \<Rightarrow> i64" where
  "v_neg (NegV n) = n"
| "v_neg _ = 0"

definition v_int :: "cbor_value \<Rightarrow> i64" where
  "v_int v = (if Kind v = KindUnsigned then v_uint v else v_neg v)"

fun v_bytes :: "cbor_value \<Rightarrow> bytes" where
  "v_bytes (BStr b) = b"
| "v_bytes _ = []"

fun v_str :: "cbor_value \<Rightarrow> gostring" where
  "v_str (TStr s) = s"
| "v_str _ = []"

fun v_arr :: "cbor_value \<Rightarrow> cbor_value list" where
  "v_arr (Arr vs) = vs"
| "v_arr _ = []"

fun v_intMap :: "cbor_value \<Rightarrow> (i64 \<times> cbor_value) list" where
  "v_intMap (IMap es) = es"
| "v_intMap _ = []"

fun v_strMap :: "cbor_value \<Rightarrow> (gostring \<times> cbor_value) list" where
  "v_strMap (SMap es) = es"
| "v_strMap _ = []"

fun v_bool :: "cbor_value \<Rightarrow> bool" where
  "v_bool (BoolV b) = b"
| "v_bool _ = False"

text \<open>\<open>IntMapGet\<close> and \<open>StrMapGet\<close> return the first entry with the key.\<close>

definition IntMapGet :: "cbor_value \<Rightarrow> i64 \<Rightarrow> cbor_value option" where
  "IntMapGet v key = map_of (v_intMap v) key"

definition StrMapGet :: "cbor_value \<Rightarrow> gostring \<Rightarrow> cbor_value option" where
  "StrMapGet v key = map_of (v_strMap v) key"

section \<open>Encoding\<close>

definition encodeHead :: "byte \<Rightarrow> u64 \<Rightarrow> bytes" where
  "encodeHead mt val =
     (if val < 24 then [mt OR ucast val]
      else if val \<le> 0xFF then [mt OR aiOneByte, ucast val]
      else if val \<le> 0xFFFF then (mt OR aiTwoBytes) # PutUint16 (ucast val)
      else if val \<le> 0xFFFFFFFF then (mt OR aiFourBytes) # PutUint32 (ucast val)
      else (mt OR aiEightBytes) # PutUint64 val)"

text \<open>
  \<open>encodeIntKey\<close> encodes the value \<open>NInt n\<close>; only the two integer kinds arise, so it needs no
  recursion (\<open>encodeIntKey_eq\<close> below relates it to the encoder).
\<close>

definition encodeIntKey :: "i64 \<Rightarrow> bytes" where
  "encodeIntKey n =
     (if 0 \<le> int_of_u64 n then encodeHead mtUnsigned n else encodeHead mtNegative (- n - 1))"

definition compareIntKeys :: "i64 \<Rightarrow> i64 \<Rightarrow> int" where
  "compareIntKeys a b = bytes_compare (encodeIntKey a) (encodeIntKey b)"

definition sortIntMapEntries :: "(i64 \<times> 'v) list \<Rightarrow> (i64 \<times> 'v) list" where
  "sortIntMapEntries entries = SliceStable (\<lambda>a b. compareIntKeys (fst a) (fst b) < 0) entries"

definition str_key_less :: "gostring \<Rightarrow> gostring \<Rightarrow> bool" where
  "str_key_less ai bi =
     (if length ai \<noteq> length bi then length ai < length bi else bytes_compare ai bi < 0)"

definition sortStrMapEntries :: "(gostring \<times> 'v) list \<Rightarrow> (gostring \<times> 'v) list" where
  "sortStrMapEntries entries = SliceStable (\<lambda>a b. str_key_less (fst a) (fst b)) entries"

lemma set_sortIntMapEntries [simp]: "set (sortIntMapEntries es) = set es"
  by (simp add: sortIntMapEntries_def)

lemma set_sortStrMapEntries [simp]: "set (sortStrMapEntries es) = set es"
  by (simp add: sortStrMapEntries_def)

lemma size_map_value: "(k, v) \<in> set es \<Longrightarrow> size v < Suc (size_list (size_prod f size) es)"
  by (induction es) auto

lemma size_NInt [simp]: "size (NInt n) = 0"
  by (simp add: NInt_def)

function encodeValue :: "cbor_value \<Rightarrow> bytes" where
  "encodeValue (UUint n) = encodeHead mtUnsigned n"
| "encodeValue (NegV n) = encodeHead mtNegative (- n - 1)"
| "encodeValue (BStr b) = encodeHead mtByteStr (of_nat (length b)) @ b"
| "encodeValue (TStr s) = encodeHead mtTextStr (of_nat (length s)) @ s"
| "encodeValue (Arr vs) =
     encodeHead mtArray (of_nat (length vs)) @ concat (map encodeValue vs)"
| "encodeValue (IMap es) =
     (let entries = sortIntMapEntries es in
      encodeHead mtMap (of_nat (length entries))
      @ concat (map (\<lambda>(k, v). encodeValue (NInt k) @ encodeValue v) entries))"
| "encodeValue (SMap es) =
     (let entries = sortStrMapEntries es in
      encodeHead mtMap (of_nat (length entries))
      @ concat (map (\<lambda>(k, v). encodeValue (TStr k) @ encodeValue v) entries))"
| "encodeValue (BoolV b) = [if b then mtSimple OR simpleTrue else mtSimple OR simpleFalse]"
| "encodeValue NullV = [mtSimple OR simpleNull]"
  by pat_completeness auto
termination
  by (relation "measure size") (auto simp: size_map_value size_list_estimation' less_Suc_eq_le)

lemmas encode_eval [go_eval] = encodeHead_def encodeIntKey_def compareIntKeys_def
  sortIntMapEntries_def sortStrMapEntries_def str_key_less_def NInt_def cbor_consts

text \<open>\<open>Encode\<close> has an error result for a kind no constructor builds; it never returns one.\<close>

definition cbor_Encode :: "cbor_value \<Rightarrow> ('e, bytes) outcome" where
  "cbor_Encode v = Ok (encodeValue v)"

end
