(* ===== verification/Go_Utf8.thy ===== *)
theory Go_Utf8
  imports Go_Prelude
begin

text \<open>
  UTF-8 as Go's runtime and \<open>unicode/utf8\<close> treat it: ranging over a string and converting it
  to runes decode one rune at a time, and every byte that starts no well-formed sequence gives
  the replacement rune \<open>U+FFFD\<close> with width 1. Used by the text strings of package \<open>cbor\<close> and
  by \<open>truncateMessage\<close> of package \<open>closemanager\<close>. Runes are natural numbers (code points).
\<close>

definition RuneError :: nat where
  "RuneError = 0xFFFD"

text \<open>\<open>utf8.RuneStart\<close>: the two leading bits are not \<open>10\<close>.\<close>

definition RuneStart :: "byte \<Rightarrow> bool" where
  "RuneStart b \<longleftrightarrow> unat b div 64 \<noteq> 2"

definition is_cont :: "byte \<Rightarrow> bool" where
  "is_cont b \<longleftrightarrow> 0x80 \<le> unat b \<and> unat b \<le> 0xBF"

text \<open>
  The tables \<open>first\<close> and \<open>acceptRanges\<close>: the width of the sequence a leading byte opens, and
  the range of its second byte (which excludes overlong forms and surrogates).
\<close>

definition accept_range :: "byte \<Rightarrow> (nat \<times> nat \<times> nat) option" where
  "accept_range b =
     (let n = unat b in
      if 0xC2 \<le> n \<and> n \<le> 0xDF then Some (2, 0x80, 0xBF)
      else if n = 0xE0 then Some (3, 0xA0, 0xBF)
      else if n = 0xED then Some (3, 0x80, 0x9F)
      else if 0xE1 \<le> n \<and> n \<le> 0xEF then Some (3, 0x80, 0xBF)
      else if n = 0xF0 then Some (4, 0x90, 0xBF)
      else if n = 0xF4 then Some (4, 0x80, 0x8F)
      else if 0xF1 \<le> n \<and> n \<le> 0xF3 then Some (4, 0x80, 0xBF)
      else None)"

text \<open>\<open>utf8.DecodeRune\<close>: the rune and its width.\<close>

definition decode_rune :: "bytes \<Rightarrow> nat \<times> nat" where
  "decode_rune s =
     (case s of [] \<Rightarrow> (RuneError, 0)
      | b0 # cs \<Rightarrow>
        if unat b0 < 0x80 then (unat b0, 1)
        else (case accept_range b0 of None \<Rightarrow> (RuneError, 1)
          | Some (n, lo, hi) \<Rightarrow>
            (case cs of [] \<Rightarrow> (RuneError, 1)
             | b1 # cs1 \<Rightarrow>
               if unat b1 < lo \<or> hi < unat b1 then (RuneError, 1)
               else if n = 2 then ((unat b0 mod 32) * 64 + unat b1 mod 64, 2)
               else (case cs1 of [] \<Rightarrow> (RuneError, 1)
                 | b2 # cs2 \<Rightarrow>
                   if \<not> is_cont b2 then (RuneError, 1)
                   else if n = 3 then
                     ((unat b0 mod 16) * 4096 + (unat b1 mod 64) * 64 + unat b2 mod 64, 3)
                   else (case cs2 of [] \<Rightarrow> (RuneError, 1)
                     | b3 # cs3 \<Rightarrow>
                       if \<not> is_cont b3 then (RuneError, 1)
                       else ((unat b0 mod 8) * 262144 + (unat b1 mod 64) * 4096
                             + (unat b2 mod 64) * 64 + unat b3 mod 64, 4))))))"

text \<open>The runes a \<open>range\<close> loop over a string visits; also the conversion \<open>[]rune(s)\<close>.\<close>

fun runes :: "gostring \<Rightarrow> nat list" where
  "runes [] = []"
| "runes (b # bs) = (case decode_rune (b # bs) of (r, n) \<Rightarrow> r # runes (drop (n - 1) bs))"

text \<open>\<open>utf8.ValidString\<close>: no position decodes to an error of width 1.\<close>

fun ValidString :: "gostring \<Rightarrow> bool" where
  "ValidString [] = True"
| "ValidString (b # bs) =
     (case decode_rune (b # bs) of (r, n) \<Rightarrow>
        \<not> (r = RuneError \<and> n = 1) \<and> ValidString (drop (n - 1) bs))"

text \<open>\<open>utf8.RuneLen\<close> and the bytes of a rune in the conversion \<open>string(rs)\<close>.\<close>

definition RuneLen :: "nat \<Rightarrow> int" where
  "RuneLen r =
     (if r \<le> 0x7F then 1 else if r \<le> 0x7FF then 2
      else if 0xD800 \<le> r \<and> r \<le> 0xDFFF then -1
      else if r \<le> 0xFFFF then 3 else if r \<le> 0x10FFFF then 4 else -1)"

definition encode_rune :: "nat \<Rightarrow> bytes" where
  "encode_rune r0 =
     (let r = (if RuneLen r0 = -1 then RuneError else r0) in
      if r \<le> 0x7F then [of_nat r]
      else if r \<le> 0x7FF then [of_nat (0xC0 + r div 64), of_nat (0x80 + r mod 64)]
      else if r \<le> 0xFFFF then
        [of_nat (0xE0 + r div 4096), of_nat (0x80 + r div 64 mod 64), of_nat (0x80 + r mod 64)]
      else [of_nat (0xF0 + r div 262144), of_nat (0x80 + r div 4096 mod 64),
            of_nat (0x80 + r div 64 mod 64), of_nat (0x80 + r mod 64)])"

definition string_of_runes :: "nat list \<Rightarrow> gostring" where
  "string_of_runes rs = concat (map encode_rune rs)"

section \<open>Widths and boundaries\<close>

lemma RuneStart_iff: "RuneStart b \<longleftrightarrow> \<not> is_cont b"
proof -
  have "n div 64 = 2 \<longleftrightarrow> 128 \<le> n \<and> n \<le> 191" for n :: nat by auto
  then show ?thesis by (simp add: RuneStart_def is_cont_def)
qed

text \<open>The bytes that can follow in a well-formed sequence are continuation bytes.\<close>

lemma accept_range_cont:
  "accept_range b = Some (n, lo, hi) \<Longrightarrow>
   n \<in> {2, 3, 4} \<and> 0x80 \<le> lo \<and> hi \<le> 0xBF \<and> \<not> is_cont b"
  by (auto simp: accept_range_def is_cont_def Let_def split: if_splits)

text \<open>The shapes of a well-formed sequence, as an elimination rule.\<close>

lemma decode_runeE:
  assumes "decode_rune (b # bs) = (r, n)" and "\<not> (r = RuneError \<and> n = 1)"
  obtains (one) "unat b < 0x80" "r = unat b" "n = 1"
  | (two) b1 cs lo hi where "bs = b1 # cs" "accept_range b = Some (2, lo, hi)" "n = 2"
      "lo \<le> unat b1" "unat b1 \<le> hi" "128 \<le> unat b"
      "r = (unat b mod 32) * 64 + unat b1 mod 64"
  | (three) b1 b2 cs lo hi where "bs = b1 # b2 # cs" "accept_range b = Some (3, lo, hi)" "n = 3"
      "lo \<le> unat b1" "unat b1 \<le> hi" "is_cont b2" "128 \<le> unat b"
      "r = (unat b mod 16) * 4096 + (unat b1 mod 64) * 64 + unat b2 mod 64"
  | (four) b1 b2 b3 cs lo hi where "bs = b1 # b2 # b3 # cs"
      "accept_range b = Some (4, lo, hi)" "n = 4"
      "lo \<le> unat b1" "unat b1 \<le> hi" "is_cont b2" "is_cont b3" "128 \<le> unat b"
      "r = (unat b mod 8) * 262144 + (unat b1 mod 64) * 4096 + (unat b2 mod 64) * 64
           + unat b3 mod 64"
proof (cases "unat b < 0x80")
  case True
  show ?thesis by (rule one) (use True assms in \<open>simp_all add: decode_rune_def\<close>)
next
  case False
  with assms obtain m lo hi where m: "accept_range b = Some (m, lo, hi)"
    by (cases "accept_range b") (auto simp: decode_rune_def)
  with assms False obtain b1 cs where bs: "bs = b1 # cs"
    by (cases bs) (auto simp: decode_rune_def)
  with assms False m have b1: "lo \<le> unat b1" "unat b1 \<le> hi"
    by (cases "unat b1 < lo \<or> hi < unat b1"; simp add: decode_rune_def)+
  consider "m = 2" | "m = 3" | "m = 4" using accept_range_cont [OF m] by auto
  then show ?thesis
  proof cases
    case 1
    with two [OF bs] assms False m bs b1 show ?thesis by (simp add: decode_rune_def)
  next
    case 2
    with assms False m bs b1 obtain b2 cs' where "cs = b2 # cs'" "is_cont b2"
      by (auto simp: decode_rune_def split: list.splits if_splits)
    with 2 three [of b1 b2 cs'] assms False m bs b1 show ?thesis by (simp add: decode_rune_def)
  next
    case 3
    with assms False m bs b1 obtain b2 b3 cs' where "cs = b2 # b3 # cs'" "is_cont b2" "is_cont b3"
      by (auto simp: decode_rune_def split: list.splits if_splits)
    with 3 four [of b1 b2 b3 cs'] assms False m bs b1 show ?thesis
      by (simp add: decode_rune_def)
  qed
qed

lemma decode_rune_valid_width:
  assumes "decode_rune (b # bs) = (r, n)" and "\<not> (r = RuneError \<and> n = 1)"
  shows "1 \<le> n" and "n \<le> 4" and "n \<le> length (b # bs)" and "\<not> is_cont b"
    and "\<forall>c \<in> set (take (n - 1) bs). is_cont c"
proof -
  have "1 \<le> n \<and> n \<le> 4 \<and> n \<le> length (b # bs) \<and> \<not> is_cont b
      \<and> (\<forall>c \<in> set (take (n - 1) bs). is_cont c)"
    using assms
    by (cases rule: decode_runeE) (auto simp: is_cont_def dest!: accept_range_cont)
  then show "1 \<le> n" and "n \<le> 4" and "n \<le> length (b # bs)" and "\<not> is_cont b"
    and "\<forall>c \<in> set (take (n - 1) bs). is_cont c" by blast+
qed

lemma decode_rune_take:
  assumes "decode_rune (b # bs) = (r, n)" and "\<not> (r = RuneError \<and> n = 1)" and "n - 1 \<le> i"
  shows "decode_rune (b # take i bs) = (r, n)"
  using assms(1,2)
proof (cases rule: decode_runeE)
  case one
  then show ?thesis by (simp add: decode_rune_def)
next
  case (two b1 cs lo hi)
  with assms(3) show ?thesis by (cases i) (simp_all add: decode_rune_def)
next
  case (three b1 b2 cs lo hi)
  with assms(3) have "take i bs = b1 # b2 # take (i - 2) cs"
    by (auto simp: take_Cons' numeral_2_eq_2)
  with three show ?thesis by (simp add: decode_rune_def)
next
  case (four b1 b2 b3 cs lo hi)
  with assms(3) have "take i bs = b1 # b2 # b3 # take (i - 3) cs"
    by (auto simp: take_Cons' numeral_3_eq_3)
  with four show ?thesis by (simp add: decode_rune_def)
qed

text \<open>Cutting a valid string at a rune start leaves a valid string.\<close>

lemma ValidString_take:
  "ValidString s \<Longrightarrow> i < length s \<Longrightarrow> RuneStart (s ! i) \<Longrightarrow> ValidString (take i s)"
proof (induction s arbitrary: i rule: ValidString.induct)
  case (2 b bs)
  obtain r n where d: "decode_rune (b # bs) = (r, n)" by (cases "decode_rune (b # bs)")
  with "2.prems" have v: "\<not> (r = RuneError \<and> n = 1)" "ValidString (drop (n - 1) bs)" by auto
  note w = decode_rune_valid_width [OF d v(1)]
  show ?case
  proof (cases "i < n")
    case True
    show ?thesis
    proof (cases i)
      case (Suc j)
      with True w(3) have "bs ! j \<in> set (take (n - 1) bs)"
        by (auto simp: in_set_conv_nth intro!: exI [of _ j])
      with w(5) Suc "2.prems"(3) show ?thesis by (simp add: RuneStart_iff)
    qed simp
  next
    case False
    then obtain k where k: "i = n + k" by (metis le_Suc_ex not_less)
    have t: "take i (b # bs) = b # take (n - 1 + k) bs" using k w(1) by (cases n) auto
    have "decode_rune (b # take (n - 1 + k) bs) = (r, n)"
      using decode_rune_take [OF d v(1)] by simp
    moreover have "ValidString (take k (drop (n - 1) bs))"
      using "2.IH" [OF d [symmetric] v(2)] "2.prems"(2,3) k w(1) by (auto simp: nth_Cons')
    ultimately show ?thesis unfolding t using v by (auto simp: drop_take)
  qed
qed simp

text \<open>In a valid string a rune starts at one of any four consecutive positions.\<close>

lemma ValidString_rune_start:
  "ValidString s \<Longrightarrow> i < length s \<Longrightarrow> \<exists>j \<le> i. i < j + 4 \<and> RuneStart (s ! j)"
proof (induction s arbitrary: i rule: ValidString.induct)
  case (2 b bs)
  obtain r n where d: "decode_rune (b # bs) = (r, n)" by (cases "decode_rune (b # bs)")
  with "2.prems" have v: "\<not> (r = RuneError \<and> n = 1)" "ValidString (drop (n - 1) bs)" by auto
  note w = decode_rune_valid_width [OF d v(1)]
  show ?case
  proof (cases "i < n")
    case True
    with w(2,4) show ?thesis by (intro exI [of _ 0]) (simp add: RuneStart_iff)
  next
    case False
    then obtain k where k: "i = n + k" by (metis le_Suc_ex not_less)
    have "k < length (drop (n - 1) bs)" using k "2.prems"(2) w(1) by simp
    from "2.IH" [OF d [symmetric] v(2) this] obtain j where
      "j \<le> k" "k < j + 4" "RuneStart (drop (n - 1) bs ! j)" by blast
    with k w(1,3) "2.prems"(2) show ?thesis by (intro exI [of _ "n + j"]) (auto simp: nth_Cons')
  qed
qed simp

lemma length_encode_rune: "RuneLen r \<noteq> -1 \<Longrightarrow> int (length (encode_rune r)) = RuneLen r"
  by (auto simp: encode_rune_def RuneLen_def Let_def RuneError_def split: if_splits)

lemma cont_mod: "128 \<le> n \<Longrightarrow> n < 192 \<Longrightarrow> n mod 64 = n - 128" for n :: nat
proof -
  assume "128 \<le> n" "n < 192"
  then obtain k where n: "n = 128 + k" by (metis le_Suc_ex)
  with \<open>n < 192\<close> have k: "n = 128 + k" "k < 64" by simp_all
  have "(64 + (64 + k)) mod 64 = k mod 64" by (simp only: mod_add_self1)
  with k show ?thesis by simp
qed

text \<open>Decoding never yields a surrogate or a value beyond \<open>U+10FFFF\<close>.\<close>

lemma three_byte_scalar:
  assumes "accept_range b = Some (3, lo, hi)" and "lo \<le> unat b1" and "unat b1 \<le> hi"
    and r: "r = (unat b mod 16) * 4096 + (unat b1 mod 64) * 64 + unat b2 mod 64"
  shows "r < 0xD800 \<or> 0xDFFF < r \<and> r < 65536"
proof -
  have m: "unat b1 mod 64 < 64" "unat b2 mod 64 < 64" "unat b mod 16 < 16" by simp_all
  show ?thesis
  proof (cases "unat b = 0xED")
    case True
    with assms have "128 \<le> unat b1" "unat b1 < 160" by (auto simp: accept_range_def)
    then have "unat b1 mod 64 < 32" by (simp add: cont_mod)
    moreover have "unat b mod 16 = 13" using True by simp
    ultimately show ?thesis using m unfolding r by linarith
  next
    case False
    moreover have "0xE0 \<le> unat b" "unat b \<le> 0xEF"
      using assms(1) by (simp_all add: accept_range_def Let_def split: if_splits)
    ultimately have "unat b mod 16 \<noteq> 13" by presburger
    with m show ?thesis unfolding r by linarith
  qed
qed

lemma four_byte_lead:
  assumes "accept_range b = Some (4, lo, hi)" and "lo \<le> unat b1" and "unat b1 \<le> hi"
  shows "unat b mod 8 = 0 \<and> 16 \<le> unat b1 mod 64 \<or>
    unat b mod 8 = 4 \<and> unat b1 mod 64 < 16 \<or> 1 \<le> unat b mod 8 \<and> unat b mod 8 < 4"
proof -
  consider "unat b = 0xF0" "0x90 \<le> unat b1" "unat b1 \<le> 0xBF" | "unat b = 0xF4" "0x80 \<le> unat b1" "unat b1 \<le> 0x8F"
    | "0xF1 \<le> unat b" "unat b \<le> 0xF3"
    using assms by (auto simp: accept_range_def Let_def split: if_splits)
  then show ?thesis
  proof cases
    case 3
    then show ?thesis by presburger
  qed (simp_all add: cont_mod)
qed

lemma decode_rune_scalar:
  assumes "decode_rune (b # bs) = (r, n)"
  shows "RuneLen r \<noteq> -1"
proof (cases "r = RuneError \<and> n = 1")
  case True
  then show ?thesis by (simp add: RuneLen_def RuneError_def)
next
  case False
  with assms show ?thesis
  proof (cases rule: decode_runeE)
    case one
    then show ?thesis by (simp add: RuneLen_def)
  next
    case (two b1 cs lo hi)
    have "r < 2048" unfolding two
      using mod_less_divisor [of 32 "unat b"] mod_less_divisor [of 64 "unat b1"] by linarith
    then show ?thesis by (simp add: RuneLen_def)
  next
    case (three b1 b2 cs lo hi)
    from three_byte_scalar [OF three(2,4,5,8)] show ?thesis by (auto simp: RuneLen_def)
  next
    case (four b1 b2 b3 cs lo hi)
    have "unat b1 mod 64 < 64" "unat b2 mod 64 < 64" "unat b3 mod 64 < 64" by simp_all
    with four_byte_lead [OF four(2,4,5)] have "0x10000 \<le> r" "r \<le> 0x10FFFF" unfolding four by linarith+
    then show ?thesis by (auto simp: RuneLen_def)
  qed
qed

lemmas utf8_eval [go_eval] = decode_rune_def accept_range_def is_cont_def RuneError_def
  RuneStart_def RuneLen_def encode_rune_def string_of_runes_def

end
