(* ===== verification/Cbor_Decode.thy ===== *)
theory Cbor_Decode
  imports Cbor_Encode Go_Utf8
begin

text \<open>
  Package \<open>cbor\<close>, second half (\<open>src/cbor/cbor.go\<close>, from \<open>Decode\<close> on): the lenient decoder
  \<open>decodeValue\<close>, the validating decoder \<open>decodeValueCanonical\<close> and \<open>CheckCanonical\<close>. A call
  takes the input and a position and returns the value and the new position, an error, or a
  panic (a slice expression out of range, an allocation beyond the runtime's limit). The loops
  of the decoders over array items and map entries call the decoder again; that each call
  returns a position no smaller than its own is proved along with their termination.
\<close>

section \<open>Errors\<close>

datatype cbor_error =
    UnexpectedEOF
  | IndefiniteLength
  | BreakCode
  | TruncatedArgument nat
  | NonCanonicalArgument u64 nat
  | BadAdditionalInfo byte
  | InvalidAdditionalInfo byte
  | NegativeOverflow nat
  | NegativeLength
  | LengthOverflow
  | ByteStringTruncated
  | TextStringTruncated
  | InvalidUTF8
  | ArrayLengthExceedsData
  | MapLengthExceedsData
  | DuplicateKey nat
  | MixedKeyTypes
  | UnsupportedSimple byte
  | UnsupportedMajorType byte nat
  | TrailingBytes nat nat

text \<open>The text of an error, as \<open>Error()\<close> returns it.\<close>

fun cbor_error_msg :: "cbor_error \<Rightarrow> string" where
  "cbor_error_msg UnexpectedEOF = ''cbor: unexpected EOF''"
| "cbor_error_msg IndefiniteLength = ''cbor: indefinite-length not allowed in canonical encoding''"
| "cbor_error_msg BreakCode = ''cbor: break code not allowed (no indefinite-length)''"
| "cbor_error_msg (TruncatedArgument n) = ''cbor: truncated '' @ fmt_d n @ ''-byte argument''"
| "cbor_error_msg (NonCanonicalArgument v n) =
     ''cbor: non-canonical encoding: value '' @ fmt_d (unat v) @ '' should use ''
     @ (if n = 1 then ''immediate'' else fmt_d (n div 2) @ ''-byte'') @ '', not '' @ fmt_d n @ ''-byte''"
| "cbor_error_msg (BadAdditionalInfo ai) = ''cbor: unsupported additional info '' @ fmt_d (unat ai)"
| "cbor_error_msg (InvalidAdditionalInfo ai) = ''cbor: invalid additional info '' @ fmt_d (unat ai)"
| "cbor_error_msg (NegativeOverflow p) = ''cbor: negative integer overflow at offset '' @ fmt_d p"
| "cbor_error_msg NegativeLength = ''cbor: negative length''"
| "cbor_error_msg LengthOverflow = ''cbor: length overflow''"
| "cbor_error_msg ByteStringTruncated = ''cbor: byte string truncated''"
| "cbor_error_msg TextStringTruncated = ''cbor: text string truncated''"
| "cbor_error_msg InvalidUTF8 = ''cbor: invalid UTF-8 in text string''"
| "cbor_error_msg ArrayLengthExceedsData = ''cbor: array length exceeds available data''"
| "cbor_error_msg MapLengthExceedsData = ''cbor: map length exceeds available data''"
| "cbor_error_msg (DuplicateKey i) = ''cbor: duplicate map key at entry '' @ fmt_d i"
| "cbor_error_msg MixedKeyTypes = ''cbor: mixed key types in map not supported''"
| "cbor_error_msg (UnsupportedSimple ai) = ''cbor: unsupported simple value '' @ fmt_d (unat ai)"
| "cbor_error_msg (UnsupportedMajorType mt p) =
     ''cbor: unsupported major type '' @ fmt_d (unat mt div 32) @ '' at offset '' @ fmt_d p"
| "cbor_error_msg (TrailingBytes consumed len) =
     ''cbor: trailing bytes after value: consumed '' @ fmt_d consumed @ '' of '' @ fmt_d len"

section \<open>Arguments and strings\<close>

definition readArg :: "bytes \<Rightarrow> nat \<Rightarrow> byte \<Rightarrow> (cbor_error, u64 \<times> nat) outcome" where
  "readArg data pos ai =
     (if ai \<le> 23 then Ok (ucast ai, pos)
      else if ai = aiOneByte then
        if pos + 1 > length data then Err (TruncatedArgument 1)
        else Ok (ucast (data ! pos), pos + 1)
      else if ai = aiTwoBytes then
        if pos + 2 > length data then Err (TruncatedArgument 2)
        else Ok (ucast (Uint16 (drop pos data)), pos + 2)
      else if ai = aiFourBytes then
        if pos + 4 > length data then Err (TruncatedArgument 4)
        else Ok (ucast (Uint32 (drop pos data)), pos + 4)
      else if ai = aiEightBytes then
        if pos + 8 > length data then Err (TruncatedArgument 8)
        else Ok (Uint64 (drop pos data), pos + 8)
      else if ai = aiBreak then Err BreakCode
      else Err (BadAdditionalInfo ai))"

definition readArgCanonical :: "bytes \<Rightarrow> nat \<Rightarrow> byte \<Rightarrow> (cbor_error, u64 \<times> nat) outcome" where
  "readArgCanonical data pos ai =
     (if ai \<le> 23 then Ok (ucast ai, pos)
      else if ai = aiOneByte then
        if pos + 1 > length data then Err (TruncatedArgument 1)
        else let v = ucast (data ! pos) in
          if v \<le> 23 then Err (NonCanonicalArgument v 1) else Ok (v, pos + 1)
      else if ai = aiTwoBytes then
        if pos + 2 > length data then Err (TruncatedArgument 2)
        else let v = ucast (Uint16 (drop pos data)) in
          if v \<le> 255 then Err (NonCanonicalArgument v 2) else Ok (v, pos + 2)
      else if ai = aiFourBytes then
        if pos + 4 > length data then Err (TruncatedArgument 4)
        else let v = ucast (Uint32 (drop pos data)) in
          if v \<le> 65535 then Err (NonCanonicalArgument v 4) else Ok (v, pos + 4)
      else if ai = aiEightBytes then
        if pos + 8 > length data then Err (TruncatedArgument 8)
        else let v = Uint64 (drop pos data) in
          if v \<le> 4294967295 then Err (NonCanonicalArgument v 8) else Ok (v, pos + 8)
      else if ai = aiBreak then Err IndefiniteLength
      else Err (InvalidAdditionalInfo ai))"

definition checkedAdd :: "int \<Rightarrow> int \<Rightarrow> (cbor_error, int) outcome" where
  "checkedAdd a b =
     (if b < 0 then Err NegativeLength
      else if a > max_int - b then Err LengthOverflow
      else Ok (a + b))"

text \<open>The bodies of the byte-string and text-string cases: the bytes and the new position.\<close>

definition takeString :: "bytes \<Rightarrow> nat \<Rightarrow> u64 \<Rightarrow> cbor_error \<Rightarrow> (cbor_error, bytes \<times> nat) outcome" where
  "takeString data pos arg trunc =
     obind (checkedAdd (int pos) (int_of_u64 arg)) (\<lambda>end.
       if end > int (length data) then Err trunc
       else obind (go_slice data (int pos) end) (\<lambda>b. Ok (b, nat end)))"

definition takeStringCanonical ::
  "bytes \<Rightarrow> nat \<Rightarrow> u64 \<Rightarrow> cbor_error \<Rightarrow> (cbor_error, bytes \<times> nat) outcome" where
  "takeStringCanonical data pos arg trunc =
     (let end = wrap_int (int pos + int_of_u64 arg) in
      if end > int (length data) then Err trunc
      else obind (go_slice data (int pos) end) (\<lambda>b. Ok (b, nat end)))"

definition isValidUTF8 :: "gostring \<Rightarrow> bool" where
  "isValidUTF8 s \<longleftrightarrow> list_all (\<lambda>r. r \<noteq> 0xFFFD) (runes s)"

text \<open>The case \<open>mtNegative\<close> and the case \<open>mtSimple\<close>, the same in both decoders.\<close>

definition decodeNegative :: "u64 \<Rightarrow> nat \<Rightarrow> (cbor_error, cbor_value \<times> nat) outcome" where
  "decodeNegative arg pos =
     (if arg > 2 ^ 63 - 1 then Err (NegativeOverflow pos) else Ok (NInt (- arg - 1), pos))"

definition decodeSimple :: "byte \<Rightarrow> nat \<Rightarrow> (cbor_error, cbor_value \<times> nat) outcome" where
  "decodeSimple ai pos =
     (if ai = simpleFalse then Ok (BoolV False, pos)
      else if ai = simpleTrue then Ok (BoolV True, pos)
      else if ai = simpleNull \<or> ai = simpleUndef then Ok (NullV, pos)
      else Err (UnsupportedSimple ai))"

text \<open>
  Memory of one element of the slices that \<open>make\<close> allocates: a \<open>Value\<close> struct takes 144 bytes,
  a pair of pointers 16.
\<close>

definition value_size :: nat where "value_size = 144"
definition pair_size :: nat where "pair_size = 16"

section \<open>The lenient decoder\<close>

definition is_int_key :: "cbor_value \<Rightarrow> bool" where
  "is_int_key k \<longleftrightarrow> Kind k = KindUnsigned \<or> Kind k = KindNegative"

definition is_str_key :: "cbor_value \<Rightarrow> bool" where
  "is_str_key k \<longleftrightarrow> Kind k = KindTextString"

text \<open>What the case \<open>mtMap\<close> does with the decoded pairs.\<close>

definition buildMap :: "(cbor_value \<times> cbor_value) list \<Rightarrow> (cbor_error, cbor_value) outcome" where
  "buildMap pairs =
     (if list_all (\<lambda>(k, v). is_int_key k) pairs
      then Ok (IMap (map (\<lambda>(k, v). (v_int k, v)) pairs))
      else if list_all (\<lambda>(k, v). is_str_key k) pairs
      then Ok (SMap (map (\<lambda>(k, v). (v_str k, v)) pairs))
      else Err MixedKeyTypes)"

function decodeValue :: "bytes \<Rightarrow> nat \<Rightarrow> (cbor_error, cbor_value \<times> nat) outcome"
  and decodeItems :: "bytes \<Rightarrow> nat \<Rightarrow> nat \<Rightarrow> (cbor_error, cbor_value list \<times> nat) outcome"
  and decodePairs ::
    "bytes \<Rightarrow> nat \<Rightarrow> nat \<Rightarrow> (cbor_error, (cbor_value \<times> cbor_value) list \<times> nat) outcome" where
  "decodeValue data pos =
     (if pos \<ge> length data then Err UnexpectedEOF
      else let ib = data ! pos; mt = ib AND 0xe0; ai = ib AND 0x1f in
        obind (readArg data (pos + 1) ai) (\<lambda>(arg, p).
          if mt = mtUnsigned then Ok (UUint arg, p)
          else if mt = mtNegative then decodeNegative arg p
          else if mt = mtByteStr then
            obind (takeString data p arg ByteStringTruncated) (\<lambda>(b, q). Ok (BStr b, q))
          else if mt = mtTextStr then
            obind (takeString data p arg TextStringTruncated) (\<lambda>(s, q). Ok (TStr s, q))
          else if mt = mtArray then
            if int_of_u64 arg > int (length data) - int p then Err ArrayLengthExceedsData
            else if \<not> make_ok arg value_size then Panic
            else obind (decodeItems data (unat arg) p) (\<lambda>(vs, q). Ok (Arr vs, q))
          else if mt = mtMap then
            if int_of_u64 arg > int (length data) - int p then Err MapLengthExceedsData
            else if \<not> make_ok arg pair_size then Panic
            else obind (decodePairs data (unat arg) p) (\<lambda>(kvs, q).
              obind (buildMap kvs) (\<lambda>v. Ok (v, q)))
          else if mt = mtSimple then decodeSimple ai p
          else Err (UnsupportedMajorType mt p)))"
| "decodeItems data 0 pos = Ok ([], pos)"
| "decodeItems data (Suc n) pos =
     obind (decodeValue data pos) (\<lambda>(v, p).
       obind (decodeItems data n p) (\<lambda>(vs, q). Ok (v # vs, q)))"
| "decodePairs data 0 pos = Ok ([], pos)"
| "decodePairs data (Suc n) pos =
     obind (decodeValue data pos) (\<lambda>(k, p).
       obind (decodeValue data p) (\<lambda>(v, q).
         obind (decodePairs data n q) (\<lambda>(kvs, r). Ok ((k, v) # kvs, r))))"
  by pat_completeness auto

lemma readArg_pos: "readArg data pos ai = Ok (arg, p) \<Longrightarrow> pos \<le> p"
  by (auto simp: readArg_def split: if_splits)

lemma takeString_pos: "takeString data pos arg e = Ok (b, q) \<Longrightarrow> pos \<le> q"
  by (auto simp: takeString_def checkedAdd_def split: if_splits)

lemma decodeNegative_pos: "decodeNegative arg p = Ok (v, q) \<Longrightarrow> q = p"
  by (auto simp: decodeNegative_def split: if_splits)

lemma decodeSimple_pos: "decodeSimple ai p = Ok (v, q) \<Longrightarrow> q = p"
  by (auto simp: decodeSimple_def split: if_splits)

lemma decode_pos_dom:
  "decodeValue_decodeItems_decodePairs_dom (Inl (data, pos)) \<Longrightarrow>
     decodeValue data pos = Ok (v, p) \<Longrightarrow> pos < p"
  "decodeValue_decodeItems_decodePairs_dom (Inr (Inl (data, n, pos))) \<Longrightarrow>
     decodeItems data n pos = Ok (vs, p) \<Longrightarrow> pos + n \<le> p"
  "decodeValue_decodeItems_decodePairs_dom (Inr (Inr (data, n, pos))) \<Longrightarrow>
     decodePairs data n pos = Ok (kvs, p) \<Longrightarrow> pos + 2 * n \<le> p"
proof (induction data pos and data n pos and data n pos arbitrary: v p and vs p and kvs p
    rule: decodeValue_decodeItems_decodePairs.pinduct)
  case (1 data pos)
  from "1.prems" "1.hyps" obtain arg q where
    ra: "readArg data (pos + 1) (data ! pos AND 0x1f) = Ok (arg, q)" and len: "\<not> length data \<le> pos"
    by (auto simp: decodeValue.psimps Let_def split: if_splits)
  note q = readArg_pos [OF ra]
  note IH = "1.IH" [OF len refl refl refl ra refl]
  have I1: "q \<le> r"
    if "decodeItems data (unat arg) q = Ok (vs, r)" "data ! pos AND 0xe0 = mtArray"
      "\<not> int (length data) - int q < int_of_u64 arg" "make_ok arg value_size" for vs r
    using that by (intro add_leD1 [of q "unat arg"] IH(1)) (auto simp: mt_defs)
  have I2: "q \<le> r"
    if "decodePairs data (unat arg) q = Ok (vs, r)" "data ! pos AND 0xe0 = mtMap"
      "\<not> int (length data) - int q < int_of_u64 arg" "make_ok arg pair_size" for vs r
    using that by (intro add_leD1 [of q "2 * unat arg"] IH(2)) (auto simp: mt_defs)
  from "1.prems" "1.hyps" ra q show ?case
    by (auto simp: decodeValue.psimps Let_def split: if_splits
        dest: I1 I2 takeString_pos decodeNegative_pos decodeSimple_pos)
qed (auto simp: decodeItems.psimps decodePairs.psimps, fastforce+)

lemma decode_total: "All decodeValue_decodeItems_decodePairs_dom"
  by (relation "measures
      [\<lambda>x. case x of Inl (d, p) \<Rightarrow> length d - p | Inr (Inl (d, n, p)) \<Rightarrow> length d - p
            | Inr (Inr (d, n, p)) \<Rightarrow> length d - p,
       \<lambda>x. case x of Inl (d, p) \<Rightarrow> 0 | Inr (Inl (d, n, p)) \<Rightarrow> Suc n
            | Inr (Inr (d, n, p)) \<Rightarrow> Suc n]")
    (auto dest!: readArg_pos decode_pos_dom)

termination decodeValue by (rule decode_total)

declare decodeValue.simps [simp del]

lemmas decode_pos = decode_pos_dom [OF decode_total [THEN spec]]

definition cbor_Decode :: "bytes \<Rightarrow> (cbor_error, cbor_value \<times> nat) outcome" where
  "cbor_Decode data = decodeValue data 0"

section \<open>The canonical decoder\<close>

text \<open>
  The local variables of the map loop: the entries seen so far, and the two flags. A key that is
  neither an integer nor a text string clears both flags and is not recorded.
\<close>

record map_acc =
  intEntries :: "(i64 \<times> cbor_value) list"
  strEntries :: "(gostring \<times> cbor_value) list"
  allInt :: bool
  allStr :: bool

definition map_acc_init :: map_acc where
  "map_acc_init = \<lparr>intEntries = [], strEntries = [], allInt = True, allStr = True\<rparr>"

definition addEntry ::
  "nat \<Rightarrow> cbor_value \<Rightarrow> cbor_value \<Rightarrow> map_acc \<Rightarrow> (cbor_error, map_acc) outcome" where
  "addEntry i k v acc =
     (if Kind k = KindUnsigned \<or> Kind k = KindNegative then
        let keyVal = (if Kind k = KindNegative then v_neg k else v_uint k) in
        if list_ex (\<lambda>e. fst e = keyVal) (intEntries acc) then Err (DuplicateKey i)
        else Ok (acc\<lparr>intEntries := intEntries acc @ [(keyVal, v)]\<rparr>)
      else if Kind k = KindTextString then
        if list_ex (\<lambda>e. fst e = v_str k) (strEntries acc) then Err (DuplicateKey i)
        else Ok (acc\<lparr>strEntries := strEntries acc @ [(v_str k, v)]\<rparr>)
      else Ok (acc\<lparr>allInt := False, allStr := False\<rparr>))"

definition finishMap :: "map_acc \<Rightarrow> (cbor_error, cbor_value) outcome" where
  "finishMap acc =
     (if allInt acc \<and> length (strEntries acc) = 0 then Ok (IMap (intEntries acc))
      else if allStr acc \<and> length (intEntries acc) = 0 then Ok (SMap (strEntries acc))
      else Err MixedKeyTypes)"

function decodeValueCanonical :: "bytes \<Rightarrow> nat \<Rightarrow> (cbor_error, cbor_value \<times> nat) outcome"
  and decodeItemsCanonical ::
    "bytes \<Rightarrow> nat \<Rightarrow> nat \<Rightarrow> (cbor_error, cbor_value list \<times> nat) outcome"
  and decodeEntriesCanonical ::
    "bytes \<Rightarrow> nat \<Rightarrow> nat \<Rightarrow> nat \<Rightarrow> map_acc \<Rightarrow> (cbor_error, map_acc \<times> nat) outcome" where
  "decodeValueCanonical data pos =
     (if pos \<ge> length data then Err UnexpectedEOF
      else let ib = data ! pos; mt = ib AND 0xe0; ai = ib AND 0x1f in
        if ai = aiBreak \<and> (mt = mtByteStr \<or> mt = mtTextStr \<or> mt = mtArray \<or> mt = mtMap)
        then Err IndefiniteLength
        else obind (readArgCanonical data (pos + 1) ai) (\<lambda>(arg, p).
          if mt = mtUnsigned then Ok (UUint arg, p)
          else if mt = mtNegative then decodeNegative arg p
          else if mt = mtByteStr then
            obind (takeStringCanonical data p arg ByteStringTruncated) (\<lambda>(b, q). Ok (BStr b, q))
          else if mt = mtTextStr then
            obind (takeStringCanonical data p arg TextStringTruncated) (\<lambda>(s, q).
              if \<not> isValidUTF8 s then Err InvalidUTF8 else Ok (TStr s, q))
          else if mt = mtArray then
            if \<not> make_ok arg value_size then Panic
            else obind (decodeItemsCanonical data (unat arg) p) (\<lambda>(vs, q). Ok (Arr vs, q))
          else if mt = mtMap then
            obind (decodeEntriesCanonical data (unat arg) 0 p map_acc_init) (\<lambda>(acc, q).
              obind (finishMap acc) (\<lambda>v. Ok (v, q)))
          else if mt = mtSimple then decodeSimple ai p
          else Err (UnsupportedMajorType mt p)))"
| "decodeItemsCanonical data 0 pos = Ok ([], pos)"
| "decodeItemsCanonical data (Suc n) pos =
     obind (decodeValueCanonical data pos) (\<lambda>(v, p).
       obind (decodeItemsCanonical data n p) (\<lambda>(vs, q). Ok (v # vs, q)))"
| "decodeEntriesCanonical data 0 i pos acc = Ok (acc, pos)"
| "decodeEntriesCanonical data (Suc n) i pos acc =
     obind (decodeValueCanonical data pos) (\<lambda>(k, p).
       obind (decodeValueCanonical data p) (\<lambda>(v, q).
         obind (addEntry i k v acc) (\<lambda>acc'.
           decodeEntriesCanonical data n (i + 1) q acc')))"
  by pat_completeness auto

lemma readArgCanonical_readArg:
  "readArgCanonical data pos ai = Ok r \<Longrightarrow> readArg data pos ai = Ok r"
  by (auto simp: readArgCanonical_def readArg_def Let_def split: if_splits)

lemma takeStringCanonical_takeString:
  assumes "takeStringCanonical data pos arg e = Ok r" and "length data < 2 ^ 63"
  shows "takeString data pos arg e = Ok r"
proof -
  let ?stop = "wrap_int (int pos + int_of_u64 arg)"
  from assms have e: "int pos \<le> ?stop" "?stop \<le> int (length data)"
    by (auto simp: takeStringCanonical_def go_slice_def Let_def split: if_splits)
  have nonneg: "0 \<le> int_of_u64 arg"
  proof (rule ccontr)
    assume neg: "\<not> 0 \<le> int_of_u64 arg"
    with e assms(2) int_of_u64_ge [of arg] have "?stop = int pos + int_of_u64 arg"
      by (intro wrap_int_id) auto
    with e(1) neg show False by simp
  qed
  note small = int_of_u64_lt [of arg]
  have fits: "int pos + int_of_u64 arg \<le> max_int"
  proof (rule ccontr)
    assume "\<not> int pos + int_of_u64 arg \<le> max_int"
    then have big: "2 ^ 63 \<le> int pos + int_of_u64 arg" by (simp add: max_int_def)
    have "int (length data) < 2 ^ 63" using assms(2) by simp
    with e have pos: "int pos < 2 ^ 63" by linarith
    have "?stop = wrap_int (int pos + int_of_u64 arg - 2 ^ 64)"
      by (rule wrap_int_minus [symmetric])
    also have "\<dots> = int pos + int_of_u64 arg - 2 ^ 64"
      using big pos small nonneg by (intro wrap_int_id) auto
    finally show False using e(1) pos small by simp
  qed
  then have "?stop = int pos + int_of_u64 arg"
    using nonneg by (intro wrap_int_id) (auto simp: max_int_def)
  with assms(1) nonneg fits show ?thesis
    by (auto simp: takeStringCanonical_def takeString_def checkedAdd_def Let_def)
qed

lemma takeStringCanonical_pos: "takeStringCanonical data pos arg e = Ok (b, q) \<Longrightarrow> pos \<le> q"
  by (auto simp: takeStringCanonical_def go_slice_def Let_def split: if_splits)

lemma decodeCanonical_pos_dom:
  "decodeValueCanonical_decodeItemsCanonical_decodeEntriesCanonical_dom (Inl (data, pos)) \<Longrightarrow>
     decodeValueCanonical data pos = Ok (v, p) \<Longrightarrow> pos < p"
  "decodeValueCanonical_decodeItemsCanonical_decodeEntriesCanonical_dom (Inr (Inl (data, n, pos))) \<Longrightarrow>
     decodeItemsCanonical data n pos = Ok (vs, p) \<Longrightarrow> pos + n \<le> p"
  "decodeValueCanonical_decodeItemsCanonical_decodeEntriesCanonical_dom
       (Inr (Inr (data, n, i, pos, acc))) \<Longrightarrow>
     decodeEntriesCanonical data n i pos acc = Ok (acc', p) \<Longrightarrow> pos + 2 * n \<le> p"
proof (induction data pos and data n pos and data n i pos acc
    arbitrary: v p and vs p and acc' p
    rule: decodeValueCanonical_decodeItemsCanonical_decodeEntriesCanonical.pinduct)
  case (1 data pos)
  from "1.prems" "1.hyps" obtain arg q where
    ra: "readArgCanonical data (pos + 1) (data ! pos AND 0x1f) = Ok (arg, q)"
    and len: "\<not> length data \<le> pos"
    and nb: "\<not> (data ! pos AND 0x1f = aiBreak \<and> (data ! pos AND 0xe0 = mtByteStr \<or>
      data ! pos AND 0xe0 = mtTextStr \<or> data ! pos AND 0xe0 = mtArray \<or> data ! pos AND 0xe0 = mtMap))"
    by (auto simp: decodeValueCanonical.psimps Let_def split: if_splits)
  note q = readArg_pos [OF readArgCanonical_readArg [OF ra]]
  note IH = "1.IH" [OF len refl refl refl nb ra refl]
  have I1: "q \<le> r"
    if "decodeItemsCanonical data (unat arg) q = Ok (vs, r)" "data ! pos AND 0xe0 = mtArray"
      "make_ok arg value_size" for vs r
    using that by (intro add_leD1 [of q "unat arg"] IH(1)) (auto simp: mt_defs)
  have I2: "q \<le> r"
    if "decodeEntriesCanonical data (unat arg) 0 q map_acc_init = Ok (acc', r)"
      "data ! pos AND 0xe0 = mtMap" for acc' r
    using that by (intro add_leD1 [of q "2 * unat arg"] IH(2)) (auto simp: mt_defs)
  from "1.prems" "1.hyps" ra q show ?case
    by (auto simp: decodeValueCanonical.psimps Let_def split: if_splits
        dest: I1 I2 takeStringCanonical_pos decodeNegative_pos decodeSimple_pos)
qed (auto simp: decodeItemsCanonical.psimps decodeEntriesCanonical.psimps, fastforce+)

lemma decodeCanonical_total:
  "All decodeValueCanonical_decodeItemsCanonical_decodeEntriesCanonical_dom"
  by (relation "measures
      [\<lambda>x. case x of Inl (d, p) \<Rightarrow> length d - p | Inr (Inl (d, n, p)) \<Rightarrow> length d - p
            | Inr (Inr (d, n, i, p, acc)) \<Rightarrow> length d - p,
       \<lambda>x. case x of Inl (d, p) \<Rightarrow> 0 | Inr (Inl (d, n, p)) \<Rightarrow> Suc n
            | Inr (Inr (d, n, i, p, acc)) \<Rightarrow> Suc n]")
    (auto dest!: readArgCanonical_readArg readArg_pos decodeCanonical_pos_dom)

termination decodeValueCanonical by (rule decodeCanonical_total)

declare decodeValueCanonical.simps [simp del]

lemmas decodeCanonical_pos = decodeCanonical_pos_dom [OF decodeCanonical_total [THEN spec]]

definition decodeCanonicalCheck :: "bytes \<Rightarrow> (cbor_error, cbor_value \<times> nat) outcome" where
  "decodeCanonicalCheck data = decodeValueCanonical data 0"

definition CheckCanonical :: "bytes \<Rightarrow> (cbor_error, unit) outcome" where
  "CheckCanonical data =
     obind (decodeCanonicalCheck data) (\<lambda>(v, consumed).
       if consumed \<noteq> length data then Err (TrailingBytes consumed (length data)) else Ok ())"

lemma decode_loop_numeral [go_eval]:
  "decodeItems data (numeral k) pos = obind (decodeValue data pos) (\<lambda>(v, p).
     obind (decodeItems data (pred_numeral k) p) (\<lambda>(vs, q). Ok (v # vs, q)))"
  "decodePairs data (numeral k) pos = obind (decodeValue data pos) (\<lambda>(v, p).
     obind (decodeValue data p) (\<lambda>(w, q).
       obind (decodePairs data (pred_numeral k) q) (\<lambda>(kvs, r). Ok ((v, w) # kvs, r))))"
  "decodeItemsCanonical data (numeral k) pos = obind (decodeValueCanonical data pos) (\<lambda>(v, p).
     obind (decodeItemsCanonical data (pred_numeral k) p) (\<lambda>(vs, q). Ok (v # vs, q)))"
  "decodeEntriesCanonical data (numeral k) i pos acc = obind (decodeValueCanonical data pos) (\<lambda>(v, p).
     obind (decodeValueCanonical data p) (\<lambda>(w, q).
       obind (addEntry i v w acc) (\<lambda>acc'.
         decodeEntriesCanonical data (pred_numeral k) (i + 1) q acc')))"
  by (simp_all only: numeral_eq_Suc decodeItems.simps decodePairs.simps decodeItemsCanonical.simps
      decodeEntriesCanonical.simps)

lemmas decode_eval [go_eval] = cbor_Decode_def decodeValue.simps readArg_def readArgCanonical_def
  checkedAdd_def max_int_def takeString_def decodeNegative_def decodeSimple_def value_size_def
  pair_size_def buildMap_def is_int_key_def is_str_key_def CheckCanonical_def
  decodeCanonicalCheck_def decodeValueCanonical.simps takeStringCanonical_def wrap_int_def
  map_acc_init_def addEntry_def finishMap_def v_int_def
  isValidUTF8_def

end
