(* ===== verification/Cbor_Head.thy ===== *)
theory Cbor_Head
  imports Cbor_Decode
begin

text \<open>
  The head of a CBOR item: the initial byte and its argument. Reading what \<open>encodeHead\<close> wrote
  gives the major type and the argument back, in the shortest form, so both argument readers
  accept it; every head is between 1 and 9 bytes long.
\<close>

lemma low5: "unat (a :: byte) < 32 \<Longrightarrow> a AND 0x1f = a" "unat (a :: byte) < 32 \<Longrightarrow> a AND 0xe0 = 0"
proof -
  assume a: "unat (a :: byte) < 32"
  have "take_bit 5 a = a"
    using a by (simp add: word_eq_iff_unsigned [where ?'a = nat] unsigned_take_bit_eq take_bit_nat_eq_self)
  then show *: "a AND 0x1f = a" by (simp add: take_bit_eq_mask mask_numeral)
  have "a AND 0xe0 = (a AND 0x1f) AND 0xe0" by (simp only: *)
  also have "\<dots> = a AND (0x1f AND 0xe0)" by (simp only: and.assoc)
  finally show "a AND 0xe0 = 0" by simp
qed

definition is_mt :: "byte \<Rightarrow> bool" where
  "is_mt mt \<longleftrightarrow> mt AND 0x1f = 0 \<and> mt AND 0xe0 = mt"

lemma is_mt_consts [simp]:
  "is_mt mtUnsigned" "is_mt mtNegative" "is_mt mtByteStr" "is_mt mtTextStr" "is_mt mtArray"
  "is_mt mtMap" "is_mt mtSimple"
  by (simp_all add: is_mt_def mt_defs)

lemma head_byte:
  "is_mt mt \<Longrightarrow> unat a < 32 \<Longrightarrow> (mt OR a) AND 0xe0 = mt \<and> (mt OR a) AND 0x1f = a"
  by (simp add: is_mt_def bit.conj_disj_distrib2 low5)

lemma ucast_small: "unat (v :: u64) < 2 ^ LENGTH('b) \<Longrightarrow> ucast (ucast v :: 'b::len word) = v"
  by (simp add: word_eq_iff_unsigned [where ?'a = nat] unsigned_ucast_eq
      unsigned_take_bit_eq take_bit_nat_eq_self)

lemma length_encodeHead: "1 \<le> length (encodeHead mt v)" "length (encodeHead mt v) \<le> 9"
  by (auto simp: encodeHead_def)

lemma encodeHead_neq_Nil [simp]: "encodeHead mt v \<noteq> []"
  by (auto simp: encodeHead_def)

lemma nth_drop_Cons: "drop pos data = x # xs \<Longrightarrow> pos < length data \<and> data ! pos = x \<and> drop (Suc pos) data = xs"
  by (metis Cons_nth_drop_Suc drop_all list.inject list.simps(3) not_less)

lemma drop_eq_append:
  assumes "drop pos data = xs @ rest" and "xs \<noteq> []"
  shows "pos + length xs \<le> length data" and "take (length xs) (drop pos data) = xs"
proof -
  have "length data - pos = length xs + length rest"
    using arg_cong [OF assms(1), of length] by simp
  moreover have "0 < length xs" using assms(2) by simp
  ultimately show "pos + length xs \<le> length data" by linarith
  show "take (length xs) (drop pos data) = xs" using assms(1) by simp
qed

text \<open>Each argument width reads back what was put, provided the value needs that width.\<close>

lemma readArgCanonical_imm: "unat v < 24 \<Longrightarrow> readArgCanonical data pos (ucast v) = Ok (v, pos)"
proof -
  assume v: "unat v < 24"
  then have "unat (ucast v :: byte) = unat v"
    by (simp add: unsigned_ucast_eq unsigned_take_bit_eq take_bit_nat_eq_self)
  with v show ?thesis
    using ucast_small [of v, where ?'b = 8] by (simp add: readArgCanonical_def word_le_nat_alt)
qed

lemma readArgCanonical_1:
  assumes "drop pos data = ucast v # rest" and "24 \<le> unat v" and "unat v \<le> 0xFF"
  shows "readArgCanonical data pos aiOneByte = Ok (v, pos + 1)"
  using nth_drop_Cons [OF assms(1)] ucast_small [of v, where ?'b = 8] assms(2,3)
  by (simp add: readArgCanonical_def ai_defs word_le_nat_alt)

lemma readArgCanonical_2:
  assumes "drop pos data = PutUint16 (ucast v) @ rest" and "0xFF < unat v" and "unat v \<le> 0xFFFF"
  shows "readArgCanonical data pos aiTwoBytes = Ok (v, pos + 2)"
proof -
  have "pos + 2 \<le> length data \<and> take 2 (drop pos data) = PutUint16 (ucast v)"
    using drop_eq_append [OF assms(1)] by (simp add: numeral_eq_Suc)
  with ucast_small [of v, where ?'b = 16] assms(2,3) show ?thesis
    by (simp add: readArgCanonical_def ai_defs word_le_nat_alt be_get_put)
qed

lemma readArgCanonical_4:
  assumes "drop pos data = PutUint32 (ucast v) @ rest" and "0xFFFF < unat v"
    and "unat v \<le> 0xFFFFFFFF"
  shows "readArgCanonical data pos aiFourBytes = Ok (v, pos + 4)"
proof -
  have "pos + 4 \<le> length data \<and> take 4 (drop pos data) = PutUint32 (ucast v)"
    using drop_eq_append [OF assms(1)] by (simp add: numeral_eq_Suc)
  with ucast_small [of v, where ?'b = 32] assms(2,3) show ?thesis
    by (simp add: readArgCanonical_def ai_defs word_le_nat_alt be_get_put)
qed

lemma readArgCanonical_8:
  assumes "drop pos data = PutUint64 v @ rest" and "0xFFFFFFFF < unat v"
  shows "readArgCanonical data pos aiEightBytes = Ok (v, pos + 8)"
proof -
  have "pos + 8 \<le> length data \<and> take 8 (drop pos data) = PutUint64 v"
    using drop_eq_append [OF assms(1)] by (simp add: numeral_eq_Suc)
  with assms(2) show ?thesis
    by (simp add: readArgCanonical_def ai_defs word_le_nat_alt be_get_put)
qed

text \<open>The five forms of a head.\<close>

lemma encodeHead_cases:
  obtains (imm) "unat v < 24" "encodeHead mt v = [mt OR ucast v]"
  | (one) "24 \<le> unat v" "unat v \<le> 0xFF" "encodeHead mt v = [mt OR aiOneByte, ucast v]"
  | (two) "0xFF < unat v" "unat v \<le> 0xFFFF"
      "encodeHead mt v = (mt OR aiTwoBytes) # PutUint16 (ucast v)"
  | (four) "0xFFFF < unat v" "unat v \<le> 0xFFFFFFFF"
      "encodeHead mt v = (mt OR aiFourBytes) # PutUint32 (ucast v)"
  | (eight) "0xFFFFFFFF < unat v" "encodeHead mt v = (mt OR aiEightBytes) # PutUint64 v"
proof -
  consider "unat v < 24" | "24 \<le> unat v" "unat v \<le> 0xFF" | "0xFF < unat v" "unat v \<le> 0xFFFF"
    | "0xFFFF < unat v" "unat v \<le> 0xFFFFFFFF" | "0xFFFFFFFF < unat v" by linarith
  then show thesis
    by cases (rule that; simp add: encodeHead_def word_less_nat_alt word_le_nat_alt; fail)+
qed

lemma readArgCanonical_encodeHead:
  assumes "drop pos data = encodeHead mt v @ rest" and "is_mt mt"
  shows "pos < length data \<and> data ! pos AND 0xe0 = mt \<and> data ! pos AND 0x1f \<noteq> aiBreak \<and>
    readArgCanonical data (Suc pos) (data ! pos AND 0x1f) = Ok (v, pos + length (encodeHead mt v))"
proof (cases rule: encodeHead_cases [where mt = mt and v = v])
  case imm
  have "unat (ucast v :: byte) = unat v"
    using imm by (simp add: unsigned_ucast_eq unsigned_take_bit_eq take_bit_nat_eq_self)
  with imm assms nth_drop_Cons [of pos data "mt OR ucast v" rest]
    head_byte [OF assms(2), of "ucast v"] readArgCanonical_imm
  show ?thesis by (auto simp: ai_defs)
next
  case one
  with assms nth_drop_Cons [of pos data "mt OR aiOneByte" "ucast v # rest"]
    head_byte [OF assms(2), of aiOneByte] readArgCanonical_1 [of "Suc pos" data v rest]
  show ?thesis by (simp add: ai_defs)
next
  case two
  with assms nth_drop_Cons [of pos data "mt OR aiTwoBytes" "PutUint16 (ucast v) @ rest"]
    head_byte [OF assms(2), of aiTwoBytes] readArgCanonical_2 [of "Suc pos" data v rest]
  show ?thesis by (simp add: ai_defs)
next
  case four
  with assms nth_drop_Cons [of pos data "mt OR aiFourBytes" "PutUint32 (ucast v) @ rest"]
    head_byte [OF assms(2), of aiFourBytes] readArgCanonical_4 [of "Suc pos" data v rest]
  show ?thesis by (simp add: ai_defs)
next
  case eight
  with assms nth_drop_Cons [of pos data "mt OR aiEightBytes" "PutUint64 v @ rest"]
    head_byte [OF assms(2), of aiEightBytes] readArgCanonical_8 [of "Suc pos" data v rest]
  show ?thesis by (simp add: ai_defs)
qed

end
