(* ===== verification/Cbor_Correct.thy ===== *)
theory Cbor_Correct
  imports Cbor_Head
begin

text \<open>
  Correctness of package \<open>cbor\<close>. The two decoders share a contract, the locale \<open>item_decoder\<close>:
  what a decoder returns at a position where the encoder's output for one item stands, the items
  of a container being given by the decoder itself. The round trip is proved once from the
  contract; the lenient and the canonical decoder are its two interpretations.
\<close>

section \<open>Values the encoder is used on, and what a decoder returns for them\<close>

text \<open>
  Inputs up to a tebibyte: far above the frame limit of the protocol, far below the sizes where
  allocation or the \<open>int\<close> arithmetic of positions could fail.
\<close>

definition small_input :: "bytes \<Rightarrow> bool" where
  "small_input data \<longleftrightarrow> length data \<le> 2 ^ 40"

text \<open>The sorted form of a map, and the ambiguity of the empty map (it decodes to an \<open>IMap\<close>).\<close>

primrec canon :: "cbor_value \<Rightarrow> cbor_value" where
  "canon (UUint n) = UUint n"
| "canon (NegV n) = NegV n"
| "canon (BStr b) = BStr b"
| "canon (TStr s) = TStr s"
| "canon (Arr vs) = Arr (map canon vs)"
| "canon (IMap es) = IMap (sortIntMapEntries (map (map_prod id canon) es))"
| "canon (SMap es) =
     (if es = [] then IMap [] else SMap (sortStrMapEntries (map (map_prod id canon) es)))"
| "canon (BoolV b) = BoolV b"
| "canon NullV = NullV"

text \<open>
  \<open>value_ok\<close>: a negative integer is negative, and the text strings and the key lists of the maps
  satisfy what the decoder at hand asks of them.
\<close>

fun value_ok ::
  "(gostring \<Rightarrow> bool) \<Rightarrow> (i64 list \<Rightarrow> bool) \<Rightarrow> (gostring list \<Rightarrow> bool) \<Rightarrow> cbor_value \<Rightarrow> bool" where
  "value_ok tok ki ks (NegV n) \<longleftrightarrow> int_of_u64 n < 0"
| "value_ok tok ki ks (TStr s) \<longleftrightarrow> tok s"
| "value_ok tok ki ks (Arr vs) \<longleftrightarrow> (\<forall>v \<in> set vs. value_ok tok ki ks v)"
| "value_ok tok ki ks (IMap es) \<longleftrightarrow>
     ki (map fst es) \<and> (\<forall>e \<in> set es. value_ok tok ki ks (snd e))"
| "value_ok tok ki ks (SMap es) \<longleftrightarrow>
     ks (map fst es) \<and> (\<forall>e \<in> set es. tok (fst e) \<and> value_ok tok ki ks (snd e))"
| "value_ok tok ki ks _ \<longleftrightarrow> True"

abbreviation wf_value :: "cbor_value \<Rightarrow> bool" where
  "wf_value \<equiv> value_ok (\<lambda>_. True) (\<lambda>_. True) (\<lambda>_. True)"

abbreviation strict_value :: "cbor_value \<Rightarrow> bool" where
  "strict_value \<equiv> value_ok isValidUTF8 distinct distinct"

section \<open>Keys\<close>

lemma encodeIntKey_eq: "encodeValue (NInt n) = encodeIntKey n"
  by (simp add: NInt_def encodeIntKey_def)

lemma value_ok_NInt [simp]: "value_ok tok ki ks (NInt n)"
  by (simp add: NInt_def)

lemma canon_NInt [simp]: "canon (NInt n) = NInt n"
  by (simp add: NInt_def)

lemma v_int_NInt [simp]: "v_int (NInt n) = n"
  by (simp add: NInt_def v_int_def)

lemma is_int_key_NInt [simp]: "is_int_key (NInt n)"
  by (simp add: NInt_def is_int_key_def)

lemma NInt_eq_iff [simp]: "NInt m = NInt n \<longleftrightarrow> m = n"
  by (auto simp: NInt_def split: if_splits)

lemma sortInt_map:
  "sortIntMapEntries (map (map_prod id f) es) = map (map_prod id f) (sortIntMapEntries es)"
  unfolding sortIntMapEntries_def
  using map_SliceStable [of "map_prod id f" "\<lambda>a b. compareIntKeys (fst a) (fst b) < 0" es] by simp

lemma sortStr_map:
  "sortStrMapEntries (map (map_prod id f) es) = map (map_prod id f) (sortStrMapEntries es)"
  unfolding sortStrMapEntries_def
  using map_SliceStable [of "map_prod id f" "\<lambda>a b. str_key_less (fst a) (fst b)" es] by simp

lemma length_sort [simp]:
  "length (sortIntMapEntries es) = length es" "length (sortStrMapEntries fs) = length fs"
  by (simp_all add: sortIntMapEntries_def sortStrMapEntries_def)

lemma sortStr_Nil_iff [simp]: "sortStrMapEntries es = [] \<longleftrightarrow> es = []"
  by (metis length_0_conv length_sort(2))

lemma mset_sort [simp]:
  "mset (sortIntMapEntries es) = mset es" "mset (sortStrMapEntries fs) = mset fs"
  by (simp_all add: sortIntMapEntries_def sortStrMapEntries_def)

section \<open>The contract of a decoder\<close>

text \<open>\<open>chain dv data p vs q\<close>: decoding one item after another from \<open>p\<close> gives \<open>vs\<close> and ends at \<open>q\<close>.\<close>

fun chain ::
  "(bytes \<Rightarrow> nat \<Rightarrow> ('e, 'v \<times> nat) outcome) \<Rightarrow> bytes \<Rightarrow> nat \<Rightarrow> 'v list \<Rightarrow> nat \<Rightarrow> bool" where
  "chain dv data p [] q \<longleftrightarrow> p = q"
| "chain dv data p (v # vs) q \<longleftrightarrow> (\<exists>r. dv data p = Ok (v, r) \<and> chain dv data r vs q)"

lemma chain_append:
  "chain dv data p (us @ vs) q \<longleftrightarrow> (\<exists>r. chain dv data p us r \<and> chain dv data r vs q)"
  by (induction us arbitrary: p) auto

definition flat_int :: "(i64 \<times> cbor_value) list \<Rightarrow> cbor_value list" where
  "flat_int es = concat (map (\<lambda>(k, v). [NInt k, v]) es)"

definition flat_str :: "(gostring \<times> cbor_value) list \<Rightarrow> cbor_value list" where
  "flat_str es = concat (map (\<lambda>(k, v). [TStr k, v]) es)"

lemma set_flat:
  "v \<in> set (flat_int es) \<longleftrightarrow> (\<exists>e \<in> set es. v = NInt (fst e) \<or> v = snd e)"
  "v \<in> set (flat_str fs) \<longleftrightarrow> (\<exists>e \<in> set fs. v = TStr (fst e) \<or> v = snd e)"
  by (force simp: flat_int_def flat_str_def)+

lemma encode_flat:
  "concat (map (\<lambda>(k, v). encodeValue (NInt k) @ encodeValue v) es)
   = concat (map encodeValue (flat_int es))"
  "concat (map (\<lambda>(k, v). encodeHead mtTextStr (of_nat (length k)) @ k @ encodeValue v) fs)
   = concat (map encodeValue (flat_str fs))"
  by (induction es, auto simp: flat_int_def) (induction fs, auto simp: flat_str_def)

lemma canon_flat:
  "map canon (flat_int es) = flat_int (map (map_prod id canon) es)"
  "map canon (flat_str fs) = flat_str (map (map_prod id canon) fs)"
  by (induction es, auto simp: flat_int_def) (induction fs, auto simp: flat_str_def)

lemma snd_in_snds: "snd e \<in> Basic_BNFs.snds e"
  by (cases e) (simp add: prod_set_simps)

lemma drop_append_split:
  "drop pos data = xs @ ys \<Longrightarrow> drop (pos + length xs) data = ys"
  by (metis add.commute append_eq_conv_conj drop_drop)

lemma drop_append_length:
  "drop pos data = xs @ ys \<Longrightarrow> xs \<noteq> [] \<Longrightarrow> pos + length xs \<le> length data"
  by (rule drop_eq_append(1))

locale item_decoder =
  fixes dv :: "bytes \<Rightarrow> nat \<Rightarrow> (cbor_error, cbor_value \<times> nat) outcome"
    and tok :: "gostring \<Rightarrow> bool"
    and ki :: "i64 list \<Rightarrow> bool"
    and ks :: "gostring list \<Rightarrow> bool"
  assumes dv_unsigned:
      "drop pos data = encodeHead mtUnsigned n @ rest \<Longrightarrow>
       dv data pos = Ok (UUint n, pos + length (encodeHead mtUnsigned n))"
    and dv_negative:
      "drop pos data = encodeHead mtNegative (- n - 1) @ rest \<Longrightarrow> int_of_u64 n < 0 \<Longrightarrow>
       dv data pos = Ok (NegV n, pos + length (encodeHead mtNegative (- n - 1)))"
    and dv_bytes:
      "drop pos data = encodeHead mtByteStr (of_nat (length b)) @ b @ rest \<Longrightarrow> small_input data \<Longrightarrow>
       dv data pos = Ok (BStr b, pos + length (encodeHead mtByteStr (of_nat (length b))) + length b)"
    and dv_text:
      "drop pos data = encodeHead mtTextStr (of_nat (length b)) @ b @ rest \<Longrightarrow> small_input data \<Longrightarrow>
       tok b \<Longrightarrow>
       dv data pos = Ok (TStr b, pos + length (encodeHead mtTextStr (of_nat (length b))) + length b)"
    and dv_array:
      "drop pos data = encodeHead mtArray (of_nat (length vs)) @ rest \<Longrightarrow> small_input data \<Longrightarrow>
       chain dv data (pos + length (encodeHead mtArray (of_nat (length vs)))) vs q \<Longrightarrow>
       q \<le> length data \<Longrightarrow> dv data pos = Ok (Arr vs, q)"
    and dv_int_map:
      "drop pos data = encodeHead mtMap (of_nat (length es)) @ rest \<Longrightarrow> small_input data \<Longrightarrow>
       chain dv data (pos + length (encodeHead mtMap (of_nat (length es)))) (flat_int es) q \<Longrightarrow>
       q \<le> length data \<Longrightarrow> ki (map fst es) \<Longrightarrow> dv data pos = Ok (IMap es, q)"
    and dv_str_map:
      "drop pos data = encodeHead mtMap (of_nat (length fs)) @ rest \<Longrightarrow> small_input data \<Longrightarrow>
       chain dv data (pos + length (encodeHead mtMap (of_nat (length fs)))) (flat_str fs) q \<Longrightarrow>
       q \<le> length data \<Longrightarrow> fs \<noteq> [] \<Longrightarrow> ks (map fst fs) \<Longrightarrow> dv data pos = Ok (SMap fs, q)"
    and dv_bool:
      "drop pos data = (if t then mtSimple OR simpleTrue else mtSimple OR simpleFalse) # rest \<Longrightarrow>
       dv data pos = Ok (BoolV t, pos + 1)"
    and dv_null:
      "drop pos data = (mtSimple OR simpleNull) # rest \<Longrightarrow> dv data pos = Ok (NullV, pos + 1)"
    and ki_perm: "ki xs \<Longrightarrow> mset xs = mset ys \<Longrightarrow> ki ys"
    and ks_perm: "ks us \<Longrightarrow> mset us = mset ws \<Longrightarrow> ks ws"
    and ki_Nil: "ki []"
begin

definition decodes :: "bytes \<Rightarrow> cbor_value \<Rightarrow> bool" where
  "decodes data v \<longleftrightarrow>
     (\<forall>pos rest. drop pos data = encodeValue v @ rest \<longrightarrow>
        dv data pos = Ok (canon v, pos + length (encodeValue v)))"

lemma chain_decodes:
  "\<forall>v \<in> set vs. decodes data v \<Longrightarrow> drop pos data = concat (map encodeValue vs) @ rest \<Longrightarrow>
   chain dv data pos (map canon vs) (pos + length (concat (map encodeValue vs)))"
proof (induction vs arbitrary: pos)
  case (Cons v vs)
  let ?r = "pos + length (encodeValue v)"
  have "drop ?r data = concat (map encodeValue vs) @ rest"
    using Cons.prems(2) by (intro drop_append_split) simp
  with Cons.IH Cons.prems(1) have
    "chain dv data ?r (map canon vs) (?r + length (concat (map encodeValue vs)))" by simp
  moreover have "dv data pos = Ok (canon v, ?r)"
    using Cons.prems by (simp add: decodes_def)
  ultimately show ?case by (simp add: add.assoc)
qed simp

text \<open>A container: its head, then its items.\<close>

lemma chain_container:
  assumes "drop pos data = encodeHead mt n @ concat (map encodeValue vs) @ rest"
    and "\<forall>v \<in> set vs. decodes data v"
  shows "chain dv data (pos + length (encodeHead mt n)) (map canon vs)
           (pos + length (encodeHead mt n @ concat (map encodeValue vs)))"
    and "pos + length (encodeHead mt n @ concat (map encodeValue vs)) \<le> length data"
proof -
  have "drop (pos + length (encodeHead mt n)) data = concat (map encodeValue vs) @ rest"
    using assms(1) by (rule drop_append_split)
  from chain_decodes [OF assms(2) this]
  show "chain dv data (pos + length (encodeHead mt n)) (map canon vs)
           (pos + length (encodeHead mt n @ concat (map encodeValue vs)))"
    by (simp add: add.assoc)
  show "pos + length (encodeHead mt n @ concat (map encodeValue vs)) \<le> length data"
    using assms(1) by (intro drop_append_length [of _ _ _ rest]) simp_all
qed

lemma decodes_NInt: "decodes data (NInt n)"
  using dv_unsigned dv_negative
  by (auto simp: decodes_def NInt_def not_le)

lemma decodes_TStr: "tok s \<Longrightarrow> small_input data \<Longrightarrow> decodes data (TStr s)"
  using dv_text by (simp add: decodes_def add.assoc)

lemma decodes_Arr:
  assumes all: "\<forall>v \<in> set vs. decodes data v" and small: "small_input data"
  shows "decodes data (Arr vs)"
  unfolding decodes_def
proof (intro allI impI)
  fix pos rest
  assume "drop pos data = encodeValue (Arr vs) @ rest"
  then have d: "drop pos data =
    encodeHead mtArray (of_nat (length vs)) @ concat (map encodeValue vs) @ rest" by simp
  show "dv data pos = Ok (canon (Arr vs), pos + length (encodeValue (Arr vs)))"
    using dv_array [of pos data "map canon vs"] d chain_container [OF d all] small by simp
qed

lemma decodes_IMap:
  assumes vals: "\<forall>e \<in> set es. decodes data (snd e)" and keys: "ki (map fst es)" and small: "small_input data"
  shows "decodes data (IMap es)"
  unfolding decodes_def
proof (intro allI impI)
  let ?S = "sortIntMapEntries es"
  have all: "\<forall>v \<in> set (flat_int ?S). decodes data v" using vals by (auto simp: set_flat decodes_NInt)
  have sorted_keys: "ki (map fst ?S)" using ki_perm [of "map fst es" "map fst ?S"] keys by simp
  fix pos rest
  assume "drop pos data = encodeValue (IMap es) @ rest"
  then have d: "drop pos data =
    encodeHead mtMap (of_nat (length es)) @ concat (map encodeValue (flat_int ?S)) @ rest"
    by (simp add: Let_def encode_flat)
  show "dv data pos = Ok (canon (IMap es), pos + length (encodeValue (IMap es)))"
    using dv_int_map [of pos data "map (map_prod id canon) ?S"] d chain_container [OF d all] small sorted_keys
    by (simp add: canon_flat sortInt_map Let_def encode_flat)
qed

lemma decodes_SMap:
  assumes vals: "\<forall>e \<in> set es. tok (fst e) \<and> decodes data (snd e)" and keys: "ks (map fst es)"
    and small: "small_input data"
  shows "decodes data (SMap es)"
  unfolding decodes_def
proof (intro allI impI)
  let ?S = "sortStrMapEntries es"
  have all: "\<forall>v \<in> set (flat_str ?S). decodes data v"
    using vals small by (auto simp: set_flat intro!: decodes_TStr)
  have sorted_keys: "ks (map fst ?S)" using ks_perm [of "map fst es" "map fst ?S"] keys by simp
  fix pos rest
  assume "drop pos data = encodeValue (SMap es) @ rest"
  then have d: "drop pos data =
    encodeHead mtMap (of_nat (length es)) @ concat (map encodeValue (flat_str ?S)) @ rest"
    by (simp add: Let_def encode_flat)
  show "dv data pos = Ok (canon (SMap es), pos + length (encodeValue (SMap es)))"
  proof (cases "es = []")
    case True
    with dv_int_map [of pos data "[]" rest] d chain_container(2) [OF d all] small ki_Nil
    show ?thesis by (simp add: Let_def flat_int_def flat_str_def sortStrMapEntries_def)
  next
    case False
    with dv_str_map [of pos data "map (map_prod id canon) ?S"] d chain_container [OF d all] small sorted_keys
    show ?thesis by (simp add: canon_flat sortStr_map Let_def encode_flat)
  qed
qed

lemma decodes_value:
  "value_ok tok ki ks v \<Longrightarrow> small_input data \<Longrightarrow> decodes data v"
proof (induction v)
  case (Arr vs)
  then show ?case by (intro decodes_Arr) auto
next
  case (IMap es)
  with IMap.IH [OF _ snd_in_snds] show ?case by (intro decodes_IMap) auto
next
  case (SMap es)
  with SMap.IH [OF _ snd_in_snds] show ?case by (intro decodes_SMap) auto
qed (auto simp: decodes_def add.assoc dv_unsigned dv_negative dv_bytes dv_text dv_bool dv_null)

end

section \<open>Both decoders satisfy the contract\<close>

lemma small_word:
  "small_input data \<Longrightarrow> n \<le> length data \<Longrightarrow>
   unat (of_nat n :: u64) = n \<and> int_of_u64 (of_nat n) = int n"
proof -
  assume "small_input data" "n \<le> length data"
  then have "n \<le> 2 ^ 40" by (simp add: small_input_def)
  then have "unat (of_nat n :: u64) = n" by (intro unat_of_nat_u64) (simp add: order_le_less_trans)
  with \<open>n \<le> 2 ^ 40\<close> show ?thesis by (simp add: int_of_u64_def)
qed

lemma take_strings:
  assumes "small_input data" and "p + n \<le> length data"
  shows "takeString data p (of_nat n) e = Ok (take n (drop p data), p + n)"
    and "takeStringCanonical data p (of_nat n) e = Ok (take n (drop p data), p + n)"
proof -
  have n: "int_of_u64 (of_nat n) = int n" using small_word [OF assms(1), of n] assms(2) by simp
  have len: "length data \<le> 2 ^ 40" using assms(1) by (simp add: small_input_def)
  have slice: "go_slice data (int p) (int p + int n) = Ok (take n (drop p data))"
    using go_slice_nat [of p "p + n" data] assms(2) by simp
  have "wrap_int (int p + int n) = int p + int n"
    using assms(2) len by (intro wrap_int_id) auto
  with n slice assms(2) len
  show "takeString data p (of_nat n) e = Ok (take n (drop p data), p + n)"
    and "takeStringCanonical data p (of_nat n) e = Ok (take n (drop p data), p + n)"
    by (auto simp: takeString_def takeStringCanonical_def checkedAdd_def max_int_def nat_int_add)
qed

lemma string_item:
  assumes "drop pos data = encodeHead mt (of_nat (length b)) @ b @ rest"
  shows "pos + length (encodeHead mt (of_nat (length b))) + length b \<le> length data"
    and "take (length b) (drop (pos + length (encodeHead mt (of_nat (length b)))) data) = b"
proof -
  have "drop pos data = (encodeHead mt (of_nat (length b)) @ b) @ rest" using assms by simp
  from drop_append_length [OF this]
  show "pos + length (encodeHead mt (of_nat (length b))) + length b \<le> length data"
    by (simp add: add.assoc)
  show "take (length b) (drop (pos + length (encodeHead mt (of_nat (length b)))) data) = b"
    using drop_append_split [OF assms] by simp
qed

lemma negative_arg:
  assumes "int_of_u64 n < 0"
  shows "\<not> 2 ^ 63 - 1 < (- n - 1 :: u64)" and "NInt (- (- n - 1) - 1) = NegV n"
proof -
  have n: "2 ^ 63 \<le> unat n" using assms int_of_u64_nonneg_iff [of n] by linarith
  have "unat (- 1 - n) = unat (- 1 :: u64) - unat n" by (rule unat_sub) simp
  also have "unat (- 1 :: u64) = 2 ^ 64 - 1" by (simp add: unsigned_minus_1_eq_mask mask_eq_exp_minus_1)
  also have "- 1 - n = - n - 1" by simp
  finally have "unat (- n - 1) \<le> 2 ^ 63 - 1" using n by simp
  then show "\<not> 2 ^ 63 - 1 < (- n - 1 :: u64)" by (simp add: word_less_nat_alt)
  show "NInt (- (- n - 1) - 1) = NegV n" using assms by (simp add: NInt_def)
qed

lemma chain_items: "chain decodeValue data p vs q \<Longrightarrow> decodeItems data (length vs) p = Ok (vs, q)"
  by (induction vs arbitrary: p) auto

lemma chain_pairs_int:
  "chain decodeValue data p (flat_int es) q \<Longrightarrow>
   decodePairs data (length es) p = Ok (map (\<lambda>(k, v). (NInt k, v)) es, q)"
  by (induction es arbitrary: p) (auto simp: flat_int_def)

lemma chain_pairs_str:
  "chain decodeValue data p (flat_str es) q \<Longrightarrow>
   decodePairs data (length es) p = Ok (map (\<lambda>(k, v). (TStr k, v)) es, q)"
  by (induction es arbitrary: p) (auto simp: flat_str_def)

lemma buildMap_int: "buildMap (map (\<lambda>(k, v). (NInt k, v)) es) = Ok (IMap es)"
  by (simp add: buildMap_def list_all_iff split_beta comp_def)

lemma buildMap_str: "es \<noteq> [] \<Longrightarrow> buildMap (map (\<lambda>(k, v). (TStr k, v)) es) = Ok (SMap es)"
  by (cases es)
    (auto simp: buildMap_def list_all_iff split_beta comp_def is_int_key_def is_str_key_def)

lemma small_make: "small_input data \<Longrightarrow> n \<le> length data \<Longrightarrow>
   make_ok (of_nat n) value_size \<and> make_ok (of_nat n) pair_size"
  using small_word [of data n]
  by (auto simp: make_ok_def value_size_def pair_size_def small_input_def)

lemma decodeValue_simple:
  "drop pos data = ib # rest \<Longrightarrow> ib AND 0xe0 = mtSimple \<Longrightarrow> ib AND 0x1f \<le> 23 \<Longrightarrow>
   decodeValue data pos = decodeSimple (ib AND 0x1f) (pos + 1) \<and>
   decodeValueCanonical data pos = decodeSimple (ib AND 0x1f) (pos + 1)"
  using nth_drop_Cons [of pos data ib rest]
  by (auto simp: decodeValue.simps [of data pos] decodeValueCanonical.simps [of data pos]
      Let_def readArg_def readArgCanonical_def mt_defs)

lemma simple_bytes:
  "(mtSimple OR simpleTrue) AND 0xe0 = mtSimple" "(mtSimple OR simpleTrue) AND 0x1f = simpleTrue"
  "(mtSimple OR simpleFalse) AND 0xe0 = mtSimple" "(mtSimple OR simpleFalse) AND 0x1f = simpleFalse"
  "(mtSimple OR simpleNull) AND 0xe0 = mtSimple" "(mtSimple OR simpleNull) AND 0x1f = simpleNull"
  by (simp_all add: mt_defs simple_defs)

lemma decode_simple_items:
  "drop pos data = (if t then mtSimple OR simpleTrue else mtSimple OR simpleFalse) # rest \<Longrightarrow>
   decodeValue data pos = Ok (BoolV t, pos + 1) \<and>
   decodeValueCanonical data pos = Ok (BoolV t, pos + 1)"
  "drop pos data = (mtSimple OR simpleNull) # rest \<Longrightarrow>
   decodeValue data pos = Ok (NullV, pos + 1) \<and> decodeValueCanonical data pos = Ok (NullV, pos + 1)"
  by (cases t; drule decodeValue_simple; simp add: simple_bytes decodeSimple_def; simp add: simple_defs)
    (drule decodeValue_simple; simp add: simple_bytes decodeSimple_def; simp add: simple_defs)

text \<open>The decoders at a head: the argument is known and the major type selects the case.\<close>

lemma decodeValue_at:
  assumes "drop pos data = encodeHead mt v @ rest" and "is_mt mt"
  shows "\<not> length data \<le> pos" and "data ! pos AND 0xe0 = mt"
    and "readArg data (pos + 1) (data ! pos AND 0x1f) = Ok (v, pos + length (encodeHead mt v))"
    and "readArgCanonical data (pos + 1) (data ! pos AND 0x1f)
         = Ok (v, pos + length (encodeHead mt v))"
    and "data ! pos AND 0x1f \<noteq> aiBreak"
  using readArgCanonical_encodeHead [OF assms] readArgCanonical_readArg by auto

interpretation lenient: item_decoder decodeValue "\<lambda>_. True" "\<lambda>_. True" "\<lambda>_. True"
proof (unfold_locales, goal_cases)
  case (1 pos data n rest)
  from decodeValue_at [OF 1 is_mt_consts(1)] show ?case by (simp add: decodeValue.simps [of data pos] Let_def mt_defs)
next
  case (2 pos data n rest)
  from decodeValue_at [OF 2(1) is_mt_consts(2)] negative_arg [OF 2(2)] show ?case
    by (simp add: decodeValue.simps [of data pos] Let_def mt_defs decodeNegative_def)
next
  case (3 pos data b rest)
  from decodeValue_at [OF 3(1) is_mt_consts(3)] string_item [OF 3(1)] take_strings [OF 3(2)] show ?case
    by (simp add: decodeValue.simps [of data pos] Let_def mt_defs)
next
  case (4 pos data b rest)
  from decodeValue_at [OF 4(1) is_mt_consts(4)] string_item [OF 4(1)] take_strings [OF 4(2)] show ?case
    by (simp add: decodeValue.simps [of data pos] Let_def mt_defs)
next
  case (5 pos data vs rest q)
  let ?p = "pos + length (encodeHead mtArray (of_nat (length vs)))"
  have items: "decodeItems data (length vs) ?p = Ok (vs, q)" by (rule chain_items [OF 5(3)])
  with decode_pos(2) 5(4) have n: "?p + length vs \<le> length data" by fastforce
  have w: "unat (of_nat (length vs) :: u64) = length vs"
    "int_of_u64 (of_nat (length vs)) = int (length vs)" "make_ok (of_nat (length vs)) value_size"
    using small_word [OF 5(2), of "length vs"] small_make [OF 5(2), of "length vs"] n by auto
  from decodeValue_at [OF 5(1) is_mt_consts(5)] w items n show ?case
    by (simp add: decodeValue.simps [of data pos] Let_def mt_defs)
next
  case (6 pos data es rest q)
  let ?p = "pos + length (encodeHead mtMap (of_nat (length es)))"
  note pairs = chain_pairs_int [OF 6(3)]
  with decode_pos(3) 6(4) have n: "?p + length es \<le> length data" by fastforce
  have w: "unat (of_nat (length es) :: u64) = length es"
    "int_of_u64 (of_nat (length es)) = int (length es)" "make_ok (of_nat (length es)) pair_size"
    using small_word [OF 6(2), of "length es"] small_make [OF 6(2), of "length es"] n by auto
  from decodeValue_at [OF 6(1) is_mt_consts(6)] w pairs n show ?case
    by (simp add: decodeValue.simps [of data pos] Let_def mt_defs buildMap_int)
next
  case (7 pos data fs rest q)
  let ?p = "pos + length (encodeHead mtMap (of_nat (length fs)))"
  note pairs = chain_pairs_str [OF 7(3)]
  with decode_pos(3) 7(4) have n: "?p + length fs \<le> length data" by fastforce
  have w: "unat (of_nat (length fs) :: u64) = length fs"
    "int_of_u64 (of_nat (length fs)) = int (length fs)" "make_ok (of_nat (length fs)) pair_size"
    using small_word [OF 7(2), of "length fs"] small_make [OF 7(2), of "length fs"] n by auto
  from decodeValue_at [OF 7(1) is_mt_consts(6)] w pairs n 7(5) show ?case
    by (simp add: decodeValue.simps [of data pos] Let_def mt_defs buildMap_str)
qed (use decode_simple_items in auto)

lemma chain_items_canonical:
  "chain decodeValueCanonical data p vs q \<Longrightarrow> decodeItemsCanonical data (length vs) p = Ok (vs, q)"
  by (induction vs arbitrary: p) auto

lemma addEntry_int:
  "k \<notin> fst ` set (intEntries acc) \<Longrightarrow>
   addEntry i (NInt k) v acc = Ok (acc\<lparr>intEntries := intEntries acc @ [(k, v)]\<rparr>)"
  by (auto simp: addEntry_def NInt_def list_ex_iff)

lemma addEntry_str:
  "k \<notin> fst ` set (strEntries acc) \<Longrightarrow>
   addEntry i (TStr k) v acc = Ok (acc\<lparr>strEntries := strEntries acc @ [(k, v)]\<rparr>)"
  by (auto simp: addEntry_def list_ex_iff)

lemma chain_entries_int:
  "chain decodeValueCanonical data p (flat_int es) q \<Longrightarrow>
   distinct (map fst es) \<Longrightarrow> fst ` set es \<inter> fst ` set (intEntries acc) = {} \<Longrightarrow>
   decodeEntriesCanonical data (length es) i p acc
   = Ok (acc\<lparr>intEntries := intEntries acc @ es\<rparr>, q)"
proof (induction es arbitrary: p acc i)
  case (Cons e es)
  then show ?case by (cases e) (auto simp: flat_int_def addEntry_int)
qed (simp add: flat_int_def)

lemma chain_entries_str:
  "chain decodeValueCanonical data p (flat_str es) q \<Longrightarrow>
   distinct (map fst es) \<Longrightarrow> fst ` set es \<inter> fst ` set (strEntries acc) = {} \<Longrightarrow>
   decodeEntriesCanonical data (length es) i p acc
   = Ok (acc\<lparr>strEntries := strEntries acc @ es\<rparr>, q)"
proof (induction es arbitrary: p acc i)
  case (Cons e es)
  then show ?case by (cases e) (auto simp: flat_str_def addEntry_str)
qed (simp add: flat_str_def)

interpretation canonical: item_decoder decodeValueCanonical isValidUTF8 distinct distinct
proof (unfold_locales, goal_cases)
  case (1 pos data n rest)
  from decodeValue_at [OF 1 is_mt_consts(1)] show ?case
    by (simp add: decodeValueCanonical.simps [of data pos] Let_def mt_defs)
next
  case (2 pos data n rest)
  from decodeValue_at [OF 2(1) is_mt_consts(2)] negative_arg [OF 2(2)] show ?case
    by (simp add: decodeValueCanonical.simps [of data pos] Let_def mt_defs decodeNegative_def)
next
  case (3 pos data b rest)
  from decodeValue_at [OF 3(1) is_mt_consts(3)] string_item [OF 3(1)] take_strings [OF 3(2)]
  show ?case by (simp add: decodeValueCanonical.simps [of data pos] Let_def mt_defs)
next
  case (4 pos data b rest)
  from decodeValue_at [OF 4(1) is_mt_consts(4)] string_item [OF 4(1)] take_strings [OF 4(2)] 4(3)
  show ?case by (simp add: decodeValueCanonical.simps [of data pos] Let_def mt_defs)
next
  case (5 pos data vs rest q)
  note items = chain_items_canonical [OF 5(3)]
  with decodeCanonical_pos(2) 5(4) have "length vs \<le> length data" by fastforce
  then have w: "unat (of_nat (length vs) :: u64) = length vs"
    "make_ok (of_nat (length vs)) value_size"
    using small_word [OF 5(2), of "length vs"] small_make [OF 5(2), of "length vs"] by auto
  from decodeValue_at [OF 5(1) is_mt_consts(5)] w items show ?case
    by (simp add: decodeValueCanonical.simps [of data pos] Let_def mt_defs)
next
  case (6 pos data es rest q)
  note entries = chain_entries_int [OF 6(3) 6(5), of map_acc_init 0]
  then have e: "decodeEntriesCanonical data (length es) 0
      (pos + length (encodeHead mtMap (of_nat (length es)))) map_acc_init
    = Ok (map_acc_init\<lparr>intEntries := es\<rparr>, q)" by (simp add: map_acc_init_def)
  with decodeCanonical_pos(3) 6(4) have "length es \<le> length data" by fastforce
  then have w: "unat (of_nat (length es) :: u64) = length es"
    using small_word [OF 6(2), of "length es"] by auto
  from decodeValue_at [OF 6(1) is_mt_consts(6)] w e show ?case
    by (simp add: decodeValueCanonical.simps [of data pos] Let_def mt_defs finishMap_def
        map_acc_init_def)
next
  case (7 pos data fs rest q)
  note entries = chain_entries_str [OF 7(3) 7(6), of map_acc_init 0]
  then have e: "decodeEntriesCanonical data (length fs) 0
      (pos + length (encodeHead mtMap (of_nat (length fs)))) map_acc_init
    = Ok (map_acc_init\<lparr>strEntries := fs\<rparr>, q)" by (simp add: map_acc_init_def)
  with decodeCanonical_pos(3) 7(4) have "length fs \<le> length data" by fastforce
  then have w: "unat (of_nat (length fs) :: u64) = length fs"
    using small_word [OF 7(2), of "length fs"] by auto
  from decodeValue_at [OF 7(1) is_mt_consts(6)] w e 7(5) show ?case
    by (simp add: decodeValueCanonical.simps [of data pos] Let_def mt_defs finishMap_def
        map_acc_init_def)
next
  case (10 xs ys)
  then show ?case using mset_eq_imp_distinct_iff by blast
next
  case (11 us ws)
  then show ?case using mset_eq_imp_distinct_iff by blast
qed (use decode_simple_items in auto)

end
