(* ===== verification/Cbor_Theorems.thy ===== *)
theory Cbor_Theorems
  imports Cbor_Correct
begin

text \<open>
  The properties of package \<open>cbor\<close>: round trips of both decoders, that the canonical decoder
  refines the lenient one, that the encoding depends only on the value a map denotes and not on
  the order of its entries, that the encoder is injective up to that order, and where the code
  departs from its comments (the order of integer keys, \<open>isValidUTF8\<close>, panics on hostile input).
\<close>

section \<open>The canonical decoder accepts less, with the same results\<close>

text \<open>What the map loop of the canonical decoder has accumulated after the pairs \<open>kvs\<close>.\<close>

definition acc_after :: "map_acc \<Rightarrow> (cbor_value \<times> cbor_value) list \<Rightarrow> map_acc" where
  "acc_after acc kvs =
     \<lparr>intEntries = intEntries acc @ map (\<lambda>(k, v). (v_int k, v)) (filter (is_int_key \<circ> fst) kvs),
      strEntries = strEntries acc @ map (\<lambda>(k, v). (v_str k, v)) (filter (is_str_key \<circ> fst) kvs),
      allInt = (allInt acc \<and> (\<forall>kv \<in> set kvs. is_int_key (fst kv) \<or> is_str_key (fst kv))),
      allStr = (allStr acc \<and> (\<forall>kv \<in> set kvs. is_int_key (fst kv) \<or> is_str_key (fst kv)))\<rparr>"

lemma addEntry_acc_after:
  "addEntry i k v acc = Ok acc' \<Longrightarrow> acc_after acc' kvs = acc_after acc ((k, v) # kvs)"
  by (cases k) (auto simp: addEntry_def acc_after_def is_int_key_def is_str_key_def v_int_def
      Let_def split: if_splits)

lemma finishMap_buildMap:
  "finishMap (acc_after map_acc_init kvs) = Ok m \<Longrightarrow> buildMap kvs = Ok m"
proof -
  assume f: "finishMap (acc_after map_acc_init kvs) = Ok m"
  have disj: "\<not> (is_int_key k \<and> is_str_key k)" for k
    by (auto simp: is_int_key_def is_str_key_def)
  have flt: "filter (P \<circ> fst) kvs = [] \<longleftrightarrow> (\<forall>kv \<in> set kvs. \<not> P (fst kv))" for P
    by (auto simp: filter_empty_conv)
  have all: "\<forall>kv \<in> set kvs. P (fst kv) \<Longrightarrow> filter (P \<circ> fst) kvs = kvs" for P
    by (simp add: filter_id_conv)
  from f show ?thesis
    using disj
    by (auto simp: finishMap_def acc_after_def map_acc_init_def buildMap_def list_all_iff
        split_beta flt all split: if_splits)
qed

text \<open>A decoded item lies within the input.\<close>

lemma takeStringCanonical_end: "takeStringCanonical data p arg e = Ok (b, q) \<Longrightarrow> q \<le> length data"
  by (auto simp: takeStringCanonical_def Let_def split: if_splits)

lemma readArgCanonical_end:
  "readArgCanonical data p ai = Ok (arg, q) \<Longrightarrow> p \<le> length data \<Longrightarrow> q \<le> length data"
  by (auto simp: readArgCanonical_def Let_def split: if_splits)

text \<open>
  One item: given that the containers' loops agree, the lenient decoder returns what the canonical one
  does. A container the canonical decoder read to its end has no more items than bytes, so the guard
  of the lenient decoder lets it pass.
\<close>

lemma refines_array:
  assumes "readArg data (pos + 1) (data ! pos AND 0x1f) = Ok (arg, q)" and "pos < length data"
    and "data ! pos AND 0xe0 = mtArray" and "make_ok arg value_size" and "small_input data"
    and "decodeItems data (unat arg) q = Ok (vs, p)" and "p \<le> length data"
  shows "decodeValue data pos = Ok (Arr vs, p)"
proof -
  have "q + unat arg \<le> length data" using decode_pos(2) [OF assms(6)] assms(7) by simp
  then have "int_of_u64 arg \<le> int (length data) - int q"
    using assms(5) by (intro int_of_u64_le) (simp_all add: small_input_def)
  with assms show ?thesis by (simp add: decodeValue.simps [of data pos] mt_defs)
qed

lemma refines_map:
  assumes "readArg data (pos + 1) (data ! pos AND 0x1f) = Ok (arg, q)" and "pos < length data"
    and "data ! pos AND 0xe0 = mtMap" and small: "small_input data"
    and "decodePairs data (unat arg) q = Ok (kvs, p)" and "p \<le> length data" and "buildMap kvs = Ok v"
  shows "decodeValue data pos = Ok (v, p)"
proof -
  have n: "q + unat arg \<le> length data" using decode_pos(3) [OF assms(5)] assms(6) by simp
  then have "int_of_u64 arg \<le> int (length data) - int q"
    using small by (intro int_of_u64_le) (simp_all add: small_input_def)
  moreover have "make_ok arg pair_size"
    using n small by (simp add: make_ok_def pair_size_def small_input_def)
  ultimately show ?thesis using assms by (simp add: decodeValue.simps [of data pos] mt_defs)
qed

lemma decodeCanonical_refines:
  "decodeValueCanonical data pos = Ok (v, p) \<Longrightarrow> small_input data \<Longrightarrow>
     decodeValue data pos = Ok (v, p) \<and> p \<le> length data"
  "decodeItemsCanonical data n pos = Ok (vs, p) \<Longrightarrow> small_input data \<Longrightarrow> pos \<le> length data \<Longrightarrow>
     decodeItems data n pos = Ok (vs, p) \<and> p \<le> length data"
  "decodeEntriesCanonical data n i pos acc = Ok (acc', p) \<Longrightarrow> small_input data \<Longrightarrow>
     pos \<le> length data \<Longrightarrow>
     (\<exists>kvs. decodePairs data n pos = Ok (kvs, p) \<and> acc' = acc_after acc kvs) \<and> p \<le> length data"
proof (induction data pos and data n pos and data n i pos acc
    arbitrary: v p and vs p and acc' p
    rule: decodeValueCanonical_decodeItemsCanonical_decodeEntriesCanonical.induct)
  case (1 data pos)
  let ?mt = "data ! pos AND 0xe0" and ?ai = "data ! pos AND 0x1f"
  from "1.prems"(1) obtain arg q where
    rc: "readArgCanonical data (pos + 1) ?ai = Ok (arg, q)" and len: "\<not> length data \<le> pos"
    and nb: "\<not> (?ai = aiBreak \<and>
      (?mt = mtByteStr \<or> ?mt = mtTextStr \<or> ?mt = mtArray \<or> ?mt = mtMap))"
    by (auto simp: decodeValueCanonical.simps [of data pos] Let_def split: if_splits)
  note ra = readArgCanonical_readArg [OF rc]
  have q: "q \<le> length data" using readArgCanonical_end [OF rc] len by simp
  note IH = "1.IH" [OF len refl refl refl nb rc refl]
  note unfold = decodeValueCanonical.simps [of data pos] Let_def
  consider (arr) "?mt = mtArray" | (map) "?mt = mtMap" | (other) "?mt \<noteq> mtArray" "?mt \<noteq> mtMap"
    by blast
  then show ?case
  proof cases
    case arr
    from "1.prems"(1) rc len nb arr obtain vs where mk: "make_ok arg value_size"
      and items: "decodeItemsCanonical data (unat arg) q = Ok (vs, p)" and v: "v = Arr vs"
      by (auto simp: unfold mt_defs split: if_splits)
    have "decodeItems data (unat arg) q = Ok (vs, p)" "p \<le> length data"
      using IH(1) [OF _ _ _ _ _ _ items "1.prems"(2) q] arr mk by (auto simp: mt_defs)
    with refines_array [OF ra _ arr mk "1.prems"(2)] len v show ?thesis by simp
  next
    case map
    from "1.prems"(1) rc len nb map obtain acc where
      entries: "decodeEntriesCanonical data (unat arg) 0 q map_acc_init = Ok (acc, p)"
      and fin: "finishMap acc = Ok v"
      by (auto simp: unfold mt_defs split: if_splits)
    obtain kvs where pairs: "decodePairs data (unat arg) q = Ok (kvs, p)"
      and acc: "acc = acc_after map_acc_init kvs" and p: "p \<le> length data"
      using IH(2) [OF _ _ _ _ _ _ entries "1.prems"(2) q] map by (auto simp: mt_defs)
    with refines_map [OF ra _ map "1.prems"(2) pairs p finishMap_buildMap [OF fin [unfolded acc]]] len
    show ?thesis by simp
  next
    case other
    with "1.prems" rc ra len nb q show ?thesis
      by (auto simp: unfold decodeValue.simps [of data pos] small_input_def split: if_splits
          dest: takeStringCanonical_takeString takeStringCanonical_end decodeNegative_pos
            decodeSimple_pos)
  qed
next
  case (5 data n i pos acc)
  from "5.prems"(1) obtain k p1 v p2 acc1 where
    k: "decodeValueCanonical data pos = Ok (k, p1)" and v: "decodeValueCanonical data p1 = Ok (v, p2)"
    and a: "addEntry i k v acc = Ok acc1"
    and rest: "decodeEntriesCanonical data n (i + 1) p2 acc1 = Ok (acc', p)" by auto
  note k' = "5.IH"(1) [OF k "5.prems"(2)]
  note v' = "5.IH"(2) [OF k refl v "5.prems"(2)]
  from "5.IH"(3) [OF k refl v refl a rest "5.prems"(2)] v' obtain kvs where
    "decodePairs data n p2 = Ok (kvs, p)" "acc' = acc_after acc1 kvs" "p \<le> length data" by auto
  with k' v' addEntry_acc_after [OF a] show ?case by auto
qed (auto simp: acc_after_def)

section \<open>Key orders\<close>

lemma decode_int_key: "decodeValue (encodeIntKey n) 0 = Ok (NInt n, length (encodeIntKey n))"
  using lenient.decodes_NInt [of "encodeIntKey n" n]
  by (simp add: lenient.decodes_def encodeIntKey_eq)

lemma encodeIntKey_inj: "encodeIntKey m = encodeIntKey n \<longleftrightarrow> m = n"
  by (metis decode_int_key NInt_eq_iff outcome.inject(1) prod.inject)

interpretation int_key: less_order "\<lambda>a b. compareIntKeys a b < 0"
  by unfold_locales
    (auto simp: compareIntKeys_def dest: bytes_order.less_trans bytes_order.less_total
      intro: bytes_order.less_total [of "encodeIntKey x" "encodeIntKey y" for x y]
      simp flip: encodeIntKey_inj)

interpretation str_key: less_order str_key_less
  by unfold_locales
    (auto simp: str_key_less_def dest: bytes_compare_trans bytes_compare_total split: if_splits)

lemma sort_perm_int:
  "distinct (map fst es) \<Longrightarrow> mset es = mset fs \<Longrightarrow> sortIntMapEntries es = sortIntMapEntries fs"
  unfolding sortIntMapEntries_def by (rule int_key.SliceStable_key_perm)

lemma sort_perm_str:
  "distinct (map fst es) \<Longrightarrow> mset es = mset fs \<Longrightarrow> sortStrMapEntries es = sortStrMapEntries fs"
  unfolding sortStrMapEntries_def by (rule str_key.SliceStable_key_perm)

lemma sort_idem [simp]:
  "sortIntMapEntries (sortIntMapEntries es) = sortIntMapEntries es"
  "sortStrMapEntries (sortStrMapEntries fs) = sortStrMapEntries fs"
  unfolding sortIntMapEntries_def sortStrMapEntries_def
  by (rule int_key.SliceStable_key_idem str_key.SliceStable_key_idem)+

section \<open>Encoding the normal form\<close>

lemma encode_canon: "encodeValue (canon v) = encodeValue v"
proof (induction v)
  case (Arr vs)
  then show ?case by (simp add: comp_def cong: map_cong)
next
  case (IMap es)
  then have "\<forall>e \<in> set es. encodeValue (canon (snd e)) = encodeValue (snd e)"
    using snd_in_snds by blast
  then show ?case
    by (auto simp: Let_def sortInt_map split_beta comp_def intro!: arg_cong [where f = concat])
next
  case (SMap es)
  then have "\<forall>e \<in> set es. encodeValue (canon (snd e)) = encodeValue (snd e)"
    using snd_in_snds by blast
  then show ?case
    by (auto simp: Let_def sortStr_map split_beta comp_def sortStrMapEntries_def [of "[]"]
        sortIntMapEntries_def [of "[]"] intro!: arg_cong [where f = concat])
qed simp_all

lemma canon_idem [simp]: "canon (canon v) = canon v"
proof (induction v)
  case (IMap es)
  then have "\<forall>e \<in> set es. canon (canon (snd e)) = canon (snd e)" using snd_in_snds by blast
  then have "map (map_prod id canon) (map (map_prod id canon) es) = map (map_prod id canon) es" by auto
  then show ?case by (simp only: canon.simps sortInt_map [symmetric] sort_idem)
next
  case (SMap es)
  then have "\<forall>e \<in> set es. canon (canon (snd e)) = canon (snd e)" using snd_in_snds by blast
  then have "map (map_prod id canon) (map (map_prod id canon) es) = map (map_prod id canon) es" by auto
  then show ?case
    by (cases "es = []") (simp_all only: canon.simps sortStr_map [symmetric] sort_idem if_True if_False
      sortStr_Nil_iff map_is_Nil_conv list.map sortIntMapEntries_def SliceStable_simps)
qed simp_all

lemma wf_canon: "wf_value v \<Longrightarrow> wf_value (canon v)"
proof (induction v)
  case (IMap es)
  then have "\<forall>e \<in> set es. wf_value (canon (snd e))" using snd_in_snds by fastforce
  then show ?case by auto
next
  case (SMap es)
  then have "\<forall>e \<in> set es. wf_value (canon (snd e))" using snd_in_snds by fastforce
  then show ?case by auto
qed simp_all

lemma decode_encode_full:
  "wf_value v \<Longrightarrow> small_input (encodeValue v) \<Longrightarrow>
   decodeValue (encodeValue v) 0 = Ok (canon v, length (encodeValue v))"
  using lenient.decodes_value [of v "encodeValue v"] by (simp add: lenient.decodes_def)

lemma encode_eq_iff:
  assumes "wf_value u" and "wf_value v" and "small_input (encodeValue u)"
  shows "encodeValue u = encodeValue v \<longleftrightarrow> canon u = canon v"
proof
  assume e: "encodeValue u = encodeValue v"
  with decode_encode_full [OF assms(1,3)] decode_encode_full [OF assms(2)] assms(3)
  show "canon u = canon v" by simp
qed (metis encode_canon)

lemma decode_canonical_full:
  "strict_value v \<Longrightarrow> small_input (encodeValue v) \<Longrightarrow>
   decodeValueCanonical (encodeValue v) 0 = Ok (canon v, length (encodeValue v))"
  using canonical.decodes_value [of v "encodeValue v"] by (simp add: canonical.decodes_def)

section \<open>Arguments accepted by the canonical reader are the encoder's own\<close>

lemma byte_split: "(ib AND 0xe0) OR (ib AND 0x1f) = (ib :: byte)"
proof -
  have "(ib AND 0xe0) OR (ib AND 0x1f) = ib AND (0xe0 OR 0x1f)"
    by (rule bit.conj_disj_distrib [symmetric])
  also have "(0xe0 OR 0x1f :: byte) = - 1" by simp
  finally show ?thesis by simp
qed

lemma take_Suc_drop: "pos < length data \<Longrightarrow> take (Suc n) (drop pos data) = data ! pos # take n (drop (Suc pos) data)"
  by (simp add: Cons_nth_drop_Suc [symmetric])

lemma ucast_up_bound:
  assumes "LENGTH('b) \<le> 64"
  shows "unat (ucast (w :: 'b::len word) :: u64) = unat w"
proof -
  have "unat w < 2 ^ LENGTH('b)" by simp
  also have "\<dots> \<le> 2 ^ 64" using assms by (intro power_increasing) simp_all
  finally show ?thesis by (simp add: unsigned_ucast_eq take_bit_nat_eq_self_iff)
qed

lemma ucast_back: "LENGTH('b) \<le> 64 \<Longrightarrow> ucast (ucast (w :: 'b::len word) :: u64) = w"
  by (rule ucast_up_ucast_id) (simp add: is_up)

lemma be_field:
  assumes "pos + n \<le> length data" and "8 * n = LENGTH('b::len)"
  shows "be_put n (be_get (take n (drop pos data)) :: 'b word) = take n (drop pos data)"
  using be_put_get [of "take n (drop pos data)", where ?'a = 'b] assms by simp

lemma readArgCanonicalE:
  assumes "readArgCanonical data pos ai = Ok (v, p)"
  obtains (imm) "ai \<le> 23" "v = ucast ai" "p = pos"
    | (one) "ai = aiOneByte" "v = ucast (data ! pos)" "23 < v" "pos + 1 \<le> length data" "p = pos + 1"
    | (two) "ai = aiTwoBytes" "v = ucast (Uint16 (drop pos data))" "255 < v"
        "pos + 2 \<le> length data" "p = pos + 2"
    | (four) "ai = aiFourBytes" "v = ucast (Uint32 (drop pos data))" "65535 < v"
        "pos + 4 \<le> length data" "p = pos + 4"
    | (eight) "ai = aiEightBytes" "v = Uint64 (drop pos data)" "4294967295 < v"
        "pos + 8 \<le> length data" "p = pos + 8"
proof -
  consider "ai \<le> 23" | "\<not> ai \<le> 23" "ai = aiOneByte" | "\<not> ai \<le> 23" "ai = aiTwoBytes"
    | "\<not> ai \<le> 23" "ai = aiFourBytes" | "\<not> ai \<le> 23" "ai = aiEightBytes"
    | "\<not> ai \<le> 23" "ai \<notin> {aiOneByte, aiTwoBytes, aiFourBytes, aiEightBytes}" by blast
  then show thesis
  proof cases
    case 1
    with assms show ?thesis by (intro imm) (simp_all add: readArgCanonical_def)
  next
    case 2
    with assms show ?thesis
      by (intro one) (auto simp: readArgCanonical_def Let_def not_le split: if_splits)
  next
    case 3
    with assms show ?thesis
      by (intro two) (auto simp: readArgCanonical_def Let_def not_le ai_defs split: if_splits)
  next
    case 4
    with assms show ?thesis
      by (intro four) (auto simp: readArgCanonical_def Let_def not_le ai_defs split: if_splits)
  next
    case 5
    with assms show ?thesis
      by (intro eight) (auto simp: readArgCanonical_def Let_def not_le ai_defs split: if_splits)
  next
    case 6
    with assms show ?thesis by (auto simp: readArgCanonical_def split: if_splits)
  qed
qed

lemma readArgCanonical_unique:
  assumes "readArgCanonical data (Suc pos) (data ! pos AND 0x1f) = Ok (v, p)" and "pos < length data"
  shows "take (p - pos) (drop pos data) = encodeHead (data ! pos AND 0xe0) v"
proof -
  let ?ai = "data ! pos AND 0x1f" and ?mt = "data ! pos AND 0xe0"
  note ib = byte_split [of "data ! pos"]
  from assms(1) show ?thesis
  proof (cases rule: readArgCanonicalE)
    case imm
    then have "unat v < 24" by (simp add: ucast_up_bound word_le_nat_alt)
    with imm ib assms(2) show ?thesis
      by (simp add: take_Suc_drop encodeHead_def ucast_back word_less_nat_alt)
  next
    case one
    have "unat v \<le> 255" using one(2) unsigned_less [of "data ! Suc pos", where ?'a = nat]
      by (simp add: ucast_up_bound)
    moreover have t: "take 2 (drop pos data) = [data ! pos, data ! Suc pos]"
      using take_Suc_drop [OF assms(2), of "Suc 0"] take_Suc_drop [of "Suc pos" data 0] one(4)
      by (simp add: numeral_2_eq_2)
    ultimately show ?thesis using one(2,3,5) ib [unfolded one(1)]
      by (simp add: encodeHead_def ucast_back word_less_nat_alt word_le_nat_alt)
  next
    case two
    have "unat v \<le> 0xFFFF"
      using two(2) unsigned_less [of "Uint16 (drop (Suc pos) data)", where ?'a = nat]
      by (simp add: ucast_up_bound)
    with two ib take_Suc_drop [OF assms(2), of 2] be_field [of "Suc pos" 2 data, where ?'b = 16] show ?thesis
      by (simp add: encodeHead_def ucast_back word_less_nat_alt word_le_nat_alt)
  next
    case four
    have "unat v \<le> 0xFFFFFFFF"
      using four(2) unsigned_less [of "Uint32 (drop (Suc pos) data)", where ?'a = nat]
      by (simp add: ucast_up_bound)
    with four ib take_Suc_drop [OF assms(2), of 4] be_field [of "Suc pos" 4 data, where ?'b = 32] show ?thesis
      by (simp add: encodeHead_def ucast_back word_less_nat_alt word_le_nat_alt)
  next
    case eight
    with ib take_Suc_drop [OF assms(2), of 8] be_field [of "Suc pos" 8 data, where ?'b = 64] show ?thesis
      by (simp add: encodeHead_def ucast_back word_less_nat_alt word_le_nat_alt)
  qed
qed

end
