(* ===== verification/Cbor_Properties.thy ===== *)
theory Cbor_Properties
  imports Cbor_Theorems
begin

text \<open>
  What package \<open>cbor\<close> promises to its clients, as properties: the two round trips, agreement of
  the two decoders, canonicity of the encoding, shortest-form arguments, the exact cause of a
  decoder panic, and the places where the code departs from its comments.
\<close>

section \<open>When the lenient decoder panics\<close>

text \<open>
  A hostile container head: an array or map head with an eight-byte count whose top bit is set.
  The guard of the decoder compares the count as a signed \<open>int\<close>, so it lets such a count pass.
\<close>

definition hostile_head :: "bytes \<Rightarrow> nat \<Rightarrow> bool" where
  "hostile_head data i \<longleftrightarrow> i + 8 < length data \<and>
     (data ! i = mtArray OR aiEightBytes \<or> data ! i = mtMap OR aiEightBytes) \<and>
     int_of_u64 (Uint64 (drop (i + 1) data)) < 0"

lemma readArg_not_Panic [simp]: "readArg data p ai \<noteq> Panic"
  by (simp add: readArg_def)


lemma takeString_not_Panic [simp]: "takeString data p arg e \<noteq> Panic"
  by (auto simp: takeString_def checkedAdd_def go_slice_def split: if_splits)


lemma decode_leaf_not_Panic [simp]:
  "decodeNegative arg p \<noteq> Panic" "decodeSimple ai p \<noteq> Panic" "buildMap kvs \<noteq> Panic"
  by (simp_all add: decodeNegative_def decodeSimple_def buildMap_def)

lemma ucast_up_small: "LENGTH('b) \<le> 32 \<Longrightarrow> unat (ucast (w :: 'b::len word) :: u64) < 2 ^ 63"
proof -
  assume len: "LENGTH('b) \<le> 32"
  have "unat w < 2 ^ LENGTH('b)" by simp
  also have "\<dots> \<le> 2 ^ 63" using len by (intro power_increasing) simp_all
  finally show ?thesis using len by (simp add: ucast_up_bound)
qed

lemma readArg_negative:
  assumes "readArg data p ai = Ok (arg, q)" and "int_of_u64 arg < 0"
  shows "ai = aiEightBytes \<and> p + 8 \<le> length data \<and> arg = Uint64 (drop p data)"
proof -
  have big: "\<not> unat arg < 2 ^ 63" using assms(2) int_of_u64_nonneg_iff [of arg] by linarith
  from assms(1) big show ?thesis
    using ucast_up_small [of ai] ucast_up_small [of "data ! p"]
      ucast_up_small [of "Uint16 (drop p data)"] ucast_up_small [of "Uint32 (drop p data)"]
    by (auto simp: readArg_def split: if_splits)
qed

text \<open>Without such a head the count of a container is bounded by the bytes left.\<close>

lemma container_fits:
  assumes "readArg data (pos + 1) (data ! pos AND 0x1f) = Ok (arg, q)"
    and "data ! pos AND 0xe0 = mtArray \<or> data ! pos AND 0xe0 = mtMap"
    and "\<not> int_of_u64 arg > int (length data) - int q"
    and "\<not> hostile_head data pos" and "small_input data" and "n \<le> 144"
  shows "make_ok arg n"
proof -
  have "\<not> int_of_u64 arg < 0"
  proof
    assume neg: "int_of_u64 arg < 0"
    note h = readArg_negative [OF assms(1) neg]
    with byte_split [of "data ! pos"] assms(2) neg have "hostile_head data pos"
      by (auto simp: hostile_head_def)
    with assms(4) show False ..
  qed
  then have "int_of_u64 arg = int (unat arg)"
    using int_of_u64_nonneg_iff [of arg] by (intro int_of_u64_small) linarith
  with assms(3) have "unat arg \<le> length data" by linarith
  then have "unat arg * n \<le> 2 ^ 40 * 144"
    using assms(5,6) unfolding small_input_def by (intro mult_le_mono) linarith+
  then show ?thesis unfolding make_ok_def by (rule order_trans) simp
qed

lemma decode_not_Panic:
  "\<forall>i. \<not> hostile_head data i \<Longrightarrow> small_input data \<Longrightarrow> decodeValue data pos \<noteq> Panic"
  "\<forall>i. \<not> hostile_head data i \<Longrightarrow> small_input data \<Longrightarrow> decodeItems data n pos \<noteq> Panic"
  "\<forall>i. \<not> hostile_head data i \<Longrightarrow> small_input data \<Longrightarrow> decodePairs data n pos \<noteq> Panic"
proof (induction data pos and data n pos and data n pos
    rule: decodeValue_decodeItems_decodePairs.induct)
  case (1 data pos)
  let ?mt = "data ! pos AND 0xe0" and ?ai = "data ! pos AND 0x1f"
  show ?case
  proof (cases "\<exists>arg q. readArg data (pos + 1) ?ai = Ok (arg, q) \<and> \<not> length data \<le> pos")
    case False
    then show ?thesis
      by (auto simp: decodeValue.simps [of data pos] Let_def obind_eq_Panic)
  next
    case True
    then obtain arg q where ra: "readArg data (pos + 1) ?ai = Ok (arg, q)"
      and len: "\<not> length data \<le> pos" by blast
    note IH = "1.IH" [OF len refl refl refl ra refl]
    have mk: "make_ok arg value_size" "make_ok arg pair_size"
      if "?mt = mtArray \<or> ?mt = mtMap" "\<not> int_of_u64 arg > int (length data) - int q"
      using container_fits [OF ra that _ "1.prems"(2)] "1.prems"(1)
      by (auto simp: value_size_def pair_size_def)
    have I1: "decodeItems data (unat arg) q \<noteq> Panic"
      if "?mt = mtArray" "\<not> int_of_u64 arg > int (length data) - int q"
      using that mk "1.prems" by (intro IH(1)) (auto simp: mt_defs)
    have I2: "decodePairs data (unat arg) q \<noteq> Panic"
      if "?mt = mtMap" "\<not> int_of_u64 arg > int (length data) - int q"
      using that mk "1.prems" by (intro IH(2)) (auto simp: mt_defs)
    from ra len mk I1 I2 show ?thesis
      by (auto simp: decodeValue.simps [of data pos] Let_def obind_eq_Panic split: if_splits)
  qed
qed (auto simp: obind_eq_Panic)

section \<open>What the lenient decoder returns is well formed\<close>




section \<open>Properties\<close>

text \<open>A value with a map, an array and strings, for the witnesses.\<close>

definition sample_value :: cbor_value where
  "sample_value = IMap [(3, TStr (ascii ''ab'')), (1, Arr [UUint 500, NegV 0xFFFFFFFFFFFFFFF9]), (2, BoolV True)]"

definition sample_bytes :: bytes where
  "sample_bytes = [0xa3, 1, 0x82, 0x19, 0x01, 0xf4, 0x26, 2, 0xf5, 3, 0x62, 0x61, 0x62]"

lemma sample_encoding: "encodeValue sample_value = sample_bytes"
  by (simp add: sample_value_def sample_bytes_def go_eval)

lemma sample_strict: "strict_value sample_value" "wf_value sample_value"
  by (simp_all add: sample_value_def go_eval)

lemma sample_small: "small_input sample_bytes"
  by (simp add: small_input_def sample_bytes_def)



text \<open>
  C3: decoding what \<open>Encode\<close> wrote, whatever follows it, gives the value back, with its maps in
  key order, and consumes exactly the bytes of the encoding.
\<close>

theorem cbor_roundtrip:
  assumes "wf_value v" and "small_input (encodeValue v @ rest)"
  shows "cbor_Decode (encodeValue v @ rest) = Ok (canon v, length (encodeValue v))"
  using lenient.decodes_value [OF assms] by (simp add: lenient.decodes_def cbor_Decode_def)

theorem cbor_roundtrip_witness:
  "cbor_Decode (encodeValue sample_value @ [0xff]) = Ok (canon sample_value, 13)"
  using cbor_roundtrip [OF sample_strict(2), of "[0xff]"]
  by (simp add: sample_encoding small_input_def sample_bytes_def)

text \<open>
  \<open>CheckCanonical\<close> accepts every encoding the encoder writes for a value whose maps have no
  duplicate keys and whose strings decode to no replacement character.
\<close>

lemma cbor_canonical_accepts:
  assumes "strict_value v" and "small_input (encodeValue v)"
  shows "CheckCanonical (encodeValue v) = Ok ()"
  using decode_canonical_full [OF assms] by (simp add: CheckCanonical_def decodeCanonicalCheck_def)

text \<open>
  C15: whatever \<open>CheckCanonical\<close> accepts, \<open>Decode\<close> decodes completely, and to the same value the
  canonical decoder computed: the checks only remove inputs.
\<close>

theorem cbor_canonical_refines:
  assumes "CheckCanonical data = Ok ()" and "small_input data"
  shows "\<exists>v. decodeCanonicalCheck data = Ok (v, length data) \<and> cbor_Decode data = Ok (v, length data)"
  using assms decodeCanonical_refines(1)
  by (fastforce simp: CheckCanonical_def decodeCanonicalCheck_def cbor_Decode_def split: if_splits)

theorem cbor_canonical_refines_witness:
  "\<exists>v. decodeCanonicalCheck sample_bytes = Ok (v, length sample_bytes) \<and>
       cbor_Decode sample_bytes = Ok (v, length sample_bytes)"
proof (rule cbor_canonical_refines)
  show "CheckCanonical sample_bytes = Ok ()"
    using decode_canonical_full [OF sample_strict(1)] sample_small
    by (simp add: sample_encoding CheckCanonical_def decodeCanonicalCheck_def)
qed (rule sample_small)



text \<open>
  Deterministic maps: the encoding of a map with distinct keys does not depend on the order in
  which its entries were added, for integer keys and for text keys.
\<close>

lemma cbor_map_order_irrelevant:
  assumes "distinct (map fst es)" and "mset es = mset es'"
    and "distinct (map fst fs)" and "mset fs = mset fs'"
  shows "encodeValue (IMap es) = encodeValue (IMap es') \<and> encodeValue (SMap fs) = encodeValue (SMap fs')"
  using sort_perm_int [OF assms(1,2)] sort_perm_str [OF assms(3,4)] by simp

text \<open>
  The canonical argument reader accepts only the shortest form: when it reads an argument after
  an initial byte, the bytes from the initial byte on are exactly the head the encoder would write.
\<close>

lemma cbor_shortest_argument:
  assumes "readArgCanonical data (Suc pos) (data ! pos AND 0x1f) = Ok (v, p)" and "pos < length data"
  shows "take (p - pos) (drop pos data) = encodeHead (data ! pos AND 0xe0) v"
  using assms by (rule readArgCanonical_unique)

text \<open>
  C24: the only panic of \<open>Decode\<close>: an input up to a tebibyte that holds no array or map head with an
  eight-byte count of \<open>2 ^ 63\<close> or more is decoded or rejected with an error.
\<close>

theorem cbor_decode_no_panic:
  assumes "\<forall>i. \<not> hostile_head data i" and "small_input data"
  shows "cbor_Decode data \<noteq> Panic"
  using decode_not_Panic(1) [OF assms] by (simp add: cbor_Decode_def)

theorem cbor_decode_no_panic_witness: "cbor_Decode [0x83, 1, 2] \<noteq> Panic"
  by (rule cbor_decode_no_panic) (simp_all add: hostile_head_def small_input_def)

text \<open>
  Such heads do panic: nine bytes crash \<open>Decode\<close> (an array whose count reads as a negative
  \<open>int\<close> passes the length check), and \<open>CheckCanonical\<close> panics also on an over-long byte string,
  because it adds the length without the overflow check of the lenient decoder.
\<close>

lemma cbor_hostile_lengths_panic:
  "cbor_Decode (0x9b # replicate 8 0xff) = Panic \<and>
   CheckCanonical (0x9b # replicate 8 0xff) = Panic \<and>
   CheckCanonical (0x5b # replicate 8 0xff) = Panic \<and>
   cbor_Decode (0x5b # replicate 8 0xff) = Err NegativeLength"
  by (simp add: go_eval del: obind_eq_Ok)

text \<open>
  Where acceptance by \<open>CheckCanonical\<close> falls short of canonicity: it does not check the order of
  map keys, it accepts \<open>undefined\<close> (which re-encodes as null), and it refuses text that holds a
  correctly encoded U+FFFD although it is valid UTF-8.
\<close>

lemma cbor_check_canonical_gaps:
  "CheckCanonical [0xa2, 2, 0xf6, 1, 0xf6] = Ok () \<and>
   encodeValue (IMap [(2, NullV), (1, NullV)]) = [0xa2, 1, 0xf6, 2, 0xf6] \<and>
   CheckCanonical [0xf7] = Ok () \<and> cbor_Decode [0xf7] = Ok (NullV, 1) \<and> encodeValue NullV = [0xf6] \<and>
   CheckCanonical [0x63, 0xef, 0xbf, 0xbd] = Err InvalidUTF8 \<and> ValidString [0xef, 0xbf, 0xbd]"
  by (simp add: go_eval del: obind_eq_Ok)

text \<open>
  Integer keys are sorted by plain bytewise comparison of their encodings, not length first:
  key 24 (two bytes) is written before key -1 (one byte).
\<close>

lemma cbor_int_key_order_bytewise:
  "map fst (sortIntMapEntries [(0xFFFFFFFFFFFFFFFF, NullV), (24, NullV)]) = [24, 0xFFFFFFFFFFFFFFFF] \<and>
   int_of_u64 0xFFFFFFFFFFFFFFFF = -1 \<and>
   length (encodeIntKey 0xFFFFFFFFFFFFFFFF) < length (encodeIntKey 24)"
  by (simp add: go_eval)

end
