(* ===== verification/Frame.thy ===== *)
theory Frame
  imports Go_Prelude
begin

text \<open>
  Package \<open>frame\<close> (\<open>src/frame/frame.go\<close>): the 28-byte frame header, encoding and decoding of
  frames, and the classification of frame types. An error is a value of \<open>frame_error\<close> together
  with the text its \<open>Error()\<close> method returns (\<open>frame_error_msg\<close>), since package \<open>pipeline\<close>
  classifies errors by searching that text.
\<close>

section \<open>Constants and data\<close>

definition frame_Version :: byte where "frame_Version = 1"
definition HeaderSize :: nat where "HeaderSize = 28"
definition MaxPayloadSize :: nat where "MaxPayloadSize = 1048576"
definition MaxExtensionSize :: nat where "MaxExtensionSize = 65536"

definition TypeData :: byte where "TypeData = 0x01"
definition TypeHandshake :: byte where "TypeHandshake = 0x02"
definition TypeRPCRequest :: byte where "TypeRPCRequest = 0x03"
definition TypeRPCResponse :: byte where "TypeRPCResponse = 0x04"
definition TypeClose :: byte where "TypeClose = 0x05"
definition TypeError :: byte where "TypeError = 0x06"
definition TypePing :: byte where "TypePing = 0x07"
definition TypePong :: byte where "TypePong = 0x08"

definition FlagMore :: byte where "FlagMore = 0x01"
definition FlagCompressed :: byte where "FlagCompressed = 0x02"
definition FlagCritical :: byte where "FlagCritical = 0x80"

lemmas frame_consts [go_eval] = frame_Version_def HeaderSize_def MaxPayloadSize_def
  MaxExtensionSize_def TypeData_def TypeHandshake_def TypeRPCRequest_def TypeRPCResponse_def
  TypeClose_def TypeError_def TypePing_def TypePong_def FlagMore_def FlagCompressed_def
  FlagCritical_def

record frame =
  fVersion :: byte
  fFrameType :: byte
  fFlags :: byte
  fStreamID :: u64
  fExtensions :: bytes
  fPayload :: bytes

datatype frame_error =
    NeedBytes nat
  | BadVersion byte
  | PayloadTooLarge nat
  | ExtensionTooLarge nat
  | FrameLengthOverflow
  | FrameIncomplete nat nat
  | UnknownCriticalType byte

fun frame_error_msg :: "frame_error \<Rightarrow> string" where
  "frame_error_msg (NeedBytes n) = ''frame: need 28 bytes, have '' @ fmt_d n"
| "frame_error_msg (BadVersion v) = ''frame: invalid version '' @ fmt_d (unat v) @ '' (expected 1)''"
| "frame_error_msg (PayloadTooLarge n) = ''frame: payload too large ('' @ fmt_d n @ '' > 1048576)''"
| "frame_error_msg (ExtensionTooLarge n) =
     ''frame: extension section too large ('' @ fmt_d n @ '' > 65536)''"
| "frame_error_msg FrameLengthOverflow = ''frame: length overflow''"
| "frame_error_msg (FrameIncomplete need have) =
     ''frame: incomplete (need '' @ fmt_d need @ '', have '' @ fmt_d have @ '')''"
| "frame_error_msg (UnknownCriticalType ft) = ''frame: unknown critical frame type 0x'' @ fmt_02x ft"

section \<open>Operations\<close>

definition isValidFrameType :: "byte \<Rightarrow> byte \<Rightarrow> bool" where
  "isValidFrameType ft flags \<longleftrightarrow>
     ft \<in> {TypeData, TypeHandshake, TypeRPCRequest, TypeRPCResponse,
           TypeClose, TypeError, TypePing, TypePong}"

definition IsKnownFrameType :: "byte \<Rightarrow> bool" where
  "IsKnownFrameType ft \<longleftrightarrow> isValidFrameType ft 0"

definition IsCriticalUnknownFrameType :: "byte \<Rightarrow> byte \<Rightarrow> bool" where
  "IsCriticalUnknownFrameType ft flags \<longleftrightarrow> \<not> isValidFrameType ft flags \<and> flags AND FlagCritical \<noteq> 0"

definition IsSkippableUnknownFrameType :: "byte \<Rightarrow> byte \<Rightarrow> bool" where
  "IsSkippableUnknownFrameType ft flags \<longleftrightarrow> \<not> isValidFrameType ft flags \<and> flags AND FlagCritical = 0"

definition safeAdd64 :: "u64 \<Rightarrow> u64 \<Rightarrow> (frame_error, u64) outcome" where
  "safeAdd64 a b = (if a > NOT 0 - b then Err FrameLengthOverflow else Ok (a + b))"

definition frame_Encode :: "frame \<Rightarrow> (frame_error, bytes) outcome" where
  "frame_Encode f =
     (if length (fPayload f) > MaxPayloadSize then Err (PayloadTooLarge (length (fPayload f)))
      else if length (fExtensions f) > MaxExtensionSize
      then Err (ExtensionTooLarge (length (fExtensions f)))
      else Ok ([fVersion f, fFrameType f, fFlags f, 0]
        @ PutUint64 (fStreamID f)
        @ PutUint64 (of_nat (length (fPayload f)))
        @ PutUint64 (of_nat (length (fExtensions f)))
        @ fExtensions f @ fPayload f))"

definition frame_Decode :: "bytes \<Rightarrow> (frame_error, frame \<times> nat) outcome" where
  "frame_Decode data =
     (if length data < HeaderSize then Err (NeedBytes (length data))
      else let version = data ! 0 in
      if version \<noteq> frame_Version then Err (BadVersion version)
      else let frameType = data ! 1; flags = data ! 2;
        streamID = Uint64 (drop 4 data);
        payloadLen = Uint64 (drop 12 data);
        extLen = Uint64 (drop 20 data) in
      if unat payloadLen > MaxPayloadSize then Err (PayloadTooLarge (unat payloadLen))
      else if unat extLen > MaxExtensionSize then Err (ExtensionTooLarge (unat extLen))
      else obind (safeAdd64 extLen payloadLen) (\<lambda>totalBody.
        obind (safeAdd64 (of_nat HeaderSize) totalBody) (\<lambda>totalFrame.
          if of_nat (length data) < totalFrame
          then Err (FrameIncomplete (unat totalFrame) (length data))
          else if \<not> isValidFrameType frameType flags \<and> flags AND FlagCritical \<noteq> 0
          then Err (UnknownCriticalType frameType)
          else obind (go_slice data (int HeaderSize) (int HeaderSize + int_of_u64 extLen)) (\<lambda>ext.
            obind (go_slice data (int HeaderSize + int_of_u64 extLen) (int_of_u64 totalFrame))
              (\<lambda>payload.
                Ok (\<lparr>fVersion = version, fFrameType = frameType, fFlags = flags,
                     fStreamID = streamID, fExtensions = ext, fPayload = payload\<rparr>,
                    nat (int_of_u64 totalFrame)))))))"

section \<open>The decoder without machine arithmetic\<close>

text \<open>
  The lengths a header declares, as natural numbers. Both are bounded by the checks that precede
  the additions, so the additions and the conversions to \<open>int\<close> are exact.
\<close>

definition payload_len :: "bytes \<Rightarrow> nat" where
  "payload_len data = unat (Uint64 (drop 12 data))"

definition ext_len :: "bytes \<Rightarrow> nat" where
  "ext_len data = unat (Uint64 (drop 20 data))"

definition frame_len :: "bytes \<Rightarrow> nat" where
  "frame_len data = HeaderSize + ext_len data + payload_len data"

definition frame_of :: "bytes \<Rightarrow> frame" where
  "frame_of data =
     \<lparr>fVersion = data ! 0, fFrameType = data ! 1, fFlags = data ! 2, fStreamID = Uint64 (drop 4 data),
      fExtensions = take (ext_len data) (drop HeaderSize data),
      fPayload = take (payload_len data) (drop (HeaderSize + ext_len data) data)\<rparr>"

lemma safeAdd64_small:
  assumes "unat a \<le> 2 ^ 32" and "unat b \<le> 2 ^ 32"
  shows "safeAdd64 a b = Ok (a + b)" and "unat (a + b) = unat a + unat b"
proof -
  have s: "unat a + unat b < 2 ^ LENGTH(64)" using assms by simp
  then show u: "unat (a + b) = unat a + unat b" by (simp add: unat_word_ariths)
  have n: "unat (NOT 0 :: u64) = 18446744073709551615"
    by (simp add: unsigned_minus_1_eq_mask mask_eq_exp_minus_1)
  have "b \<le> NOT 0" by simp
  then have "unat (NOT 0 - b) = 18446744073709551615 - unat b" using n by (simp only: unat_sub)
  moreover have "\<not> 18446744073709551615 - unat b < unat a" using assms by simp
  ultimately have "\<not> a > NOT 0 - b" by (metis word_less_nat_alt)
  then show "safeAdd64 a b = Ok (a + b)" by (simp add: safeAdd64_def)
qed


lemma header_words:
  assumes "payload_len data \<le> MaxPayloadSize" and "ext_len data \<le> MaxExtensionSize"
  shows "safeAdd64 (Uint64 (drop 20 data)) (Uint64 (drop 12 data))
           = Ok (Uint64 (drop 20 data) + Uint64 (drop 12 data))"
    and "safeAdd64 (of_nat HeaderSize) (Uint64 (drop 20 data) + Uint64 (drop 12 data))
           = Ok (of_nat (frame_len data))"
    and "unat (of_nat (frame_len data) :: u64) = frame_len data"
    and "int_of_u64 (of_nat (frame_len data)) = int (frame_len data)"
    and "int_of_u64 (Uint64 (drop 20 data)) = int (ext_len data)"
proof -
  let ?e = "Uint64 (drop 20 data)" and ?p = "Uint64 (drop 12 data)"
  have b: "unat ?e \<le> 65536" "unat ?p \<le> 1048576"
    using assms by (simp_all add: payload_len_def ext_len_def frame_consts)
  then have s: "unat ?e \<le> 2 ^ 32" "unat ?p \<le> 2 ^ 32" by simp_all
  note a1 = safeAdd64_small [OF s]
  show "safeAdd64 ?e ?p = Ok (?e + ?p)" by (rule a1)
  have h: "unat (of_nat HeaderSize :: u64) = 28" by (simp add: HeaderSize_def)
  have s2: "unat (of_nat HeaderSize :: u64) \<le> 2 ^ 32" "unat (?e + ?p) \<le> 2 ^ 32"
    using a1(2) b h by simp_all
  note a2 = safeAdd64_small [OF s2]
  have w: "of_nat (frame_len data) = (of_nat HeaderSize :: u64) + (?e + ?p)"
    by (simp add: frame_len_def ext_len_def payload_len_def add.assoc)
  with a2(1) show "safeAdd64 (of_nat HeaderSize) (?e + ?p) = Ok (of_nat (frame_len data))" by simp
  have fl: "frame_len data \<le> 28 + 65536 + 1048576"
    using b by (simp add: frame_len_def ext_len_def payload_len_def HeaderSize_def)
  then show u: "unat (of_nat (frame_len data) :: u64) = frame_len data"
    by (intro unat_of_nat_u64) simp
  show "int_of_u64 (of_nat (frame_len data)) = int (frame_len data)"
    using u fl by (subst int_of_u64_small) (simp_all only: u, simp)
  show "int_of_u64 ?e = int (ext_len data)"
    using b unfolding ext_len_def by (intro int_of_u64_small) simp
qed

text \<open>The length of a Go slice is an \<open>int\<close>.\<close>

definition fits_int :: "bytes \<Rightarrow> bool" where
  "fits_int data \<longleftrightarrow> length data < 2 ^ 63"

lemma frame_Decode_eq:
  assumes "fits_int data"
  shows "frame_Decode data =
    (if length data < HeaderSize then Err (NeedBytes (length data))
     else if data ! 0 \<noteq> frame_Version then Err (BadVersion (data ! 0))
     else if payload_len data > MaxPayloadSize then Err (PayloadTooLarge (payload_len data))
     else if ext_len data > MaxExtensionSize then Err (ExtensionTooLarge (ext_len data))
     else if length data < frame_len data then Err (FrameIncomplete (frame_len data) (length data))
     else if IsCriticalUnknownFrameType (data ! 1) (data ! 2) then Err (UnknownCriticalType (data ! 1))
     else Ok (frame_of data, frame_len data))"
proof -
  note w = header_words [of data]
  have l: "unat (of_nat (length data) :: u64) = length data"
    using assms unfolding fits_int_def by (intro unat_of_nat_u64) simp
  have lt: "(of_nat (length data) :: u64) < of_nat (frame_len data) \<longleftrightarrow> length data < frame_len data"
    if "payload_len data \<le> MaxPayloadSize" "ext_len data \<le> MaxExtensionSize"
    using w(3) [OF that] l by (simp only: word_less_nat_alt)
  have s1: "go_slice data (int HeaderSize) (int HeaderSize + int (ext_len data))
      = Ok (take (ext_len data) (drop HeaderSize data))"
    if "frame_len data \<le> length data"
    using that go_slice_nat [of HeaderSize "HeaderSize + ext_len data" data] by (simp add: frame_len_def)
  have s2: "go_slice data (int HeaderSize + int (ext_len data)) (int (frame_len data))
      = Ok (take (payload_len data) (drop (HeaderSize + ext_len data) data))"
    if "frame_len data \<le> length data"
    using that go_slice_nat [of "HeaderSize + ext_len data" "frame_len data" data]
    by (simp add: frame_len_def)
  show ?thesis
    unfolding frame_Decode_def Let_def IsCriticalUnknownFrameType_def
      payload_len_def [symmetric] ext_len_def [symmetric]
    by (simp add: w lt s1 s2 not_less frame_of_def)
qed

section \<open>Lemmas on encoded frames\<close>

text \<open>Frames the decoder hands to its caller: version 1, bounded sizes, no unknown critical type.\<close>

definition wf_frame :: "frame \<Rightarrow> bool" where
  "wf_frame f \<longleftrightarrow> fVersion f = frame_Version \<and> length (fPayload f) \<le> MaxPayloadSize \<and>
     length (fExtensions f) \<le> MaxExtensionSize \<and>
     \<not> IsCriticalUnknownFrameType (fFrameType f) (fFlags f)"

definition frame_bytes :: "frame \<Rightarrow> bytes" where
  "frame_bytes f = [fVersion f, fFrameType f, fFlags f, 0] @ PutUint64 (fStreamID f)
     @ PutUint64 (of_nat (length (fPayload f))) @ PutUint64 (of_nat (length (fExtensions f)))
     @ fExtensions f @ fPayload f"

lemma frame_Encode_eq:
  "frame_Encode f = (if length (fPayload f) > MaxPayloadSize then Err (PayloadTooLarge (length (fPayload f)))
     else if length (fExtensions f) > MaxExtensionSize
     then Err (ExtensionTooLarge (length (fExtensions f))) else Ok (frame_bytes f))"
  by (simp add: frame_Encode_def frame_bytes_def)

lemma length_frame_bytes: "length (frame_bytes f) = HeaderSize + length (fExtensions f) + length (fPayload f)"
  by (simp add: frame_bytes_def HeaderSize_def)

lemma frame_bytes_fields:
  assumes "length (fPayload f) \<le> MaxPayloadSize" and "length (fExtensions f) \<le> MaxExtensionSize"
  shows "payload_len (frame_bytes f @ rest) = length (fPayload f)"
    and "ext_len (frame_bytes f @ rest) = length (fExtensions f)"
    and "frame_of (frame_bytes f @ rest) = f"
proof -
  let ?d = "frame_bytes f @ rest"
  have d4: "drop 4 ?d = PutUint64 (fStreamID f) @ PutUint64 (of_nat (length (fPayload f)))
      @ PutUint64 (of_nat (length (fExtensions f))) @ fExtensions f @ fPayload f @ rest"
    by (simp add: frame_bytes_def)
  have d12: "drop 12 ?d = drop 8 (drop 4 ?d)" and d20: "drop 20 ?d = drop 16 (drop 4 ?d)"
    and d28: "drop HeaderSize ?d = drop 24 (drop 4 ?d)"
    by (simp_all add: HeaderSize_def del: drop_append)
  have u: "unat (of_nat (length (fPayload f)) :: u64) = length (fPayload f)"
    "unat (of_nat (length (fExtensions f)) :: u64) = length (fExtensions f)"
    using assms by (intro unat_of_nat_u64; simp add: frame_consts)+
  show p: "payload_len ?d = length (fPayload f)"
    unfolding payload_len_def d12 d4 by (simp add: be_get_put u del: unsigned_of_nat)
  show e: "ext_len ?d = length (fExtensions f)"
    unfolding ext_len_def d20 d4 by (simp add: be_get_put u del: unsigned_of_nat)
  have s: "Uint64 (drop 4 ?d) = fStreamID f"
    unfolding d4 by (simp add: be_get_put)
  have b: "drop HeaderSize ?d = fExtensions f @ fPayload f @ rest"
    unfolding d28 d4 by simp
  then have b': "drop (HeaderSize + length (fExtensions f)) ?d = fPayload f @ rest"
    by (metis add.commute append_eq_conv_conj drop_drop)
  show "frame_of ?d = f"
    unfolding frame_of_def p e s b b' by (simp add: frame_bytes_def)
qed

text \<open>A decoded frame satisfies the invariant and stands in the input (its reserved byte aside).\<close>

lemma frame_Decode_Ok:
  assumes "frame_Decode data = Ok (f, n)" and "fits_int data"
  shows "wf_frame f" and "n = frame_len data" and "n \<le> length data" and "f = frame_of data"
    and "payload_len data = length (fPayload f)" and "ext_len data = length (fExtensions f)"
  using assms(1) unfolding frame_Decode_eq [OF assms(2)]
  by (auto simp: wf_frame_def frame_of_def frame_len_def split: if_splits)

lemma frame_Decode_frame_bytes:
  assumes "wf_frame f" and "length rest < 2 ^ 62"
  shows "frame_Decode (frame_bytes f @ rest) = Ok (f, length (frame_bytes f))"
proof -
  have bounds: "length (fPayload f) \<le> MaxPayloadSize" "length (fExtensions f) \<le> MaxExtensionSize"
    using assms(1) by (simp_all add: wf_frame_def)
  note fields = frame_bytes_fields [OF bounds, of rest]
  have fit: "fits_int (frame_bytes f @ rest)"
    using bounds assms(2) by (simp add: fits_int_def length_frame_bytes frame_consts)
  show ?thesis
    using assms(1) bounds unfolding frame_Decode_eq [OF fit] fields frame_len_def length_frame_bytes
    by (simp add: wf_frame_def length_frame_bytes) (simp add: frame_bytes_def)
qed

lemma take_4: "4 \<le> length xs \<Longrightarrow> take 4 xs = [xs ! 0, xs ! 1, xs ! 2, xs ! 3]"
  by (auto simp: numeral_eq_Suc Suc_le_length_iff)

lemma frame_Decode_bytes:
  assumes "frame_Decode data = Ok (f, n)" and "fits_int data"
  shows "frame_bytes f = (take n data)[3 := 0]"
proof -
  note d = frame_Decode_Ok [OF assms]
  have len: "HeaderSize + ext_len data + payload_len data \<le> length data"
    using d(2,3) by (simp add: frame_len_def)
  then have h: "28 \<le> length data" by (simp add: HeaderSize_def)
  have f4: "take 4 data = [data ! 0, data ! 1, data ! 2, data ! 3]"
    using h by (intro take_4) simp
  have field: "PutUint64 (Uint64 (drop k data)) = take 8 (drop k data)" if "k + 8 \<le> length data" for k
    using be_put_get [of "take 8 (drop k data)", where ?'a = 64] that by simp
  have w: "of_nat (payload_len data) = Uint64 (drop 12 data)" "of_nat (ext_len data) = Uint64 (drop 20 data)"
    by (simp_all add: payload_len_def ext_len_def)
  have "take n data = take 4 data @ take 8 (drop 4 data) @ take 8 (drop 12 data) @ take 8 (drop 20 data)
      @ take (ext_len data) (drop 28 data) @ take (payload_len data) (drop (28 + ext_len data) data)"
    unfolding d(2) frame_len_def HeaderSize_def
    using take_add [of 4 "24 + ext_len data + payload_len data" data]
      take_add [of 8 "16 + ext_len data + payload_len data" "drop 4 data"]
      take_add [of 8 "8 + ext_len data + payload_len data" "drop 12 data"]
      take_add [of 8 "ext_len data + payload_len data" "drop 20 data"]
      take_add [of "ext_len data" "payload_len data" "drop 28 data"]
    by (simp add: ac_simps)
  moreover have "frame_bytes f = [data ! 0, data ! 1, data ! 2, 0] @ take 8 (drop 4 data)
      @ take 8 (drop 12 data) @ take 8 (drop 20 data)
      @ take (ext_len data) (drop 28 data) @ take (payload_len data) (drop (28 + ext_len data) data)"
    unfolding frame_bytes_def d(5,6) [symmetric] w
    using h by (simp add: d(4) frame_of_def field HeaderSize_def)
  ultimately show ?thesis unfolding f4 by simp
qed

lemma frame_Decode_prefix:
  assumes "wf_frame f" and "k < length (frame_bytes f)"
  shows "frame_Decode (take k (frame_bytes f)) =
    (if k < HeaderSize then Err (NeedBytes k) else Err (FrameIncomplete (length (frame_bytes f)) k))"
proof -
  let ?b = "frame_bytes f"
  have bounds: "length (fPayload f) \<le> MaxPayloadSize" "length (fExtensions f) \<le> MaxExtensionSize"
    using assms(1) by (simp_all add: wf_frame_def)
  note fields = frame_bytes_fields [OF bounds, of "[]"]
  have fit: "fits_int (take k ?b)"
    using bounds assms(2) by (simp add: fits_int_def length_frame_bytes frame_consts)
  have len: "length (take k ?b) = k" using assms(2) by simp
  have pl: "payload_len (take k ?b) = payload_len ?b" "ext_len (take k ?b) = ext_len ?b"
    if "HeaderSize \<le> k"
    using that by (simp_all add: payload_len_def ext_len_def drop_take HeaderSize_def min_def)
  have h0: "take k ?b ! 0 = frame_Version" if "HeaderSize \<le> k"
    using that assms(1) by (simp add: frame_bytes_def wf_frame_def HeaderSize_def)
  have "frame_len (take k ?b) = length ?b" if "HeaderSize \<le> k"
    using pl [OF that] fields by (simp add: frame_len_def length_frame_bytes)
  with pl h0 fields bounds assms(2) show ?thesis
    unfolding frame_Decode_eq [OF fit] len by (simp add: not_less)
qed

section \<open>Properties\<close>

definition sample_frame :: frame where
  "sample_frame = \<lparr>fVersion = 1, fFrameType = 3, fFlags = 0, fStreamID = 7,
     fExtensions = [9, 9], fPayload = [0xa0]\<rparr>"

lemma sample_frame_wf: "wf_frame sample_frame"
  by (simp add: wf_frame_def sample_frame_def IsCriticalUnknownFrameType_def isValidFrameType_def
      frame_consts)

text \<open>
  C13: every frame within the limits encodes, and decoding the encoding followed by any further
  bytes returns that frame and the number of bytes it occupies.
\<close>

theorem frame_roundtrip:
  assumes "wf_frame f" and "length rest < 2 ^ 62"
  shows "\<exists>b. frame_Encode f = Ok b \<and> frame_Decode (b @ rest) = Ok (f, length b)"
  using frame_Decode_frame_bytes [OF assms] assms(1) by (simp add: frame_Encode_eq wf_frame_def)

theorem frame_roundtrip_witness:
  "\<exists>b. frame_Encode sample_frame = Ok b \<and> frame_Decode (b @ [1, 2]) = Ok (sample_frame, length b)"
  by (rule frame_roundtrip [OF sample_frame_wf]) simp

text \<open>
  C25: what \<open>Decode\<close> returns is sound: the frame is within the limits and of no unknown critical
  type, the reported length lies within the input, and encoding the frame again gives exactly the
  consumed bytes with the reserved byte cleared.
\<close>

theorem frame_decode_sound:
  assumes "frame_Decode data = Ok (f, n)" and "fits_int data"
  shows "wf_frame f \<and> n \<le> length data \<and> frame_Encode f = Ok ((take n data)[3 := 0])"
  using frame_Decode_Ok [OF assms] frame_Decode_bytes [OF assms]
  by (simp add: frame_Encode_eq wf_frame_def)

theorem frame_decode_sound_witness:
  "wf_frame sample_frame \<and> 31 \<le> length (frame_bytes sample_frame) \<and>
   frame_Encode sample_frame = Ok ((take 31 (frame_bytes sample_frame))[3 := 0])"
proof (rule frame_decode_sound)
  have len: "length (frame_bytes sample_frame) = 31"
    by (simp add: length_frame_bytes sample_frame_def HeaderSize_def)
  then show fit: "fits_int (frame_bytes sample_frame)" by (simp add: fits_int_def)
  have "length (fPayload sample_frame) \<le> MaxPayloadSize" "length (fExtensions sample_frame) \<le> MaxExtensionSize"
    by (simp_all add: sample_frame_def frame_consts)
  note fields = frame_bytes_fields [OF this, of "[]", simplified]
  show "frame_Decode (frame_bytes sample_frame) = Ok (sample_frame, 31)"
    unfolding frame_Decode_eq [OF fit] frame_len_def fields len
    by (simp add: sample_frame_def frame_consts frame_bytes_def IsCriticalUnknownFrameType_def
        isValidFrameType_def)
qed

text \<open>
  C26: \<open>Decode\<close> never panics, and an incomplete frame is never accepted: every proper prefix of an
  encoded frame gives an error that says how many bytes are needed.
\<close>

theorem frame_prefix_rejected:
  assumes "wf_frame f" and "k < length (frame_bytes f)" and "fits_int data"
  shows "frame_Decode data \<noteq> Panic \<and> frame_Encode f = Ok (frame_bytes f) \<and>
    frame_Decode (take k (frame_bytes f)) =
      (if k < HeaderSize then Err (NeedBytes k) else Err (FrameIncomplete (length (frame_bytes f)) k))"
  using assms frame_Decode_prefix [OF assms(1,2)]
  by (simp add: frame_Decode_eq frame_Encode_eq wf_frame_def)

theorem frame_prefix_rejected_witness:
  "frame_Decode [1, 2, 3] \<noteq> Panic \<and> frame_Encode sample_frame = Ok (frame_bytes sample_frame) \<and>
   frame_Decode (take 30 (frame_bytes sample_frame)) = Err (FrameIncomplete 31 30)"
  using frame_prefix_rejected [OF sample_frame_wf, of 30 "[1, 2, 3]"]
  by (simp add: length_frame_bytes sample_frame_def HeaderSize_def fits_int_def)

text \<open>
  Frame types fall into exactly one of three classes, and of a complete frame within the limits
  \<open>Decode\<close> rejects exactly the unknown critical ones; unknown types without the critical bit are
  returned for the caller to skip.
\<close>

lemma frame_type_classes:
  assumes "fits_int data" and "frame_len data \<le> length data" and "data ! 0 = frame_Version"
    and "payload_len data \<le> MaxPayloadSize" and "ext_len data \<le> MaxExtensionSize"
  shows "frame_Decode data =
      (if IsCriticalUnknownFrameType (data ! 1) (data ! 2) then Err (UnknownCriticalType (data ! 1))
       else Ok (frame_of data, frame_len data)) \<and>
    (IsKnownFrameType (data ! 1) \<longleftrightarrow>
      \<not> IsCriticalUnknownFrameType (data ! 1) (data ! 2) \<and> \<not> IsSkippableUnknownFrameType (data ! 1) (data ! 2)) \<and>
    \<not> (IsCriticalUnknownFrameType (data ! 1) (data ! 2) \<and> IsSkippableUnknownFrameType (data ! 1) (data ! 2))"
proof -
  have "HeaderSize \<le> length data" using assms(2) by (simp add: frame_len_def)
  with assms show ?thesis
    by (auto simp: frame_Decode_eq IsKnownFrameType_def IsCriticalUnknownFrameType_def
        IsSkippableUnknownFrameType_def isValidFrameType_def)
qed

end
