(* ===== verification/Frame_Ext.thy ===== *)
theory Frame_Ext
  imports Go_Prelude
begin

text \<open>
  Package \<open>frameext\<close> (\<open>src/frameext/frameext.go\<close>): the extension section of a frame, a sequence
  of records \<open>type:2 critical:1 reserved:1 length:4 data\<close>. The decoder compares the remaining
  length after truncating it to 32 bits, as the code does.
\<close>

section \<open>Data and operations\<close>

definition ExtHeaderSize :: nat where "ExtHeaderSize = 8"

record Extension =
  ExtType :: u16
  Critical :: bool
  Data :: bytes

datatype frameext_error = ExtDataTooLarge | IncompleteExtHeader | IncompleteExtData

fun frameext_error_msg :: "frameext_error \<Rightarrow> string" where
  "frameext_error_msg ExtDataTooLarge = ''frameext: extension data too large''"
| "frameext_error_msg IncompleteExtHeader = ''frameext: incomplete extension header''"
| "frameext_error_msg IncompleteExtData = ''frameext: incomplete extension data''"

definition ext_header :: "Extension \<Rightarrow> bytes" where
  "ext_header ext = PutUint16 (ExtType ext) @ [if Critical ext then 0x01 else 0, 0]
     @ PutUint32 (of_nat (length (Data ext)))"

primrec encode_exts :: "bytes \<Rightarrow> Extension list \<Rightarrow> (frameext_error, bytes) outcome" where
  "encode_exts buf [] = Ok buf"
| "encode_exts buf (ext # exts) =
     (if length (Data ext) > 0xFFFFFFFF then Err ExtDataTooLarge
      else encode_exts (buf @ ext_header ext @ Data ext) exts)"

definition frameext_Encode :: "Extension list \<Rightarrow> (frameext_error, bytes) outcome" where
  "frameext_Encode exts = encode_exts [] exts"

text \<open>One iteration of the loop of \<open>Decode\<close>: the extension at a position and the next position.\<close>

definition decode_ext :: "bytes \<Rightarrow> nat \<Rightarrow> (frameext_error, Extension \<times> nat) outcome" where
  "decode_ext data pos =
     (if length data - pos < ExtHeaderSize then Err IncompleteExtHeader
      else let extType = Uint16 (drop pos data); critical = (data ! (pos + 2) = 0x01);
        dataLen = Uint32 (drop (pos + 4) data); pos1 = pos + ExtHeaderSize in
      if (of_nat (length data - pos1) :: u32) < dataLen then Err IncompleteExtData
      else obind (go_slice data (int pos1) (int (pos1 + unat dataLen))) (\<lambda>extData.
        Ok (\<lparr>ExtType = extType, Critical = critical, Data = extData\<rparr>, pos1 + unat dataLen)))"

lemma decode_ext_Ok:
  assumes "decode_ext data pos = Ok (e, p)"
  shows "p = pos + 8 + length (Data e)" and "p \<le> length data" and "length (Data e) < 2 ^ 32"
proof -
  let ?n = "Uint32 (drop (pos + 4) data)" and ?p = "pos + ExtHeaderSize"
  from assms have h: "\<not> length data - pos < ExtHeaderSize"
    and c: "\<not> (of_nat (length data - ?p) :: u32) < ?n"
    and d: "(go_slice data (int ?p) (int (?p + unat ?n)) :: (frameext_error, bytes) outcome) = Ok (Data e)" and p: "p = ?p + unat ?n"
    unfolding decode_ext_def Let_def by (auto split: if_splits)
  have le: "unat ?n \<le> length data - ?p" using c by (rule trunc_u32_le)
  with h p show fits: "p \<le> length data" by (simp add: ExtHeaderSize_def)
  with p h have "(go_slice data (int ?p) (int (?p + unat ?n)) :: (frameext_error, bytes) outcome)
      = Ok (take (unat ?n) (drop ?p data))"
    using go_slice_nat [of ?p "?p + unat ?n" data] by simp
  with d p fits have n: "length (Data e) = unat ?n" by (auto simp: outcome.inject)
  with p show "p = pos + 8 + length (Data e)" by (simp add: ExtHeaderSize_def)
  show "length (Data e) < 2 ^ 32" unfolding n using unsigned_less [of ?n, where ?'a = nat] by simp
qed

function decode_exts :: "bytes \<Rightarrow> nat \<Rightarrow> Extension list \<Rightarrow> (frameext_error, Extension list) outcome" where
  "decode_exts data pos exts =
     (if pos < length data
      then obind (decode_ext data pos) (\<lambda>(e, p). decode_exts data p (exts @ [e]))
      else Ok exts)"
  by pat_completeness auto
termination decode_exts
  by (relation "measure (\<lambda>(data, pos, exts). length data - pos)") (auto dest: decode_ext_Ok(1,2))

declare decode_exts.simps [simp del]

definition frameext_Decode :: "bytes \<Rightarrow> (frameext_error, Extension list) outcome" where
  "frameext_Decode data = decode_exts data 0 []"

primrec FindUnknownCritical :: "Extension list \<Rightarrow> u16 list \<Rightarrow> u16" where
  "FindUnknownCritical [] knownTypes = 0"
| "FindUnknownCritical (ext # exts) knownTypes =
     (if Critical ext \<and> \<not> list_ex (\<lambda>kt. ExtType ext = kt) knownTypes then ExtType ext
      else FindUnknownCritical exts knownTypes)"

primrec FindExtension :: "Extension list \<Rightarrow> u16 \<Rightarrow> Extension option" where
  "FindExtension [] extType = None"
| "FindExtension (ext # exts) extType =
     (if ExtType ext = extType then Some ext else FindExtension exts extType)"

lemmas ext_eval [go_eval] = ExtHeaderSize_def ext_header_def frameext_Encode_def
  frameext_Decode_def decode_ext_def decode_exts.simps

section \<open>Encoding and decoding\<close>

definition ext_bytes :: "Extension \<Rightarrow> bytes" where
  "ext_bytes ext = ext_header ext @ Data ext"

definition section_bytes :: "Extension list \<Rightarrow> bytes" where
  "section_bytes exts = concat (map ext_bytes exts)"

lemma section_bytes_simps [simp]:
  "section_bytes [] = []"
  "section_bytes (e # es) = ext_bytes e @ section_bytes es"
  "section_bytes (es @ fs) = section_bytes es @ section_bytes fs"
  by (simp_all add: section_bytes_def)

lemma length_ext_bytes [simp]: "length (ext_bytes e) = 8 + length (Data e)"
  by (simp add: ext_bytes_def ext_header_def)

lemma encode_exts_eq:
  "encode_exts buf exts =
     (if \<exists>e \<in> set exts. length (Data e) > 0xFFFFFFFF then Err ExtDataTooLarge
      else Ok (buf @ section_bytes exts))"
  by (induction exts arbitrary: buf) (auto simp: ext_bytes_def)

lemma section_Data_length: "e \<in> set exts \<Longrightarrow> length (Data e) \<le> length (section_bytes exts)"
  by (induction exts) auto

lemma decode_ext_at:
  assumes "drop pos data = ext_bytes e @ rest" and "length data < 2 ^ 32"
  shows "decode_ext data pos = Ok (e, pos + 8 + length (Data e))"
    and "drop (pos + 8 + length (Data e)) data = rest"
proof -
  have len: "pos + (8 + length (Data e)) + length rest = length data"
    using arg_cong [OF assms(1), of length] by simp
  have d: "drop (pos + k) data = drop k (drop pos data)" for k by (simp add: add.commute)
  have t: "Uint16 (drop pos data) = ExtType e"
    unfolding assms(1) by (simp add: ext_bytes_def ext_header_def be_get_put)
  have "data ! (pos + 2) = drop pos data ! 2" using len by simp
  then have c: "(data ! (pos + 2) = 0x01) = Critical e"
    unfolding assms(1) by (simp add: ext_bytes_def ext_header_def nth_append)
  have "length (Data e) < 2 ^ 32" using len assms(2) by linarith
  then have n: "unat (Uint32 (drop (pos + 4) data)) = length (Data e)"
    unfolding d assms(1) using unat_of_nat_u32 [of "length (Data e)"]
    by (simp add: ext_bytes_def ext_header_def be_get_put)
  have b: "drop (pos + 8) data = Data e @ rest"
    unfolding d assms(1) by (simp add: ext_bytes_def ext_header_def)
  have u: "unat (of_nat (length data - (pos + 8)) :: u32) = length data - (pos + 8)"
    using assms(2) by (intro unat_of_nat_u32) simp
  have le: "\<not> (of_nat (length data - (pos + 8)) :: u32) < Uint32 (drop (pos + 4) data)"
    unfolding word_less_nat_alt u n using len by simp
  have sl: "go_slice data (int (pos + 8)) (int (pos + 8 + length (Data e))) = Ok (Data e)"
    using go_slice_nat [of "pos + 8" "pos + 8 + length (Data e)" data] b len by simp
  have h: "\<not> length data - pos < 8" using len by simp
  show "decode_ext data pos = Ok (e, pos + 8 + length (Data e))"
    unfolding decode_ext_def Let_def ExtHeaderSize_def n sl t c if_not_P [OF h] if_not_P [OF le]
    by simp
  show "drop (pos + 8 + length (Data e)) data = rest"
    using b by (metis add.commute append_eq_conv_conj drop_drop)
qed

lemma decode_exts_section:
  assumes "drop pos data = section_bytes exts" and "length data < 2 ^ 32"
  shows "decode_exts data pos acc = Ok (acc @ exts)"
  using assms(1)
proof (induction exts arbitrary: pos acc)
  case Nil
  then show ?case by (subst decode_exts.simps) simp
next
  case (Cons e exts)
  then have at: "drop pos data = ext_bytes e @ section_bytes exts" by simp
  have "pos < length data" using arg_cong [OF at, of length] by simp
  then show ?case
    using decode_ext_at [OF at assms(2)] Cons.IH by (simp add: decode_exts.simps [of data pos])
qed

text \<open>The other direction: what is decoded has the length of the input and no oversized data.\<close>

lemma decode_exts_Ok:
  "decode_exts data pos acc = Ok r \<Longrightarrow> pos \<le> length data \<Longrightarrow>
   \<exists>es. r = acc @ es \<and> length (section_bytes es) = length data - pos \<and>
        (\<forall>e \<in> set es. length (Data e) < 2 ^ 32)"
proof (induction data pos acc rule: decode_exts.induct)
  case (1 data pos acc)
  show ?case
  proof (cases "pos < length data")
    case False
    with "1.prems" show ?thesis by (auto simp: decode_exts.simps [of data pos])
  next
    case True
    with "1.prems" obtain e p where e: "decode_ext data pos = Ok (e, p)"
      and r: "decode_exts data p (acc @ [e]) = Ok r"
      by (auto simp: decode_exts.simps [of data pos])
    note ok = decode_ext_Ok [OF e]
    from "1.IH" [OF True e refl r ok(2)] obtain es where
      "r = acc @ e # es" "length (section_bytes es) = length data - p"
      "\<forall>e \<in> set es. length (Data e) < 2 ^ 32" by auto
    with ok show ?thesis by (intro exI [of _ "e # es"]) auto
  qed
qed

lemma decode_ext_not_Panic: "pos \<le> length data \<Longrightarrow> decode_ext data pos \<noteq> Panic"
proof -
  assume "pos \<le> length data"
  let ?n = "Uint32 (drop (pos + 4) data)" and ?p = "pos + ExtHeaderSize"
  have "(go_slice data (int ?p) (int (?p + unat ?n)) :: (frameext_error, bytes) outcome) \<noteq> Panic"
    if "\<not> length data - pos < ExtHeaderSize" "\<not> (of_nat (length data - ?p) :: u32) < ?n"
  proof -
    have "?p + unat ?n \<le> length data" using trunc_u32_le [OF that(2)] that(1)
      by (simp add: ExtHeaderSize_def)
    then show ?thesis by (subst go_slice_nat) simp_all
  qed
  then show ?thesis unfolding decode_ext_def Let_def by (auto simp: obind_eq_Panic split: if_splits)
qed

lemma decode_exts_not_Panic: "pos \<le> length data \<Longrightarrow> decode_exts data pos acc \<noteq> Panic"
proof (induction data pos acc rule: decode_exts.induct)
  case (1 data pos acc)
  then have "decode_exts data p (acc @ [e]) \<noteq> Panic"
    if "pos < length data" "decode_ext data pos = Ok (e, p)" for e p
    using that decode_ext_Ok(2) [OF that(2)] by blast
  with decode_ext_not_Panic [OF "1.prems"] show ?case
    by (auto simp: decode_exts.simps [of data pos] obind_eq_Panic)
qed

section \<open>Properties\<close>

definition sample_exts :: "Extension list" where
  "sample_exts = [\<lparr>ExtType = 1, Critical = True, Data = [1, 2, 3]\<rparr>, \<lparr>ExtType = 0x1234, Critical = False, Data = []\<rparr>]"

text \<open>
  C27: a list of extensions whose section is shorter than 4 GiB survives encoding and decoding.
\<close>

theorem frameext_roundtrip:
  assumes "length (section_bytes exts) < 2 ^ 32"
  shows "\<exists>b. frameext_Encode exts = Ok b \<and> frameext_Decode b = Ok exts"
proof -
  have "\<not> (\<exists>e \<in> set exts. length (Data e) > 0xFFFFFFFF)"
    using assms section_Data_length by fastforce
  then show ?thesis
    using decode_exts_section [of 0 "section_bytes exts" exts "[]"] assms
    by (simp add: frameext_Encode_def frameext_Decode_def encode_exts_eq)
qed

theorem frameext_roundtrip_witness:
  "\<exists>b. frameext_Encode sample_exts = Ok b \<and> frameext_Decode b = Ok sample_exts"
  by (rule frameext_roundtrip) (simp add: sample_exts_def)

text \<open>
  Decoding a section never panics; what it accepts is covered completely by the records it
  returns, and re-encoding them gives a section of the same length that decodes to the same records
  (only reserved bytes and non-canonical critical flags are normalised).
\<close>

lemma frameext_decode_sound:
  assumes "frameext_Decode data = Ok exts" and "length data < 2 ^ 32"
  shows "\<exists>b. frameext_Encode exts = Ok b \<and> length b = length data \<and> frameext_Decode b = Ok exts"
proof -
  from decode_exts_Ok [of data 0 "[]" exts] assms(1)
  have "length (section_bytes exts) = length data" "\<forall>e \<in> set exts. length (Data e) < 2 ^ 32"
    by (auto simp: frameext_Decode_def)
  moreover from this have "\<not> (\<exists>e \<in> set exts. length (Data e) > 0xFFFFFFFF)" by fastforce
  ultimately show ?thesis
    using decode_exts_section [of 0 "section_bytes exts" exts "[]"] assms(2)
    by (simp add: frameext_Encode_def frameext_Decode_def encode_exts_eq)
qed

text \<open>
  \<open>FindUnknownCritical\<close> returns a nonzero type exactly when the first unknown critical
  extension has a nonzero type; when that extension has type 0 the result is 0, which a caller
  cannot tell from the absence of unknown critical extensions.
\<close>

lemma frameext_unknown_critical:
  "FindUnknownCritical exts known =
     (case find (\<lambda>e. Critical e \<and> ExtType e \<notin> set known) exts of None \<Rightarrow> 0 | Some e \<Rightarrow> ExtType e) \<and>
   FindUnknownCritical [\<lparr>ExtType = 0, Critical = True, Data = d\<rparr>] [] = FindUnknownCritical [] []"
  by (induction exts) (auto simp: list_ex_iff)

end
