(* ===== verification/Aafp_Errors.thy ===== *)
theory Aafp_Errors
  imports Go_Prelude
begin

text \<open>
  Package \<open>errors\<close> (\<open>src/errors/errors.go\<close>): the protocol's error codes and which of them are
  always fatal. The constants carry the prefix \<open>err_\<close>.
\<close>

definition err_OK :: u32 where "err_OK = 0"
definition err_Partial :: u32 where "err_Partial = 1"
definition err_NotFound :: u32 where "err_NotFound = 2"
definition err_ConnectionReset :: u32 where "err_ConnectionReset = 1001"
definition err_ConnectionTimeout :: u32 where "err_ConnectionTimeout = 1002"
definition err_StreamClosed :: u32 where "err_StreamClosed = 1003"
definition err_StreamReset :: u32 where "err_StreamReset = 1004"
definition err_FlowControlError :: u32 where "err_FlowControlError = 1005"
definition err_TransportUnreachable :: u32 where "err_TransportUnreachable = 1006"
definition err_TransportRefused :: u32 where "err_TransportRefused = 1007"
definition err_InvalidSignature :: u32 where "err_InvalidSignature = 2001"
definition err_IdentityExpired :: u32 where "err_IdentityExpired = 2002"
definition err_UnknownAgent :: u32 where "err_UnknownAgent = 2003"
definition err_VersionMismatch :: u32 where "err_VersionMismatch = 2004"
definition err_UnsupportedExtensions :: u32 where "err_UnsupportedExtensions = 2005"
definition err_HandshakeFailed :: u32 where "err_HandshakeFailed = 2006"
definition err_InvalidAgentId :: u32 where "err_InvalidAgentId = 2007"
definition err_NonceReuse :: u32 where "err_NonceReuse = 2008"
definition err_ReceiverMacInvalid :: u32 where "err_ReceiverMacInvalid = 2009"
definition err_UnsupportedAlgorithm :: u32 where "err_UnsupportedAlgorithm = 2010"
definition err_Unauthorized :: u32 where "err_Unauthorized = 3001"
definition err_InsufficientCapability :: u32 where "err_InsufficientCapability = 3002"
definition err_DelegationChainInvalid :: u32 where "err_DelegationChainInvalid = 3003"
definition err_TokenExpired :: u32 where "err_TokenExpired = 3004"
definition err_TokenRevoked :: u32 where "err_TokenRevoked = 3005"
definition err_DelegationDepthExceeded :: u32 where "err_DelegationDepthExceeded = 3006"
definition err_DhtError :: u32 where "err_DhtError = 4001"
definition err_BootstrapFailed :: u32 where "err_BootstrapFailed = 4002"
definition err_RecordInvalid :: u32 where "err_RecordInvalid = 4003"
definition err_RecordExpired :: u32 where "err_RecordExpired = 4004"
definition err_CapabilityNotFound :: u32 where "err_CapabilityNotFound = 4005"
definition err_AnnouncementRejected :: u32 where "err_AnnouncementRejected = 4006"
definition err_MalformedFrame :: u32 where "err_MalformedFrame = 5001"
definition err_UnknownMethod :: u32 where "err_UnknownMethod = 5002"
definition err_SerializationError :: u32 where "err_SerializationError = 5003"
definition err_MethodParamsInvalid :: u32 where "err_MethodParamsInvalid = 5004"
definition err_MessageTooLarge :: u32 where "err_MessageTooLarge = 5005"
definition err_StreamNotFound :: u32 where "err_StreamNotFound = 5006"
definition err_NegotiationFailed :: u32 where "err_NegotiationFailed = 6001"
definition err_Incompatible :: u32 where "err_Incompatible = 6002"
definition err_UnsupportedCapability :: u32 where "err_UnsupportedCapability = 6003"
definition err_CapabilityOverloaded :: u32 where "err_CapabilityOverloaded = 6004"
definition err_FrameTooLarge :: u32 where "err_FrameTooLarge = 8001"
definition err_UnexpectedCompression :: u32 where "err_UnexpectedCompression = 8002"
definition err_HandshakeOnWrongStream :: u32 where "err_HandshakeOnWrongStream = 8003"
definition err_UnknownCriticalFrameType :: u32 where "err_UnknownCriticalFrameType = 8004"
definition err_UnknownCriticalExtension :: u32 where "err_UnknownCriticalExtension = 8005"
definition err_InvalidVersion :: u32 where "err_InvalidVersion = 8006"
definition err_InvalidFlags :: u32 where "err_InvalidFlags = 8007"
definition err_ReservedFieldNonzero :: u32 where "err_ReservedFieldNonzero = 8008"
definition err_ProtocolViolation :: u32 where "err_ProtocolViolation = 8009"

lemmas err_defs =
  err_OK_def err_Partial_def err_NotFound_def err_ConnectionReset_def
  err_ConnectionTimeout_def err_StreamClosed_def err_StreamReset_def err_FlowControlError_def
  err_TransportUnreachable_def err_TransportRefused_def err_InvalidSignature_def
  err_IdentityExpired_def err_UnknownAgent_def err_VersionMismatch_def
  err_UnsupportedExtensions_def err_HandshakeFailed_def err_InvalidAgentId_def
  err_NonceReuse_def err_ReceiverMacInvalid_def err_UnsupportedAlgorithm_def
  err_Unauthorized_def err_InsufficientCapability_def err_DelegationChainInvalid_def
  err_TokenExpired_def err_TokenRevoked_def err_DelegationDepthExceeded_def err_DhtError_def
  err_BootstrapFailed_def err_RecordInvalid_def err_RecordExpired_def
  err_CapabilityNotFound_def err_AnnouncementRejected_def err_MalformedFrame_def
  err_UnknownMethod_def err_SerializationError_def err_MethodParamsInvalid_def
  err_MessageTooLarge_def err_StreamNotFound_def err_NegotiationFailed_def
  err_Incompatible_def err_UnsupportedCapability_def err_CapabilityOverloaded_def
  err_FrameTooLarge_def err_UnexpectedCompression_def err_HandshakeOnWrongStream_def
  err_UnknownCriticalFrameType_def err_UnknownCriticalExtension_def err_InvalidVersion_def
  err_InvalidFlags_def err_ReservedFieldNonzero_def err_ProtocolViolation_def

definition IsAlwaysFatal :: "u32 \<Rightarrow> bool" where
  "IsAlwaysFatal code \<longleftrightarrow>
     (if 2000 \<le> code \<and> code \<le> 2999 then True
      else code \<in> {err_UnknownCriticalFrameType, err_UnknownCriticalExtension,
                   err_InvalidVersion, err_ProtocolViolation})"

end
