(* ===== verification/Pipeline.thy ===== *)
theory Pipeline
  imports Cbor_Decode Frame Frame_Ext Aafp_Errors
begin

text \<open>
  Package \<open>pipeline\<close> (\<open>src/pipeline/pipeline.go\<close>): the twenty phases a received frame goes
  through. The interfaces \<open>PipelineContext\<close> and \<open>ExtensionCallback\<close> are implemented by the
  application: a context is a record of the answers of its methods, and a callback is its type
  and its \<open>Process\<close> method, a function on an application state \<open>'s\<close> that the pipeline threads
  through. \<open>process\<close> therefore returns the outcome and the application state after it.
\<close>

section \<open>Phases and errors\<close>

datatype PipelinePhase = Phase1ValidateHeader | Phase2ValidateLengths | Phase3RejectOversized
  | Phase4ReadPayload | Phase5ReadExtensions | Phase6DecodeCbor | Phase7RejectDuplicateKeys
  | Phase8RejectNonCanonical | Phase9ValidateTranscript | Phase10VerifySignatures
  | Phase11VerifyAgentId | Phase12VerifySessionState | Phase13VerifyAuthorization
  | Phase14VerifyCapabilities | Phase15DecodeExtensions | Phase16CheckUnknownCritical
  | Phase17CheckNonNegotiated | Phase18ProcessExtensionSemantics | Phase19ValidateFinalState
  | Phase20DeliverToUpperLayer

primrec phase_Number :: "PipelinePhase \<Rightarrow> nat" where
  "phase_Number Phase1ValidateHeader = 1"
| "phase_Number Phase2ValidateLengths = 2"
| "phase_Number Phase3RejectOversized = 3"
| "phase_Number Phase4ReadPayload = 4"
| "phase_Number Phase5ReadExtensions = 5"
| "phase_Number Phase6DecodeCbor = 6"
| "phase_Number Phase7RejectDuplicateKeys = 7"
| "phase_Number Phase8RejectNonCanonical = 8"
| "phase_Number Phase9ValidateTranscript = 9"
| "phase_Number Phase10VerifySignatures = 10"
| "phase_Number Phase11VerifyAgentId = 11"
| "phase_Number Phase12VerifySessionState = 12"
| "phase_Number Phase13VerifyAuthorization = 13"
| "phase_Number Phase14VerifyCapabilities = 14"
| "phase_Number Phase15DecodeExtensions = 15"
| "phase_Number Phase16CheckUnknownCritical = 16"
| "phase_Number Phase17CheckNonNegotiated = 17"
| "phase_Number Phase18ProcessExtensionSemantics = 18"
| "phase_Number Phase19ValidateFinalState = 19"
| "phase_Number Phase20DeliverToUpperLayer = 20"

text \<open>The phases are ordered by their numbers.\<close>

lemma phase_Number_inj: "phase_Number p = phase_Number q \<longleftrightarrow> p = q"
  by (cases p; cases q) simp_all

instantiation PipelinePhase :: linorder
begin

definition less_eq_PipelinePhase :: "PipelinePhase \<Rightarrow> PipelinePhase \<Rightarrow> bool" where
  "less_eq_PipelinePhase p q \<longleftrightarrow> phase_Number p \<le> phase_Number q"

definition less_PipelinePhase :: "PipelinePhase \<Rightarrow> PipelinePhase \<Rightarrow> bool" where
  "less_PipelinePhase p q \<longleftrightarrow> phase_Number p < phase_Number q"

instance
  by standard (auto simp: less_eq_PipelinePhase_def less_PipelinePhase_def phase_Number_inj)

end

lemmas phase_order = less_eq_PipelinePhase_def less_PipelinePhase_def

primrec phase_Name :: "PipelinePhase \<Rightarrow> string" where
  "phase_Name Phase1ValidateHeader = ''validate_frame_header''"
| "phase_Name Phase2ValidateLengths = ''validate_lengths''"
| "phase_Name Phase3RejectOversized = ''reject_oversized_before_allocation''"
| "phase_Name Phase4ReadPayload = ''read_payload''"
| "phase_Name Phase5ReadExtensions = ''read_extensions''"
| "phase_Name Phase6DecodeCbor = ''decode_canonical_cbor''"
| "phase_Name Phase7RejectDuplicateKeys = ''reject_duplicate_cbor_keys''"
| "phase_Name Phase8RejectNonCanonical = ''reject_non_canonical_cbor''"
| "phase_Name Phase9ValidateTranscript = ''validate_transcript_state''"
| "phase_Name Phase10VerifySignatures = ''verify_signatures''"
| "phase_Name Phase11VerifyAgentId = ''verify_agent_id''"
| "phase_Name Phase12VerifySessionState = ''verify_session_state''"
| "phase_Name Phase13VerifyAuthorization = ''verify_authorization''"
| "phase_Name Phase14VerifyCapabilities = ''verify_required_capabilities''"
| "phase_Name Phase15DecodeExtensions = ''decode_extensions''"
| "phase_Name Phase16CheckUnknownCritical = ''check_unknown_critical_extensions''"
| "phase_Name Phase17CheckNonNegotiated = ''check_non_negotiated_extensions''"
| "phase_Name Phase18ProcessExtensionSemantics = ''process_extension_semantics''"
| "phase_Name Phase19ValidateFinalState = ''validate_final_state''"
| "phase_Name Phase20DeliverToUpperLayer = ''deliver_to_upper_layer''"

definition IsPreAuthentication :: "PipelinePhase \<Rightarrow> bool" where
  "IsPreAuthentication p \<longleftrightarrow> phase_Number p \<le> 14"

definition IsAuthentication :: "PipelinePhase \<Rightarrow> bool" where
  "IsAuthentication p \<longleftrightarrow> phase_Number p \<ge> 9 \<and> phase_Number p \<le> 14"

definition IsExtensionProcessing :: "PipelinePhase \<Rightarrow> bool" where
  "IsExtensionProcessing p \<longleftrightarrow> phase_Number p \<ge> 15 \<and> phase_Number p \<le> 18"

definition phase_String :: "PipelinePhase \<Rightarrow> string" where
  "phase_String p = ''Phase '' @ fmt_d (phase_Number p) @ '' ('' @ phase_Name p @ '')''"

record PipelineError =
  Phase :: PipelinePhase
  ErrorCode :: u32
  Fatal :: bool
  Message :: string

definition pipeline_error_msg :: "PipelineError \<Rightarrow> string" where
  "pipeline_error_msg e = ''pipeline error at '' @ phase_String (Phase e) @ '' (code ''
     @ fmt_d (unat (ErrorCode e)) @ '', '' @ (if Fatal e then ''fatal'' else ''non-fatal'') @ ''): '' @ Message e"

definition ExtensionCallbacksInvoked :: "PipelineError \<Rightarrow> bool" where
  "ExtensionCallbacksInvoked e \<longleftrightarrow> Phase e = Phase18ProcessExtensionSemantics"

definition NewPipelineError :: "PipelinePhase \<Rightarrow> u32 \<Rightarrow> bool \<Rightarrow> string \<Rightarrow> PipelineError" where
  "NewPipelineError phase code fatal msg =
     \<lparr>Phase = phase, ErrorCode = code, Fatal = fatal, Message = msg\<rparr>"

section \<open>Interfaces\<close>

record PipelineContext =
  SignatureVerified :: bool
  AgentIDVerified :: bool
  SessionStateValid :: "byte \<Rightarrow> bool"
  Authorized :: "byte \<Rightarrow> bool"
  CapabilitiesSufficient :: "byte \<Rightarrow> bool"
  TranscriptStateValid :: bool
  NegotiatedExtensionTypes :: "u16 \<Rightarrow> bool"
  KnownExtensionTypes :: "u16 \<Rightarrow> bool"

record TestingContext =
  SigVerified :: bool
  AgentIDOk :: bool
  SessionValid :: bool
  AuthorizedOk :: bool
  CapabilitiesOk :: bool
  TranscriptValid :: bool
  NegotiatedTypes :: "u16 \<Rightarrow> bool"
  KnownTypes :: "u16 \<Rightarrow> bool"

definition DefaultTestingContext :: TestingContext where
  "DefaultTestingContext = \<lparr>SigVerified = True, AgentIDOk = True, SessionValid = True,
     AuthorizedOk = True, CapabilitiesOk = True, TranscriptValid = True,
     NegotiatedTypes = (\<lambda>_. False), KnownTypes = (\<lambda>_. False)\<rparr>"

text \<open>The methods by which a \<open>TestingContext\<close> implements the interface.\<close>

definition testing_context :: "TestingContext \<Rightarrow> PipelineContext" where
  "testing_context c = \<lparr>SignatureVerified = SigVerified c, AgentIDVerified = AgentIDOk c,
     SessionStateValid = (\<lambda>_. SessionValid c), Authorized = (\<lambda>_. AuthorizedOk c),
     CapabilitiesSufficient = (\<lambda>_. CapabilitiesOk c), TranscriptStateValid = TranscriptValid c,
     NegotiatedExtensionTypes = NegotiatedTypes c, KnownExtensionTypes = KnownTypes c\<rparr>"

record 's ExtensionCallback =
  ExtensionType :: u16
  Process :: "bytes \<Rightarrow> 's \<Rightarrow> (string, unit) outcome \<times> 's"

record ProcessedFrame =
  pFrame :: frame
  pExtensions :: "Extension list"
  ExtensionCallbackCount :: nat
  ExtensionsIgnored :: nat

record 's FrameProcessingPipeline =
  ctx :: PipelineContext
  callbacks :: "'s ExtensionCallback list"

definition pipeline_New :: "PipelineContext \<Rightarrow> 's ExtensionCallback list \<Rightarrow> 's FrameProcessingPipeline" where
  "pipeline_New c cbs = \<lparr>ctx = c, callbacks = cbs\<rparr>"

section \<open>The phases\<close>

record frameHeader =
  hVersion :: byte
  hFrameType :: byte
  hFlags :: byte
  hReserved :: byte
  hStreamID :: u64
  hPayloadLen :: int
  hExtLen :: int

definition fmt_X :: "nat \<Rightarrow> nat \<Rightarrow> string" where
  "fmt_X width n = map (\<lambda>i. let d = n div 16 ^ i mod 16 in
     if d < 10 then char_of (48 + d) else char_of (55 + d)) (rev [0..<width])"

type_synonym 'a phase_result = "(PipelineError, 'a) outcome"

definition validateFrameHeader :: "bytes \<Rightarrow> frameHeader phase_result" where
  "validateFrameHeader data =
     (if length data < HeaderSize
      then Err (NewPipelineError Phase1ValidateHeader err_MalformedFrame True
        (''incomplete header: need 28 bytes, have '' @ fmt_d (length data)))
      else if data ! 0 \<noteq> frame_Version
      then Err (NewPipelineError Phase1ValidateHeader err_InvalidVersion True
        (''invalid version: '' @ fmt_d (unat (data ! 0)) @ '' (expected 1)''))
      else if data ! 3 \<noteq> 0
      then Err (NewPipelineError Phase1ValidateHeader err_ReservedFieldNonzero True
        (''reserved field is non-zero: 0x'' @ fmt_X 2 (unat (data ! 3))))
      else Ok \<lparr>hVersion = data ! 0, hFrameType = data ! 1, hFlags = data ! 2, hReserved = data ! 3,
        hStreamID = Uint64 (drop 4 data), hPayloadLen = int_of_u64 (Uint64 (drop 12 data)),
        hExtLen = int_of_u64 (Uint64 (drop 20 data))\<rparr>)"

definition validateLengths :: "frameHeader \<Rightarrow> unit phase_result" where
  "validateLengths h =
     (if hPayloadLen h > int MaxPayloadSize
      then Err (NewPipelineError Phase2ValidateLengths err_FrameTooLarge False
        (''payload too large: '' @ fmt_d (nat (hPayloadLen h)) @ '' bytes (max 1048576)''))
      else if hExtLen h > int MaxExtensionSize
      then Err (NewPipelineError Phase2ValidateLengths err_FrameTooLarge False
        (''extension too large: '' @ fmt_d (nat (hExtLen h)) @ '' bytes (max 65536)''))
      else Ok ())"

definition rejectOversizedBeforeAllocation :: "frameHeader \<Rightarrow> unit phase_result" where
  "rejectOversizedBeforeAllocation h =
     (if hPayloadLen h > int MaxPayloadSize
      then Err (NewPipelineError Phase3RejectOversized err_FrameTooLarge False
        ''rejected before allocation: payload too large'')
      else if hExtLen h > int MaxExtensionSize
      then Err (NewPipelineError Phase3RejectOversized err_FrameTooLarge False
        ''rejected before allocation: extension too large'')
      else Ok ())"

text \<open>\<open>readFrame\<close> classifies the errors of \<open>frame.Decode\<close> by their text.\<close>

definition frame_error_class :: "string \<Rightarrow> u32 \<times> bool" where
  "frame_error_class msg =
     (if contains msg ''payload too large'' \<or> contains msg ''extension section too large''
      then (err_FrameTooLarge, False)
      else if contains msg ''invalid version'' then (err_InvalidVersion, True)
      else if contains msg ''unknown critical frame type'' then (err_UnknownCriticalFrameType, True)
      else (err_MalformedFrame, True))"

definition readFrame :: "bytes \<Rightarrow> (frame \<times> nat) phase_result" where
  "readFrame data =
     (case frame_Decode data of
        Ok (f, consumed) \<Rightarrow> Ok (f, consumed)
      | Err e \<Rightarrow> let msg = frame_error_msg e; (code, fatal) = frame_error_class msg in
          Err (NewPipelineError Phase4ReadPayload code fatal msg)
      | Panic \<Rightarrow> Panic)"

definition validateCbor :: "frame \<Rightarrow> unit phase_result" where
  "validateCbor f =
     (if fFrameType f \<in> {TypeData, TypePing, TypePong} then Ok ()
      else if fFrameType f \<in> {TypeHandshake, TypeRPCRequest, TypeRPCResponse, TypeClose, TypeError} then
        if length (fPayload f) = 0 then Ok ()
        else (case CheckCanonical (fPayload f) of
            Ok _ \<Rightarrow> Ok ()
          | Err e \<Rightarrow> Err (NewPipelineError Phase6DecodeCbor err_SerializationError True
              (''CBOR decode error: '' @ cbor_error_msg e))
          | Panic \<Rightarrow> Panic)
      else Ok ())"

definition validateTranscriptState :: "PipelineContext \<Rightarrow> frame \<Rightarrow> unit phase_result" where
  "validateTranscriptState c f =
     (if fFrameType f = TypeHandshake \<and> \<not> TranscriptStateValid c
      then Err (NewPipelineError Phase9ValidateTranscript err_HandshakeFailed True
        ''transcript state invalid for handshake frame'')
      else Ok ())"

definition verifySignatures :: "PipelineContext \<Rightarrow> frame \<Rightarrow> unit phase_result" where
  "verifySignatures c f =
     (if \<not> SignatureVerified c
      then Err (NewPipelineError Phase10VerifySignatures err_InvalidSignature True
        ''signature verification failed'')
      else Ok ())"

definition verifyAgentId :: "PipelineContext \<Rightarrow> frame \<Rightarrow> unit phase_result" where
  "verifyAgentId c f =
     (if \<not> AgentIDVerified c
      then Err (NewPipelineError Phase11VerifyAgentId err_InvalidAgentId True
        ''agent ID does not match public key hash'')
      else Ok ())"

definition verifySessionState :: "PipelineContext \<Rightarrow> frame \<Rightarrow> unit phase_result" where
  "verifySessionState c f =
     (if \<not> SessionStateValid c (fFrameType f)
      then Err (NewPipelineError Phase12VerifySessionState err_ProtocolViolation True
        ''session state invalid for this frame type'')
      else Ok ())"

definition verifyAuthorization :: "PipelineContext \<Rightarrow> frame \<Rightarrow> unit phase_result" where
  "verifyAuthorization c f =
     (if \<not> Authorized c (fFrameType f)
      then Err (NewPipelineError Phase13VerifyAuthorization err_Unauthorized True
        ''peer not authorized for this action'')
      else Ok ())"

definition verifyRequiredCapabilities :: "PipelineContext \<Rightarrow> frame \<Rightarrow> unit phase_result" where
  "verifyRequiredCapabilities c f =
     (if \<not> CapabilitiesSufficient c (fFrameType f)
      then Err (NewPipelineError Phase14VerifyCapabilities err_InsufficientCapability True
        ''peer lacks required capabilities'')
      else Ok ())"

definition decodeExtensions :: "frame \<Rightarrow> Extension list phase_result" where
  "decodeExtensions f =
     (if length (fExtensions f) = 0 then Ok []
      else if fFrameType f = TypeHandshake
      then Err (NewPipelineError Phase15DecodeExtensions err_ProtocolViolation True
        ''HANDSHAKE frames MUST NOT carry frame extensions'')
      else (case frameext_Decode (fExtensions f) of
          Ok exts \<Rightarrow> Ok exts
        | Err e \<Rightarrow> Err (NewPipelineError Phase15DecodeExtensions err_MalformedFrame True
            (''extension decode error: '' @ frameext_error_msg e))
        | Panic \<Rightarrow> Panic))"

primrec checkUnknownCritical :: "PipelineContext \<Rightarrow> Extension list \<Rightarrow> unit phase_result" where
  "checkUnknownCritical c [] = Ok ()"
| "checkUnknownCritical c (ext # exts) =
     (if Critical ext \<and> \<not> KnownExtensionTypes c (ExtType ext)
      then Err (NewPipelineError Phase16CheckUnknownCritical err_UnknownCriticalExtension True
        (''unknown critical extension: 0x'' @ fmt_X 4 (unat (ExtType ext))))
      else checkUnknownCritical c exts)"

primrec checkNonNegotiated :: "PipelineContext \<Rightarrow> Extension list \<Rightarrow> unit phase_result" where
  "checkNonNegotiated c [] = Ok ()"
| "checkNonNegotiated c (ext # exts) =
     (if \<not> NegotiatedExtensionTypes c (ExtType ext) \<and> KnownExtensionTypes c (ExtType ext)
      then Err (NewPipelineError Phase17CheckNonNegotiated err_InvalidFlags True
        (''non-negotiated extension: 0x'' @ fmt_X 4 (unat (ExtType ext))))
      else checkNonNegotiated c exts)"

text \<open>Phase 18: the loop, with the two counters and the application's state.\<close>

fun extension_loop ::
  "'s FrameProcessingPipeline \<Rightarrow> Extension list \<Rightarrow> nat \<Rightarrow> nat \<Rightarrow> 's \<Rightarrow> (nat \<times> nat) phase_result \<times> 's" where
  "extension_loop p [] callbackCount ignoredCount s = (Ok (callbackCount, ignoredCount), s)"
| "extension_loop p (ext # exts) callbackCount ignoredCount s =
     (if \<not> NegotiatedExtensionTypes (ctx p) (ExtType ext)
      then extension_loop p exts callbackCount (ignoredCount + 1) s
      else (case find (\<lambda>c. ExtensionType c = ExtType ext) (callbacks p) of
          Some cb \<Rightarrow> (case Process cb (Data ext) s of
              (Ok _, s') \<Rightarrow> extension_loop p exts (callbackCount + 1) ignoredCount s'
            | (Err e, s') \<Rightarrow> (Err (NewPipelineError Phase18ProcessExtensionSemantics
                err_ProtocolViolation True (''extension callback error: '' @ e)), s')
            | (Panic, s') \<Rightarrow> (Panic, s'))
        | None \<Rightarrow> extension_loop p exts callbackCount (ignoredCount + 1) s))"

definition processExtensionSemantics ::
  "'s FrameProcessingPipeline \<Rightarrow> Extension list \<Rightarrow> 's \<Rightarrow> (nat \<times> nat) phase_result \<times> 's" where
  "processExtensionSemantics p exts s = extension_loop p exts 0 0 s"

definition validateFinalState :: "frame \<Rightarrow> unit phase_result" where
  "validateFinalState f = Ok ()"

text \<open>
  \<open>Process\<close>: phases 1 to 17 run before any callback, so they are one computation without the
  application's state; phase 18 runs the callbacks.
\<close>

definition processUpTo17 ::
  "'s FrameProcessingPipeline \<Rightarrow> bytes \<Rightarrow> (frame \<times> Extension list) phase_result" where
  "processUpTo17 p data =
     obind (validateFrameHeader data) (\<lambda>header.
     obind (validateLengths header) (\<lambda>_.
     obind (rejectOversizedBeforeAllocation header) (\<lambda>_.
     obind (readFrame data) (\<lambda>(f, _).
     obind (validateCbor f) (\<lambda>_.
     obind (validateTranscriptState (ctx p) f) (\<lambda>_.
     obind (verifySignatures (ctx p) f) (\<lambda>_.
     obind (verifyAgentId (ctx p) f) (\<lambda>_.
     obind (verifySessionState (ctx p) f) (\<lambda>_.
     obind (verifyAuthorization (ctx p) f) (\<lambda>_.
     obind (verifyRequiredCapabilities (ctx p) f) (\<lambda>_.
     obind (decodeExtensions f) (\<lambda>parsedExts.
     obind (checkUnknownCritical (ctx p) parsedExts) (\<lambda>_.
     obind (checkNonNegotiated (ctx p) parsedExts) (\<lambda>_.
     Ok (f, parsedExts)))))))))))))))"

definition process ::
  "'s FrameProcessingPipeline \<Rightarrow> bytes \<Rightarrow> 's \<Rightarrow> ProcessedFrame phase_result \<times> 's" where
  "process p data s =
     (case processUpTo17 p data of
        Err e \<Rightarrow> (Err e, s)
      | Panic \<Rightarrow> (Panic, s)
      | Ok (f, parsedExts) \<Rightarrow>
          (case processExtensionSemantics p parsedExts s of
             (Err e, s') \<Rightarrow> (Err e, s')
           | (Panic, s') \<Rightarrow> (Panic, s')
           | (Ok (callbackCount, ignoredCount), s') \<Rightarrow>
               (obind (validateFinalState f) (\<lambda>_.
                  Ok \<lparr>pFrame = f, pExtensions = parsedExts, ExtensionCallbackCount = callbackCount,
                     ExtensionsIgnored = ignoredCount\<rparr>), s')))"

end
