(* ===== verification/Pipeline_Properties.thy ===== *)
theory Pipeline_Properties
  imports Pipeline
begin

text \<open>
  Correctness of package \<open>pipeline\<close>. The specification is a list of checks, one per phase in the
  order of the protocol; the pipeline reports exactly the first check that fails, and the
  callbacks of phase 18 run only when all of them hold.
\<close>

section \<open>Specification\<close>

definition auth_ok :: "PipelineContext \<Rightarrow> frame \<Rightarrow> bool" where
  "auth_ok c f \<longleftrightarrow> (fFrameType f = TypeHandshake \<longrightarrow> TranscriptStateValid c) \<and> SignatureVerified c \<and>
     AgentIDVerified c \<and> SessionStateValid c (fFrameType f) \<and> Authorized c (fFrameType f) \<and>
     CapabilitiesSufficient c (fFrameType f)"

definition cbor_types :: "byte set" where
  "cbor_types = {TypeHandshake, TypeRPCRequest, TypeRPCResponse, TypeClose, TypeError}"

definition cbor_ok :: "frame \<Rightarrow> bool" where
  "cbor_ok f \<longleftrightarrow>
     (fFrameType f \<in> cbor_types \<and> fPayload f \<noteq> [] \<longrightarrow> CheckCanonical (fPayload f) = Ok ())"

text \<open>The extensions a frame carries, when its extension section is well formed.\<close>

definition exts_of :: "frame \<Rightarrow> Extension list option" where
  "exts_of f = (if fExtensions f = [] then Some []
     else if fFrameType f = TypeHandshake then None
     else (case frameext_Decode (fExtensions f) of Ok exts \<Rightarrow> Some exts | _ \<Rightarrow> None))"

definition exts_known :: "PipelineContext \<Rightarrow> Extension list \<Rightarrow> bool" where
  "exts_known c exts \<longleftrightarrow> (\<forall>e \<in> set exts. Critical e \<longrightarrow> KnownExtensionTypes c (ExtType e))"

definition exts_negotiated :: "PipelineContext \<Rightarrow> Extension list \<Rightarrow> bool" where
  "exts_negotiated c exts \<longleftrightarrow>
     (\<forall>e \<in> set exts. KnownExtensionTypes c (ExtType e) \<longrightarrow> NegotiatedExtensionTypes c (ExtType e))"

definition header_ok :: "bytes \<Rightarrow> bool" where
  "header_ok data \<longleftrightarrow> HeaderSize \<le> length data \<and> data ! 0 = frame_Version \<and> data ! 3 = 0"

text \<open>The lengths as the header phases see them: converted to a signed \<open>int\<close>.\<close>

definition lengths_ok :: "bytes \<Rightarrow> bool" where
  "lengths_ok data \<longleftrightarrow> int_of_u64 (Uint64 (drop 12 data)) \<le> int MaxPayloadSize \<and>
     int_of_u64 (Uint64 (drop 20 data)) \<le> int MaxExtensionSize"

definition phase_checks :: "PipelineContext \<Rightarrow> bytes \<Rightarrow> (PipelinePhase \<times> bool) list" where
  "phase_checks c data =
     (let f = frame_of data; exts = the (exts_of f) in
      [(Phase1ValidateHeader, header_ok data),
       (Phase2ValidateLengths, lengths_ok data),
       (Phase3RejectOversized, lengths_ok data),
       (Phase4ReadPayload, is_Ok (frame_Decode data)),
       (Phase6DecodeCbor, cbor_ok f),
       (Phase9ValidateTranscript, fFrameType f = TypeHandshake \<longrightarrow> TranscriptStateValid c),
       (Phase10VerifySignatures, SignatureVerified c),
       (Phase11VerifyAgentId, AgentIDVerified c),
       (Phase12VerifySessionState, SessionStateValid c (fFrameType f)),
       (Phase13VerifyAuthorization, Authorized c (fFrameType f)),
       (Phase14VerifyCapabilities, CapabilitiesSufficient c (fFrameType f)),
       (Phase15DecodeExtensions, exts_of f \<noteq> None),
       (Phase16CheckUnknownCritical, exts_known c exts),
       (Phase17CheckNonNegotiated, exts_negotiated c exts)])"

definition first_failing :: "('p \<times> bool) list \<Rightarrow> 'p option" where
  "first_failing checks = map_option fst (find (\<lambda>(p, ok). \<not> ok) checks)"

lemma first_failing_simps [simp]:
  "first_failing [] = None"
  "first_failing ((p, ok) # checks) = (if ok then first_failing checks else Some p)"
  by (simp_all add: first_failing_def)

lemma first_failing_None: "first_failing checks = None \<longleftrightarrow> (\<forall>(p, ok) \<in> set checks. ok)"
  by (induction checks) (auto split: if_splits)

section \<open>The pipeline stops at the first failing check\<close>

text \<open>A computation agrees with a list of checks if it fails in the first failing phase, or returns.\<close>

definition agrees :: "'a phase_result \<Rightarrow> (PipelinePhase \<times> bool) list \<Rightarrow> 'a \<Rightarrow> bool" where
  "agrees m checks a \<longleftrightarrow> (case first_failing checks of
      None \<Rightarrow> m = Ok a | Some ph \<Rightarrow> \<exists>e. m = Err e \<and> Phase e = ph)"

lemma agrees_Nil: "agrees (Ok a) [] a"
  by (simp add: agrees_def)

lemma agrees_bind:
  assumes "ok \<Longrightarrow> m = Ok x" and "\<not> ok \<Longrightarrow> \<exists>e. m = Err e \<and> Phase e = ph"
    and "ok \<Longrightarrow> agrees (g x) checks a"
  shows "agrees (obind m g) ((ph, ok) # checks) a"
  using assms by (cases ok) (auto simp: agrees_def)

lemma checkUnknownCritical_eq:
  "exts_known c exts \<Longrightarrow> checkUnknownCritical c exts = Ok ()"
  "\<not> exts_known c exts \<Longrightarrow> \<exists>e. checkUnknownCritical c exts = Err e \<and> Phase e = Phase16CheckUnknownCritical"
  by (induction exts) (auto simp: exts_known_def NewPipelineError_def)

lemma checkNonNegotiated_eq:
  "exts_negotiated c exts \<Longrightarrow> checkNonNegotiated c exts = Ok ()"
  "\<not> exts_negotiated c exts \<Longrightarrow> \<exists>e. checkNonNegotiated c exts = Err e \<and> Phase e = Phase17CheckNonNegotiated"
  by (induction exts) (auto simp: exts_negotiated_def NewPipelineError_def)

lemma frameext_Decode_not_Panic [simp]: "frameext_Decode d \<noteq> Panic"
  by (simp add: frameext_Decode_def decode_exts_not_Panic)

lemma frame_Decode_not_Panic [simp]: "fits_int data \<Longrightarrow> frame_Decode data \<noteq> Panic"
  by (simp add: frame_Decode_eq)

lemma decodeExtensions_eq:
  "exts_of f \<noteq> None \<Longrightarrow> decodeExtensions f = Ok (the (exts_of f))"
  "\<not> exts_of f \<noteq> None \<Longrightarrow> \<exists>e. decodeExtensions f = Err e \<and> Phase e = Phase15DecodeExtensions"
  using frameext_Decode_not_Panic [of "fExtensions f"]
  by (auto simp: decodeExtensions_def exts_of_def NewPipelineError_def split: outcome.splits if_splits)

lemma validateCbor_cases:
  "validateCbor f =
     (if fFrameType f \<in> cbor_types \<and> \<not> length (fPayload f) = 0
      then (case CheckCanonical (fPayload f) of
          Ok _ \<Rightarrow> Ok ()
        | Err e \<Rightarrow> Err (NewPipelineError Phase6DecodeCbor err_SerializationError True
            (''CBOR decode error: '' @ cbor_error_msg e))
        | Panic \<Rightarrow> Panic)
      else Ok ())"
proof -
  have disj: "{TypeData, TypePing, TypePong} \<inter> cbor_types = {}"
    by (simp add: frame_consts cbor_types_def)
  have gen: "(if x \<in> A then z else if x \<in> B then if P then z else y else z) = (if x \<in> B \<and> \<not> P then y else z)"
    if "A \<inter> B = {}" for x :: byte and A B P and y z :: "unit phase_result"
    using that by auto
  show ?thesis
    unfolding validateCbor_def cbor_types_def [symmetric] by (rule gen [OF disj])
qed

lemma validateCbor_eq:
  "cbor_ok f \<Longrightarrow> validateCbor f = Ok ()"
  "\<not> cbor_ok f \<Longrightarrow> validateCbor f \<noteq> Panic \<Longrightarrow>
     \<exists>e. validateCbor f = Err e \<and> Phase e = Phase6DecodeCbor"
proof -
  show "validateCbor f = Ok ()" if "cbor_ok f"
    using that unfolding cbor_ok_def validateCbor_cases length_0_conv by simp
  show "\<exists>e. validateCbor f = Err e \<and> Phase e = Phase6DecodeCbor"
    if bad: "\<not> cbor_ok f" "validateCbor f \<noteq> Panic"
  proof -
    obtain e where "CheckCanonical (fPayload f) = Err e"
      using bad unfolding cbor_ok_def validateCbor_cases length_0_conv
      by (cases "CheckCanonical (fPayload f)") simp_all
    with bad(1) show ?thesis
      unfolding cbor_ok_def validateCbor_cases length_0_conv by (simp add: NewPipelineError_def)
  qed
qed

lemma readFrame_eq:
  assumes "fits_int data"
  shows "is_Ok (frame_Decode data) \<Longrightarrow> readFrame data = Ok (frame_of data, frame_len data)"
    and "\<not> is_Ok (frame_Decode data) \<Longrightarrow> \<exists>e. readFrame data = Err e \<and> Phase e = Phase4ReadPayload"
  using frame_Decode_not_Panic [OF assms] frame_Decode_Ok(2,4) [OF _ assms]
  by (auto simp: readFrame_def NewPipelineError_def Let_def is_Ok_iff split: outcome.splits prod.splits)

lemma validateFrameHeader_eq:
  "header_ok data \<Longrightarrow> validateFrameHeader data = Ok \<lparr>hVersion = data ! 0, hFrameType = data ! 1,
     hFlags = data ! 2, hReserved = data ! 3, hStreamID = Uint64 (drop 4 data),
     hPayloadLen = int_of_u64 (Uint64 (drop 12 data)), hExtLen = int_of_u64 (Uint64 (drop 20 data))\<rparr>"
  "\<not> header_ok data \<Longrightarrow> \<exists>e. validateFrameHeader data = Err e \<and> Phase e = Phase1ValidateHeader"
  by (auto simp: validateFrameHeader_def header_ok_def NewPipelineError_def)

lemmas length_phases = validateLengths_def rejectOversizedBeforeAllocation_def lengths_ok_def
  NewPipelineError_def

lemmas auth_phases = validateTranscriptState_def verifySignatures_def verifyAgentId_def
  verifySessionState_def verifyAuthorization_def verifyRequiredCapabilities_def NewPipelineError_def

lemma processUpTo17_agrees:
  assumes "fits_int data" and "validateCbor (frame_of data) \<noteq> Panic"
  shows "agrees (processUpTo17 p data) (phase_checks (ctx p) data)
    (frame_of data, the (exts_of (frame_of data)))"
  unfolding processUpTo17_def phase_checks_def Let_def
  apply (rule agrees_bind, erule validateFrameHeader_eq, erule validateFrameHeader_eq)
  apply (rule agrees_bind, simp add: length_phases, force simp: length_phases)
  apply (rule agrees_bind, simp add: length_phases, force simp: length_phases)
  apply (rule agrees_bind, erule readFrame_eq [OF assms(1)], erule readFrame_eq [OF assms(1)])
  apply (unfold split)
  apply (rule agrees_bind, erule validateCbor_eq, erule validateCbor_eq(2) [OF _ assms(2)])
  apply (rule agrees_bind, simp add: auth_phases, simp add: auth_phases)+
  apply (rule agrees_bind, erule decodeExtensions_eq, erule decodeExtensions_eq)
  apply (rule agrees_bind, erule checkUnknownCritical_eq, erule checkUnknownCritical_eq)
  apply (rule agrees_bind, erule checkNonNegotiated_eq, erule checkNonNegotiated_eq)
  apply (rule agrees_Nil)
  done

section \<open>Phase 18: which callbacks run\<close>

text \<open>The callback of an extension: the first registered for its type, if the type is negotiated.\<close>

definition handler :: "'s FrameProcessingPipeline \<Rightarrow> Extension \<Rightarrow> 's ExtensionCallback option" where
  "handler p e = (if NegotiatedExtensionTypes (ctx p) (ExtType e)
     then find (\<lambda>c. ExtensionType c = ExtType e) (callbacks p) else None)"

definition calls :: "'s FrameProcessingPipeline \<Rightarrow> Extension list \<Rightarrow> ('s ExtensionCallback \<times> bytes) list" where
  "calls p exts = map (\<lambda>e. (the (handler p e), Data e)) (filter (\<lambda>e. handler p e \<noteq> None) exts)"

primrec run_calls ::
  "('s ExtensionCallback \<times> bytes) list \<Rightarrow> 's \<Rightarrow> (string, unit) outcome \<times> 's" where
  "run_calls [] s = (Ok (), s)"
| "run_calls (c # cs) s =
     (case Process (fst c) (snd c) s of
        (Ok _, s') \<Rightarrow> run_calls cs s'
      | (Err e, s') \<Rightarrow> (Err e, s')
      | (Panic, s') \<Rightarrow> (Panic, s'))"

definition callback_result ::
  "nat \<Rightarrow> nat \<Rightarrow> (string, unit) outcome \<times> 's \<Rightarrow> (nat \<times> nat) phase_result \<times> 's" where
  "callback_result a b r = (case r of
      (Ok _, s') \<Rightarrow> (Ok (a, b), s')
    | (Err e, s') \<Rightarrow> (Err (NewPipelineError Phase18ProcessExtensionSemantics err_ProtocolViolation True
        (''extension callback error: '' @ e)), s')
    | (Panic, s') \<Rightarrow> (Panic, s'))"

lemma length_calls: "length (calls p exts) \<le> length exts"
  by (simp add: calls_def)

lemma calls_Cons:
  "calls p (e # exts) =
     (case handler p e of None \<Rightarrow> calls p exts | Some cb \<Rightarrow> (cb, Data e) # calls p exts)"
  by (auto simp: calls_def split: option.splits)

lemma extension_loop_eq:
  "extension_loop p exts a b s =
     callback_result (a + length (calls p exts)) (b + (length exts - length (calls p exts)))
       (run_calls (calls p exts) s)"
proof (induction exts arbitrary: a b s)
  case Nil
  show ?case by (simp add: calls_def callback_result_def)
next
  case (Cons e exts)
  show ?case
  proof (cases "handler p e")
    case None
    then have "extension_loop p (e # exts) a b s = extension_loop p exts a (b + 1) s"
      by (auto simp: handler_def split: if_splits)
    with None Cons.IH length_calls [of p exts] show ?thesis by (simp add: calls_Cons Suc_diff_le)
  next
    case (Some cb)
    then have "NegotiatedExtensionTypes (ctx p) (ExtType e)"
      "find (\<lambda>c. ExtensionType c = ExtType e) (callbacks p) = Some cb"
      by (auto simp: handler_def split: if_splits)
    with Some Cons.IH show ?thesis
      by (auto simp: calls_Cons callback_result_def split: outcome.splits prod.splits)
  qed
qed

text \<open>The result of \<open>Process\<close> once every check holds.\<close>

definition delivered :: "'s FrameProcessingPipeline \<Rightarrow> bytes \<Rightarrow> 's \<Rightarrow> ProcessedFrame phase_result \<times> 's" where
  "delivered p data s =
     (let f = frame_of data; exts = the (exts_of f); n = length (calls p exts) in
      case callback_result n (length exts - n) (run_calls (calls p exts) s) of
        (Ok _, s') \<Rightarrow> (Ok \<lparr>pFrame = f, pExtensions = exts, ExtensionCallbackCount = n,
           ExtensionsIgnored = length exts - n\<rparr>, s')
      | (Err e, s') \<Rightarrow> (Err e, s')
      | (Panic, s') \<Rightarrow> (Panic, s'))"

lemma process_delivered:
  assumes "processUpTo17 p data = Ok (frame_of data, the (exts_of (frame_of data)))"
  shows "process p data s = delivered p data s"
  unfolding process_def assms delivered_def processExtensionSemantics_def extension_loop_eq
  by (auto simp: Let_def callback_result_def validateFinalState_def split: outcome.splits prod.splits)

lemma process_first_failing:
  assumes "fits_int data" and "validateCbor (frame_of data) \<noteq> Panic"
  shows "case first_failing (phase_checks (ctx p) data) of
      None \<Rightarrow> process p data s = delivered p data s
    | Some ph \<Rightarrow> \<exists>e. process p data s = (Err e, s) \<and> Phase e = ph"
  using processUpTo17_agrees [OF assms, of p] process_delivered [of p data s]
  by (auto simp: agrees_def process_def split: option.splits)

text \<open>If the first seventeen phases return, every check holds.\<close>

lemma processUpTo17_Ok:
  assumes "processUpTo17 p data = Ok (f, exts)" and "fits_int data"
  shows "first_failing (phase_checks (ctx p) data) = None" and "f = frame_of data"
    and "exts = the (exts_of (frame_of data))"
proof -
  from assms obtain n where f: "readFrame data = Ok (f, n)" and c: "validateCbor f = Ok ()"
    unfolding processUpTo17_def by auto
  have "f = frame_of data"
    using f frame_Decode_Ok(4) [OF _ assms(2)]
    by (auto simp: readFrame_def Let_def split: outcome.splits prod.splits)
  with c have "validateCbor (frame_of data) \<noteq> Panic" by simp
  from processUpTo17_agrees [OF assms(2) this, of p] assms(1)
  show "first_failing (phase_checks (ctx p) data) = None" "f = frame_of data"
    "exts = the (exts_of (frame_of data))"
    by (auto simp: agrees_def split: option.splits)
qed

lemma all_checks:
  assumes "first_failing (phase_checks c data) = None"
  shows "header_ok data" and "is_Ok (frame_Decode data)" and "cbor_ok (frame_of data)"
    and "auth_ok c (frame_of data)" and "exts_of (frame_of data) = Some (the (exts_of (frame_of data)))"
    and "exts_known c (the (exts_of (frame_of data)))" and "exts_negotiated c (the (exts_of (frame_of data)))"
  using assms unfolding first_failing_None phase_checks_def Let_def auth_ok_def by auto

text \<open>The checks are listed in the order of the phases, and all of them come before the callbacks.\<close>

lemma phase_checks_ordered:
  "sorted_wrt (<) (map fst (phase_checks c data))"
  "ph \<in> fst ` set (phase_checks c data) \<Longrightarrow> ph < Phase18ProcessExtensionSemantics"
  by (auto simp: phase_checks_def Let_def phase_order)

lemma first_failing_mem: "first_failing checks = Some ph \<Longrightarrow> ph \<in> fst ` set checks"
  by (induction checks) (auto split: if_splits)

text \<open>An error of a phase before the callbacks leaves the application state untouched.\<close>

lemma early_error_no_effect:
  assumes "fits_int data" and "validateCbor (frame_of data) \<noteq> Panic" and "process p data s = (Err e, s')"
  shows "Phase e < Phase18ProcessExtensionSemantics \<Longrightarrow> s' = s"
    and "first_failing (phase_checks (ctx p) data) = Some ph \<Longrightarrow> Phase e = ph \<and> s' = s"
proof -
  note spec = process_first_failing [OF assms(1,2), of p s]
  show "first_failing (phase_checks (ctx p) data) = Some ph \<Longrightarrow> Phase e = ph \<and> s' = s"
    using spec assms(3) by auto
  assume early: "Phase e < Phase18ProcessExtensionSemantics"
  show "s' = s"
  proof (cases "first_failing (phase_checks (ctx p) data)")
    case None
    with spec assms(3) have "delivered p data s = (Err e, s')" by simp
    then have "Phase e = Phase18ProcessExtensionSemantics"
      by (auto simp: delivered_def callback_result_def Let_def NewPipelineError_def split: outcome.splits prod.splits)
    with early show ?thesis by simp
  qed (use spec assms(3) in auto)
qed

section \<open>Error codes\<close>

lemma no_contains: "c \<in> set pat \<Longrightarrow> c \<notin> set msg \<Longrightarrow> \<not> contains msg pat"
  using contains_set by blast

lemma fmt_d_char: "c \<notin> digits \<Longrightarrow> c \<notin> set (fmt_d n)"
  using fmt_d_digits by blast

lemma fmt_02x_char: "c \<notin> set ''0123456789abcdef'' \<Longrightarrow> c \<notin> set (fmt_02x b)"
proof -
  have "list_all (\<lambda>n. hex_digit n \<in> set ''0123456789abcdef'') [0..<16]"
    by (simp add: upt_rec hex_digit_def char_of_def bit_iff_odd)
  then have hex: "hex_digit n \<in> set ''0123456789abcdef''" if "n < 16" for n
    using that by (simp add: list_all_iff)
  have "unat b div 16 < 16" "unat b mod 16 < 16"
    using unsigned_less [of b, where ?'a = nat] by auto
  moreover assume "c \<notin> set ''0123456789abcdef''"
  ultimately show ?thesis using hex unfolding fmt_02x_def by (metis list.set_intros list.set_cases set_ConsD empty_iff list.set(1))
qed

text \<open>Searching the error texts finds the right class for every error of \<open>frame.Decode\<close>.\<close>

lemma frame_error_class_hit:
  "frame_error_class (frame_error_msg (PayloadTooLarge n)) = (err_FrameTooLarge, False)"
  "frame_error_class (frame_error_msg (ExtensionTooLarge m)) = (err_FrameTooLarge, False)"
proof -
  have "contains (frame_error_msg (PayloadTooLarge n)) ''payload too large''"
    by (rule containsI [where p = "''frame: ''" and r = "'' ('' @ fmt_d n @ '' > 1048576)''"]) simp
  then show "frame_error_class (frame_error_msg (PayloadTooLarge n)) = (err_FrameTooLarge, False)"
    by (simp add: frame_error_class_def del: frame_error_msg.simps)
  have "contains (frame_error_msg (ExtensionTooLarge m)) ''extension section too large''"
    by (rule containsI [where p = "''frame: ''" and r = "'' ('' @ fmt_d m @ '' > 65536)''"]) simp
  then show "frame_error_class (frame_error_msg (ExtensionTooLarge m)) = (err_FrameTooLarge, False)"
    by (simp add: frame_error_class_def del: frame_error_msg.simps)
qed

lemma frame_error_class_version: "frame_error_class (frame_error_msg (BadVersion v)) = (err_InvalidVersion, True)"
proof -
  let ?m = "frame_error_msg (BadVersion v)"
  have "contains ?m ''invalid version''"
    by (rule containsI [where p = "''frame: ''" and r = "'' '' @ fmt_d (unat v) @ '' (expected 1)''"]) simp
  then show ?thesis
    using no_contains [of "CHR ''y''" "''payload too large''" ?m]
      no_contains [of "CHR ''g''" "''extension section too large''" ?m]
    by (simp add: frame_error_class_def fmt_d_char digits_def)
qed

lemma frame_error_class_type:
  "frame_error_class (frame_error_msg (UnknownCriticalType ft)) = (err_UnknownCriticalFrameType, True)"
proof -
  let ?m = "frame_error_msg (UnknownCriticalType ft)"
  have "contains ?m ''unknown critical frame type''"
    by (rule containsI [where p = "''frame: ''" and r = "'' 0x'' @ fmt_02x ft"]) simp
  then show ?thesis
    using no_contains [of "CHR ''g''" "''payload too large''" ?m]
      no_contains [of "CHR ''s''" "''extension section too large''" ?m]
      no_contains [of "CHR ''v''" "''invalid version''" ?m]
    by (simp add: frame_error_class_def fmt_02x_char)
qed

lemma frame_error_class_other:
  "frame_error_class (frame_error_msg (NeedBytes n)) = (err_MalformedFrame, True)"
  "frame_error_class (frame_error_msg (FrameIncomplete n k)) = (err_MalformedFrame, True)"
  using no_contains [of "CHR ''p''" "''payload too large''" "frame_error_msg (NeedBytes n)"]
    no_contains [of "CHR ''x''" "''extension section too large''" "frame_error_msg (NeedBytes n)"]
    no_contains [of "CHR ''i''" "''invalid version''" "frame_error_msg (NeedBytes n)"]
    no_contains [of "CHR ''u''" "''unknown critical frame type''" "frame_error_msg (NeedBytes n)"]
    no_contains [of "CHR ''y''" "''payload too large''" "frame_error_msg (FrameIncomplete n k)"]
    no_contains [of "CHR ''x''" "''extension section too large''" "frame_error_msg (FrameIncomplete n k)"]
    no_contains [of "CHR ''s''" "''invalid version''" "frame_error_msg (FrameIncomplete n k)"]
    no_contains [of "CHR ''u''" "''unknown critical frame type''" "frame_error_msg (FrameIncomplete n k)"]
  by (simp_all add: frame_error_class_def fmt_d_char digits_def)

lemma frame_error_class_msg:
  "frame_error_class (frame_error_msg e) =
     (case e of PayloadTooLarge _ \<Rightarrow> (err_FrameTooLarge, False)
      | ExtensionTooLarge _ \<Rightarrow> (err_FrameTooLarge, False)
      | BadVersion _ \<Rightarrow> (err_InvalidVersion, True)
      | UnknownCriticalType _ \<Rightarrow> (err_UnknownCriticalFrameType, True)
      | _ \<Rightarrow> (err_MalformedFrame, True))"
  by (cases e) (simp_all only: frame_error_class_hit frame_error_class_version frame_error_class_type
      frame_error_class_other frame_error.case, simp add: frame_error_class_def)

text \<open>
  Errors of the phases before the callbacks: their phase is not 18, and exactly the errors about
  oversized frames are not fatal.
\<close>

definition good_error :: "PipelineError \<Rightarrow> bool" where
  "good_error e \<longleftrightarrow> Phase e \<noteq> Phase18ProcessExtensionSemantics \<and>
     (Fatal e \<longleftrightarrow> ErrorCode e \<noteq> err_FrameTooLarge)"

definition errs_good :: "'a phase_result \<Rightarrow> bool" where
  "errs_good m \<longleftrightarrow> (\<forall>e. m = Err e \<longrightarrow> good_error e)"

lemma errs_good_bind: "errs_good m \<Longrightarrow> (\<And>x. errs_good (g x)) \<Longrightarrow> errs_good (obind m g)"
  by (cases m) (auto simp: errs_good_def)

lemmas good_error_eval = errs_good_def good_error_def NewPipelineError_def err_defs

lemma errs_good_phases:
  "errs_good (validateFrameHeader data)" "errs_good (validateLengths h)"
  "errs_good (rejectOversizedBeforeAllocation h)" "errs_good (readFrame data)"
  "errs_good (validateCbor f)" "errs_good (validateTranscriptState c f)"
  "errs_good (verifySignatures c f)" "errs_good (verifyAgentId c f)"
  "errs_good (verifySessionState c f)" "errs_good (verifyAuthorization c f)"
  "errs_good (verifyRequiredCapabilities c f)" "errs_good (decodeExtensions f)"
  "errs_good (Ok x)"
  by (auto simp: validateFrameHeader_def validateLengths_def rejectOversizedBeforeAllocation_def
      readFrame_def validateCbor_cases auth_phases decodeExtensions_def Let_def good_error_eval
      frame_error_class_msg split: outcome.splits frame_error.splits prod.splits)

lemma errs_good_ext_phases:
  "errs_good (checkUnknownCritical c exts)" "errs_good (checkNonNegotiated c exts)"
  by (induction exts) (auto simp: good_error_eval)

lemma processUpTo17_good: "errs_good (processUpTo17 p data)"
  unfolding processUpTo17_def split_beta
  by (intro errs_good_bind errs_good_phases errs_good_ext_phases)

text \<open>The callbacks have run, or a frame is delivered, only after all checks.\<close>

lemma process_effect:
  assumes "process p data s = (r, s')" and "fits_int data"
    and "s' \<noteq> s \<or> is_Ok r \<or> (\<exists>e. r = Err e \<and> ExtensionCallbacksInvoked e)"
  shows "first_failing (phase_checks (ctx p) data) = None" and "process p data s = delivered p data s"
proof -
  have ph: "\<not> ExtensionCallbacksInvoked e" if "processUpTo17 p data = Err e" for e
    using that processUpTo17_good [of p data]
    by (auto simp: errs_good_def good_error_def ExtensionCallbacksInvoked_def)
  have "\<exists>f exts. processUpTo17 p data = Ok (f, exts)"
    using assms(1,3) ph by (cases "processUpTo17 p data") (auto simp: process_def)
  with processUpTo17_Ok [OF _ assms(2), of p] process_delivered [of p data s]
  show "first_failing (phase_checks (ctx p) data) = None" "process p data s = delivered p data s"
    by auto
qed

section \<open>Properties\<close>

text \<open>For the witnesses: an empty PING frame, and a pipeline that counts callback calls.\<close>

definition ping_bytes :: bytes where
  "ping_bytes = [1, 7, 0, 0] @ replicate 24 0"

definition counting_pipeline :: "nat FrameProcessingPipeline" where
  "counting_pipeline = pipeline_New (testing_context DefaultTestingContext)
     [\<lparr>ExtensionType = 1, Process = (\<lambda>_ n. (Ok (), n + 1))\<rparr>]"

lemma ping_fits [simp]: "fits_int ping_bytes"
  by (simp add: fits_int_def ping_bytes_def)


lemma ping_frame: "frame_Decode ping_bytes = Ok (frame_of ping_bytes, 28)"
  by (subst frame_Decode_eq [OF ping_fits]) (simp add: ping_bytes_def payload_len_def ext_len_def frame_len_def
      frame_consts be_get_def IsCriticalUnknownFrameType_def isValidFrameType_def replicate_numeral)

lemma ping_process:
  "process counting_pipeline ping_bytes 5 =
     (Ok \<lparr>pFrame = frame_of ping_bytes, pExtensions = [], ExtensionCallbackCount = 0, ExtensionsIgnored = 0\<rparr>, 5)"
  by (simp add: process_def processUpTo17_def readFrame_def ping_frame validateFrameHeader_def
      length_phases validateCbor_cases cbor_types_def auth_phases decodeExtensions_def
      counting_pipeline_def pipeline_New_def testing_context_def DefaultTestingContext_def
      processExtensionSemantics_def validateFinalState_def)
    (simp add: ping_bytes_def frame_of_def frame_consts ext_len_def payload_len_def be_get_def
      replicate_numeral int_of_u64_def)



text \<open>
  C1: the security invariant: if the application state changed, a frame was delivered or the error
  reports that callbacks ran, then the transcript, signature, agent id, session state, authorization
  and capability checks all passed for this frame, and so did the header, frame and CBOR checks.
\<close>

theorem pipeline_auth_before_extensions:
  assumes "process p data s = (r, s')" and "fits_int data"
    and "s' \<noteq> s \<or> is_Ok r \<or> (\<exists>e. r = Err e \<and> ExtensionCallbacksInvoked e)"
  shows "auth_ok (ctx p) (frame_of data) \<and> header_ok data \<and>
    frame_Decode data = Ok (frame_of data, frame_len data) \<and> cbor_ok (frame_of data)"
proof -
  note checks = all_checks [OF process_effect(1) [OF assms]]
  obtain f n where d: "frame_Decode data = Ok (f, n)" using checks(2) by (auto simp: is_Ok_iff)
  with frame_Decode_Ok [OF d assms(2)] checks show ?thesis by simp
qed

theorem pipeline_auth_before_extensions_witness:
  "auth_ok (ctx counting_pipeline) (frame_of ping_bytes) \<and> header_ok ping_bytes \<and>
   frame_Decode ping_bytes = Ok (frame_of ping_bytes, frame_len ping_bytes) \<and> cbor_ok (frame_of ping_bytes)"
  by (rule pipeline_auth_before_extensions [OF ping_process]) simp_all

text \<open>
  C23: what a delivered frame guarantees: it is the frame of the input, every critical extension is
  known, every known extension is negotiated, callbacks ran for exactly the extensions with a
  handler, and the two counters account for every extension.
\<close>

theorem pipeline_delivery:
  assumes "process p data s = (Ok pf, s')" and "fits_int data"
  shows "pFrame pf = frame_of data \<and> exts_of (frame_of data) = Some (pExtensions pf) \<and>
    exts_known (ctx p) (pExtensions pf) \<and> exts_negotiated (ctx p) (pExtensions pf) \<and>
    run_calls (calls p (pExtensions pf)) s = (Ok (), s') \<and>
    ExtensionCallbackCount pf = length (calls p (pExtensions pf)) \<and>
    ExtensionCallbackCount pf + ExtensionsIgnored pf = length (pExtensions pf)"
proof -
  have ok: "s' \<noteq> s \<or> is_Ok (Ok pf) \<or> (\<exists>e. Ok pf = Err e \<and> ExtensionCallbacksInvoked e)" by simp
  note effect = process_effect [OF assms ok]
  show ?thesis
    using effect(2) assms(1) all_checks(5-7) [OF effect(1)] length_calls [of p "the (exts_of (frame_of data))"]
    by (auto simp: delivered_def callback_result_def Let_def split: outcome.splits prod.splits)
qed

theorem pipeline_delivery_witness:
  "exts_of (frame_of ping_bytes) = Some [] \<and> run_calls (calls counting_pipeline []) 5 = (Ok (), 5)"
  using pipeline_delivery [OF ping_process] by simp

text \<open>
  Error codes and fatality agree: an error is fatal exactly when its code is not
  \<open>FrameTooLarge\<close>; in particular every always-fatal code of the registry is reported as fatal.
\<close>

lemma pipeline_fatality:
  assumes "process p data s = (Err e, s')"
  shows "(Fatal e \<longleftrightarrow> ErrorCode e \<noteq> err_FrameTooLarge) \<and> (IsAlwaysFatal (ErrorCode e) \<longrightarrow> Fatal e)"
proof -
  have "Fatal e \<longleftrightarrow> ErrorCode e \<noteq> err_FrameTooLarge"
  proof (cases "processUpTo17 p data")
    case (Ok r)
    with assms show ?thesis
      by (auto simp: process_def processExtensionSemantics_def extension_loop_eq callback_result_def
          NewPipelineError_def err_defs validateFinalState_def split: outcome.splits prod.splits)
  next
    case (Err e')
    with assms processUpTo17_good [of p data] show ?thesis
      by (auto simp: process_def errs_good_def good_error_def)
  next
    case Panic
    with assms show ?thesis by (simp add: process_def)
  qed
  then show ?thesis by (auto simp: IsAlwaysFatal_def err_defs)
qed

text \<open>
  C28: oversized lengths never get past phase 4: a header that declares more than the limits, also one
  whose length wraps to a negative \<open>int\<close> and so slips past phases 2 and 3, is rejected with the
  non-fatal code \<open>FrameTooLarge\<close> and the application state untouched.
\<close>

theorem pipeline_oversized_rejected:
  assumes "fits_int data" and "header_ok data"
    and "payload_len data > MaxPayloadSize \<or> ext_len data > MaxExtensionSize"
  shows "\<exists>e. process p data s = (Err e, s) \<and> ErrorCode e = err_FrameTooLarge \<and> \<not> Fatal e \<and>
    Phase e = (if lengths_ok data then Phase4ReadPayload else Phase2ValidateLengths)"
proof -
  note h = validateFrameHeader_eq(1) [OF assms(2)]
  obtain e0 n where e0: "frame_Decode data = Err e0" "e0 = PayloadTooLarge n \<or> e0 = ExtensionTooLarge n"
    using assms unfolding frame_Decode_eq [OF assms(1)] header_ok_def
    by (cases "payload_len data > MaxPayloadSize") (auto simp: not_less)
  then have "frame_error_class (frame_error_msg e0) = (err_FrameTooLarge, False)"
    unfolding frame_error_class_msg by auto
  with e0 have r: "\<exists>e. readFrame data = Err e \<and> ErrorCode e = err_FrameTooLarge \<and> \<not> Fatal e \<and> Phase e = Phase4ReadPayload"
    by (simp add: readFrame_def Let_def NewPipelineError_def del: frame_error_msg.simps)
  show ?thesis
  proof (cases "lengths_ok data")
    case True
    with r h show ?thesis
      by (auto simp: process_def processUpTo17_def length_phases)
  next
    case False
    with h show ?thesis
      by (auto simp: process_def processUpTo17_def length_phases)
  qed
qed

theorem pipeline_oversized_rejected_witness:
  "\<exists>e. process counting_pipeline ([1, 7, 0, 0] @ replicate 16 0xff @ replicate 8 0) 0 = (Err e, 0) \<and>
     ErrorCode e = err_FrameTooLarge \<and> \<not> Fatal e \<and> Phase e = Phase4ReadPayload"
proof -
  let ?d = "[1, 7, 0, 0] @ replicate 16 0xff @ replicate 8 0 :: bytes"
  have d: "?d = [1, 7, 0, 0, 0xff, 0xff, 0xff, 0xff, 0xff, 0xff, 0xff, 0xff, 0xff, 0xff, 0xff, 0xff,
      0xff, 0xff, 0xff, 0xff, 0, 0, 0, 0, 0, 0, 0, 0]" by (simp add: replicate_numeral)
  have "fits_int ?d" "header_ok ?d" "payload_len ?d > MaxPayloadSize" "lengths_ok ?d"
    unfolding d by (simp_all add: fits_int_def header_ok_def payload_len_def lengths_ok_def frame_consts
        be_get_def int_of_u64_def)
  then show ?thesis using pipeline_oversized_rejected [of ?d counting_pipeline 0] by simp
qed

text \<open>An RPC request frame whose payload is a byte string head with a length of \<open>2 ^ 64 - 1\<close>.\<close>

definition crash_frame :: bytes where
  "crash_frame = [1, 3, 0, 0, 0, 0, 0, 0, 0, 0, 0, 0, 0, 0, 0, 0, 0, 0, 0, 9, 0, 0, 0, 0, 0, 0, 0, 0,
      0x5b, 0xff, 0xff, 0xff, 0xff, 0xff, 0xff, 0xff, 0xff]"

text \<open>
  C29: a frame of 37 bytes crashes the receiver before any authentication: on its payload
  \<open>CheckCanonical\<close> slices out of range. It does so whatever the context answers.
\<close>

theorem pipeline_unauthenticated_panic:
  "length crash_frame = 37 \<and> process p crash_frame s = (Panic, s)"
proof -
  let ?pl = "[0x5b, 0xff, 0xff, 0xff, 0xff, 0xff, 0xff, 0xff, 0xff] :: bytes"
  have len: "payload_len crash_frame = 9" "ext_len crash_frame = 0" "length crash_frame = 37"
    by (simp_all add: crash_frame_def payload_len_def ext_len_def be_get_def)
  have hd: "crash_frame ! 0 = 1" "crash_frame ! 1 = 3" "crash_frame ! 2 = 0" "crash_frame ! 3 = 0"
    by (simp_all add: crash_frame_def)
  have fit: "fits_int crash_frame" by (simp add: fits_int_def len)
  have ok: "header_ok crash_frame" "lengths_ok crash_frame"
    by (simp_all add: header_ok_def lengths_ok_def hd len frame_consts)
      (simp_all add: crash_frame_def be_get_def int_of_u64_def)
  have dec: "frame_Decode crash_frame = Ok (frame_of crash_frame, 37)"
    unfolding frame_Decode_eq [OF fit]
    by (simp add: len hd frame_len_def frame_consts IsCriticalUnknownFrameType_def isValidFrameType_def)
  have ft: "fFrameType (frame_of crash_frame) = 3" by (simp add: frame_of_def crash_frame_def)
  have pl: "fPayload (frame_of crash_frame) = ?pl"
    unfolding frame_of_def len by (simp add: crash_frame_def HeaderSize_def)
  have "CheckCanonical ?pl = Panic" by (simp add: go_eval del: obind_eq_Ok)
  then have "validateCbor (frame_of crash_frame) = Panic"
    unfolding validateCbor_cases ft pl by (simp add: cbor_types_def frame_consts)
  with ok dec len(3) show ?thesis
    by (simp add: process_def processUpTo17_def readFrame_def validateFrameHeader_eq length_phases)
qed

end
