(* ===== verification/Go_Fmt.thy ===== *)
theory Go_Fmt
  imports Go_Prelude
begin

text \<open>
  The verbs of package \<open>fmt\<close> that the error texts use beyond \<open>%d\<close> and \<open>%02x\<close> of the prelude:
  signed integers, upper-case hexadecimal bytes, byte slices under \<open>%v\<close>, and durations, which
  \<open>time.Duration\<close> prints through its \<open>String\<close> method. Texts hold the bytes of their UTF-8 encoding.
\<close>

section \<open>Integers and bytes\<close>

definition fmt_i :: "int \<Rightarrow> string" where
  "fmt_i n = (if n < 0 then ''-'' @ fmt_d (nat (- n)) else fmt_d (nat n))"

definition hex_digit_upper :: "nat \<Rightarrow> char" where
  "hex_digit_upper n = (if n < 10 then char_of (48 + n) else char_of (55 + n))"

definition fmt_02X :: "byte \<Rightarrow> string" where
  "fmt_02X b = [hex_digit_upper (unat b div 16), hex_digit_upper (unat b mod 16)]"

primrec join :: "string \<Rightarrow> string list \<Rightarrow> string" where
  "join sep [] = ''''"
| "join sep (s # ss) = s @ concat (map (\<lambda>t. sep @ t) ss)"

definition fmt_v_bytes :: "byte list \<Rightarrow> string" where
  "fmt_v_bytes bs = ''['' @ join '' '' (map (\<lambda>b. fmt_d (unat b)) bs) @ '']''"

section \<open>Durations\<close>

text \<open>
  \<open>fmtFrac\<close> writes the \<open>prec\<close> low digits of \<open>v\<close> as a decimal fraction, without trailing zeros and
  without the point when there is none left, and returns the rest of \<open>v\<close>.
\<close>

fun fmtFrac_loop :: "nat \<Rightarrow> nat \<Rightarrow> bool \<Rightarrow> string \<Rightarrow> string \<times> nat" where
  "fmtFrac_loop 0 v pr buf = ((if pr then ''.'' @ buf else buf), v)"
| "fmtFrac_loop (Suc prec) v pr buf =
     (let digit = v mod 10; pr' = (pr \<or> digit \<noteq> 0) in
      fmtFrac_loop prec (v div 10) pr' (if pr' then char_of (48 + digit) # buf else buf))"

definition fmtFrac :: "nat \<Rightarrow> nat \<Rightarrow> string \<times> nat" where
  "fmtFrac v prec = fmtFrac_loop prec v False ''''"

definition microsecond :: nat where "microsecond = 1000"
definition millisecond :: nat where "millisecond = 1000000"

definition duration_abs :: "nat \<Rightarrow> string" where
  "duration_abs u =
     (if u < 1000 * millisecond then
        if u = 0 then ''0s''
        else let (prec, unit) = (if u < microsecond then (0, ''ns'')
                   else if u < millisecond then (3, [CHR 0xC2, CHR 0xB5, CHR ''s'']) else (6, ''ms''));
                 (frac, v) = fmtFrac u prec in fmt_d v @ frac @ unit
      else let (frac, s) = fmtFrac u 9; m = s div 60 in
        (if m > 0 then (if m div 60 > 0 then fmt_d (m div 60) @ ''h'' else '''') @ fmt_d (m mod 60) @ ''m'' else '''')
        @ fmt_d (s mod 60) @ frac @ ''s'')"

definition duration_String :: "int \<Rightarrow> string" where
  "duration_String d = (if d < 0 then ''-'' else '''') @ duration_abs (nat \<bar>d\<bar>)"

lemma fmtFrac_loop_whole: "fmtFrac_loop prec (10 ^ prec * s) False '''' = ('''', s)"
  by (induction prec) (simp_all add: Let_def mult.assoc)

text \<open>A duration of whole seconds prints as hours, minutes and seconds, without a fraction.\<close>

lemma duration_seconds:
  assumes "0 < s"
  shows "duration_String (int s * second) =
    (if s div 60 > 0 then (if s div 3600 > 0 then fmt_d (s div 3600) @ ''h'' else '''') @ fmt_d (s div 60 mod 60) @ ''m''
     else '''') @ fmt_d (s mod 60) @ ''s''"
proof -
  have u: "nat \<bar>int s * second\<bar> = 10 ^ 9 * s" by (simp add: second_def nat_mult_distrib)
  have "fmtFrac (10 ^ 9 * s) 9 = ('''', s)" unfolding fmtFrac_def by (rule fmtFrac_loop_whole)
  moreover have "\<not> 10 ^ 9 * s < 1000 * millisecond" using assms by (simp add: millisecond_def)
  moreover have "\<not> int s * second < 0" by (simp add: second_def)
  ultimately show ?thesis
    unfolding duration_String_def u duration_abs_def by (simp add: div_mult2_eq [symmetric])
qed

end
