(* ===== verification/Go_Quote.thy ===== *)
theory Go_Quote
  imports Go_Utf8 Go_Fmt
begin

text \<open>
  The verb \<open>%q\<close> for strings (\<open>strconv.Quote\<close>). Which runes above U+00FF are printable is a table of
  the Unicode standard and an argument; below, \<open>strconv.IsPrint\<close> decides by two ranges.
\<close>

definition IsPrint :: "(nat \<Rightarrow> bool) \<Rightarrow> nat \<Rightarrow> bool" where
  "IsPrint tab r \<longleftrightarrow> (if r \<le> 0xFF then 0x20 \<le> r \<and> r < 0x7F \<or> 0xA1 \<le> r \<and> r \<noteq> 0xAD else tab r)"

primrec fmt_hex :: "nat \<Rightarrow> nat \<Rightarrow> string" where
  "fmt_hex 0 n = ''''"
| "fmt_hex (Suc w) n = fmt_hex w (n div 16) @ [hex_digit (n mod 16)]"

definition escapes :: "(nat \<times> char) list" where
  "escapes = [(7, CHR ''a''), (8, CHR ''b''), (12, CHR ''f''), (10, CHR ''n''), (13, CHR ''r''), (9, CHR ''t''), (11, CHR ''v'')]"

definition appendEscapedRune :: "(nat \<Rightarrow> bool) \<Rightarrow> nat \<Rightarrow> gostring" where
  "appendEscapedRune tab r =
     (if r = 34 \<or> r = 92 then [92, of_nat r]
      else if IsPrint tab r then encode_rune r
      else case map_of escapes r of Some c \<Rightarrow> 92 # ascii [c]
      | None \<Rightarrow> 92 # ascii (if r < 32 \<or> r = 127 then ''x'' @ fmt_hex 2 r
          else if r < 0x10000 then ''u'' @ fmt_hex 4 r else ''U'' @ fmt_hex 8 r))"

fun quote_loop :: "(nat \<Rightarrow> bool) \<Rightarrow> gostring \<Rightarrow> gostring" where
  "quote_loop tab [] = []"
| "quote_loop tab (b # bs) =
     (case decode_rune (b # bs) of (r, n) \<Rightarrow>
       (if n = 1 \<and> r = RuneError then 92 # ascii (''x'' @ fmt_02x b) else appendEscapedRune tab r)
       @ quote_loop tab (drop (n - 1) bs))"

definition fmt_q :: "(nat \<Rightarrow> bool) \<Rightarrow> gostring \<Rightarrow> gostring" where
  "fmt_q tab s = [34] @ quote_loop tab s @ [34]"

section \<open>No control characters\<close>

text \<open>
  Whatever the string, its quotation holds no control character, so that a message of the peer
  cannot break or forge lines of a log.
\<close>

definition visible :: "byte \<Rightarrow> bool" where
  "visible b \<longleftrightarrow> 32 \<le> unat b \<and> unat b \<noteq> 127"

lemma visible_of_nat: "32 \<le> k \<Longrightarrow> k \<noteq> 127 \<Longrightarrow> k < 256 \<Longrightarrow> visible (of_nat k)"
  by (simp add: visible_def unat_of_nat)

lemma visible_plus:
  "32 \<le> numeral w + k \<Longrightarrow> numeral w + k \<noteq> 127 \<Longrightarrow> numeral w + k < 256 \<Longrightarrow> visible (numeral w + of_nat k)"
  using visible_of_nat [of "numeral w + k"] by simp

lemma visible_hex_digit: "n < 16 \<Longrightarrow> visible (of_char (hex_digit n))"
proof -
  have "list_all (\<lambda>n. visible (of_char (hex_digit n))) [0..<16]"
    by (simp add: upt_rec hex_digit_def visible_def char_of_def of_char_def bit_iff_odd)
  moreover assume "n < 16"
  ultimately show ?thesis by (simp add: list_all_iff)
qed

lemma visible_fmt_hex: "list_all visible (ascii (fmt_hex w n))"
  by (induction w arbitrary: n) (simp_all add: ascii_def visible_hex_digit)

lemma visible_fmt_02x: "list_all visible (ascii (fmt_02x b))"
  using unsigned_less [of b, where ?'a = nat] by (simp add: fmt_02x_def ascii_def visible_hex_digit)

lemma visible_fmt_d: "list_all visible (ascii (fmt_d n))"
  using fmt_d_digits [of n] by (auto simp: list_all_iff ascii_def digits_def visible_def of_char_def)

lemma visible_ascii_iff: "list_all visible (ascii s) \<longleftrightarrow> list_all (\<lambda>c. visible (of_char c)) s"
  by (simp add: ascii_def list_all_iff)

lemma visible_encode_rune:
  assumes "32 \<le> r" and "r \<noteq> 127"
  shows "list_all visible (encode_rune r)"
proof -
  define q where "q = (if RuneLen r = -1 then RuneError else r)"
  have q: "32 \<le> q" "q \<noteq> 127" "q \<le> 0x10FFFF"
    using assms by (auto simp: q_def RuneLen_def RuneError_def)
  have "q div 64 mod 64 < 64" "q mod 64 < 64" "q div 4096 mod 64 < 64" by simp_all
  with q show ?thesis
    unfolding encode_rune_def q_def [symmetric] Let_def
    by (auto intro!: visible_of_nat visible_plus simp: list_all_iff)
qed

lemma visible_escaped: "list_all visible (appendEscapedRune tab r)"
proof -
  have "list_all visible [92, of_nat r]" if "r = 34 \<or> r = 92"
    using that by (auto simp: visible_def)
  moreover have "list_all visible (encode_rune r)" if "IsPrint tab r"
    using that by (intro visible_encode_rune) (auto simp: IsPrint_def split: if_splits)
  moreover have "list_all visible (92 # ascii [c])" if "map_of escapes r = Some c" for c
    using that by (auto simp: escapes_def visible_def ascii_def of_char_def split: if_splits)
  moreover have "list_all visible (92 # ascii (''x'' @ fmt_hex 2 r))" "list_all visible (92 # ascii (''u'' @ fmt_hex 4 r))"
    "list_all visible (92 # ascii (''U'' @ fmt_hex 8 r))"
    using visible_fmt_hex [of _ r] by (simp_all add: visible_def ascii_def of_char_def del: fmt_hex.simps)
  ultimately show ?thesis
    unfolding appendEscapedRune_def by (simp only: split: option.split if_split) blast
qed

lemma fmt_q_visible: "list_all visible (fmt_q tab s)"
proof -
  have "list_all visible (quote_loop tab s)"
  proof (induction tab s rule: quote_loop.induct)
    case (2 tab b bs)
    have "list_all visible (92 # ascii (CHR ''x'' # fmt_02x b))"
      using visible_fmt_02x [of b] by (simp add: visible_def ascii_def of_char_def)
    with 2 show ?case by (auto simp: visible_escaped split: prod.split)
  qed simp
  then show ?thesis by (simp add: fmt_q_def visible_def)
qed

end
