(* ===== verification/Go_Machine.thy ===== *)
theory Go_Machine
  imports Main
begin

text \<open>
  State machines: the protocol's managers are objects whose methods take an event, update the
  object and return an action. A manager is modelled by one step function on events; this theory
  holds what its clients rely on: runs over event lists, reachable states, and four contracts as
  locales (an invariant, a terminal state, an action performed at most once, a simulation), each with the facts
  that follow for whole runs.
\<close>

primrec run :: "('ev \<Rightarrow> 's \<Rightarrow> 'out \<times> 's) \<Rightarrow> 'ev list \<Rightarrow> 's \<Rightarrow> 'out list \<times> 's" where
  "run step [] s = ([], s)"
| "run step (e # es) s =
     (let (a, s1) = step e s; (as, s2) = run step es s1 in (a # as, s2))"

lemma run_Cons [simp]:
  "fst (run step (e # es) s) = fst (step e s) # fst (run step es (snd (step e s)))"
  "snd (run step (e # es) s) = snd (run step es (snd (step e s)))"
  by (simp_all add: Let_def split: prod.split)

declare run.simps(2) [simp del]

inductive reach :: "('ev \<Rightarrow> 's \<Rightarrow> 'out \<times> 's) \<Rightarrow> ('s \<Rightarrow> bool) \<Rightarrow> 's \<Rightarrow> bool" for step init where
  initial: "init s \<Longrightarrow> reach step init s"
| step: "reach step init s \<Longrightarrow> reach step init (snd (step e s))"

lemma run_append:
  "snd (run step (es @ fs) s) = snd (run step fs (snd (run step es s)))"
  "fst (run step (es @ fs) s) = fst (run step es s) @ fst (run step fs (snd (run step es s)))"
  by (induction es arbitrary: s) simp_all

lemma reach_run: "reach step init s \<Longrightarrow> reach step init (snd (run step es s))"
  by (induction es arbitrary: s) (simp_all add: reach.step)

locale invariant =
  fixes step :: "'ev \<Rightarrow> 's \<Rightarrow> 'out \<times> 's" and init :: "'s \<Rightarrow> bool" and inv :: "'s \<Rightarrow> bool"
  assumes inv_init: "init s \<Longrightarrow> inv s"
    and inv_step: "inv s \<Longrightarrow> inv (snd (step e s))"
begin

lemma reach_inv: "reach step init s \<Longrightarrow> inv s"
  by (induction rule: reach.induct) (auto intro: inv_init inv_step)

lemma run_inv: "inv s \<Longrightarrow> inv (snd (run step es s))"
  by (induction es arbitrary: s) (simp_all add: inv_step)

end

text \<open>A terminal state: no event changes it, and the machine answers every event with \<open>quiet\<close>.\<close>

locale terminal = invariant +
  fixes final :: "'s \<Rightarrow> bool" and quiet :: 'out
  assumes final_absorbing: "inv s \<Longrightarrow> final s \<Longrightarrow> step e s = (quiet, s)"
begin

lemma run_final: "inv s \<Longrightarrow> final s \<Longrightarrow> run step es s = (replicate (length es) quiet, s)"
  by (induction es) (simp_all add: final_absorbing prod_eq_iff)

end

text \<open>An action performed at most once: performing it spends the right to perform it.\<close>

locale one_shot = invariant +
  fixes act :: "'out \<Rightarrow> bool" and spent :: "'s \<Rightarrow> bool"
  assumes act_fresh: "inv s \<Longrightarrow> act (fst (step e s)) \<Longrightarrow> \<not> spent s"
    and act_spends: "inv s \<Longrightarrow> act (fst (step e s)) \<Longrightarrow> spent (snd (step e s))"
    and spent_step: "inv s \<Longrightarrow> spent s \<Longrightarrow> spent (snd (step e s))"
begin

lemma run_spent: "inv s \<Longrightarrow> spent s \<Longrightarrow> filter act (fst (run step es s)) = []"
proof (induction es arbitrary: s)
  case (Cons e es)
  then show ?case
    using act_fresh spent_step inv_step by simp blast
qed simp

lemma run_keeps_spent: "inv s \<Longrightarrow> spent s \<Longrightarrow> spent (snd (run step es s))"
  by (induction es arbitrary: s) (simp_all add: inv_step spent_step)

lemma run_act_spent: "inv s \<Longrightarrow> a \<in> set (fst (run step es s)) \<Longrightarrow> act a \<Longrightarrow> spent (snd (run step es s))"
proof (induction es arbitrary: s)
  case (Cons e es)
  then show ?case
    by (cases "a = fst (step e s)") (auto intro: run_keeps_spent inv_step act_spends)
qed simp

lemma run_at_most_once: "inv s \<Longrightarrow> length (filter act (fst (run step es s))) \<le> 1"
proof (induction es arbitrary: s)
  case (Cons e es)
  show ?case
  proof (cases "act (fst (step e s))")
    case True
    then have "filter act (fst (run step es (snd (step e s)))) = []"
      using Cons.prems by (intro run_spent inv_step act_spends)
    with True show ?thesis by simp
  next
    case False
    with Cons show ?thesis by (simp add: inv_step)
  qed
qed simp

end

text \<open>
  Refinement: a machine answers every event as an abstract machine does. The states are related by
  \<open>rel\<close>, which may depend on an index (a budget, a clock) that each event advances; a run is allowed
  while the index can be advanced.
\<close>

primrec advances :: "('ev \<Rightarrow> 'i \<Rightarrow> 'i option) \<Rightarrow> 'ev list \<Rightarrow> 'i \<Rightarrow> 'i option" where
  "advances adv [] i = Some i"
| "advances adv (e # es) i = Option.bind (adv e i) (advances adv es)"

locale simulation =
  fixes step :: "'ev \<Rightarrow> 's \<Rightarrow> 'out \<times> 's" and astep :: "'ev \<Rightarrow> 'a \<Rightarrow> 'out \<times> 'a"
    and rel :: "'i \<Rightarrow> 's \<Rightarrow> 'a \<Rightarrow> bool" and adv :: "'ev \<Rightarrow> 'i \<Rightarrow> 'i option"
  assumes sim_out: "rel i s a \<Longrightarrow> adv e i = Some j \<Longrightarrow> fst (step e s) = fst (astep e a)"
    and sim_rel: "rel i s a \<Longrightarrow> adv e i = Some j \<Longrightarrow> rel j (snd (step e s)) (snd (astep e a))"
begin

lemma run_simulates:
  "rel i s a \<Longrightarrow> advances adv es i = Some j \<Longrightarrow>
   fst (run step es s) = fst (run astep es a) \<and> rel j (snd (run step es s)) (snd (run astep es a))"
proof (induction es arbitrary: i s a)
  case (Cons e es)
  then obtain k where "adv e i = Some k" "advances adv es k = Some j" by (auto simp: Option.bind_eq_Some_conv)
  with Cons.IH [of k "snd (step e s)" "snd (astep e a)"] Cons.prems(1) show ?case
    using sim_out sim_rel by simp
qed simp

end

end
