(* ===== verification/Close_Manager.thy ===== *)
theory Close_Manager
  imports Go_Quote Go_Machine
begin

text \<open>
  Package \<open>closemanager\<close> (\<open>src/closemanager/closemanager.go\<close>): the CLOSE state machine of a
  connection. Times are integers (nanoseconds since a fixed instant), and an operation that reads
  the clock takes its value \<open>now\<close> as an argument. The methods are functions from the manager to
  the action and the new manager; \<open>cm_step\<close> collects them as one step function on events.
\<close>

section \<open>Constants and data\<close>

definition DefaultCloseTimeout :: int where "DefaultCloseTimeout = 5 * second"
definition MinCloseTimeout :: int where "MinCloseTimeout = 1 * second"
definition MaxCloseMessageLen :: nat where "MaxCloseMessageLen = 256"

datatype CloseState = StateOpen | StateLocalCloseSent | StateRemoteCloseReceived
  | StateCloseReceived | StateClosed

primrec CloseState_String :: "CloseState \<Rightarrow> string" where
  "CloseState_String StateOpen = ''Open''"
| "CloseState_String StateLocalCloseSent = ''LocalCloseSent''"
| "CloseState_String StateRemoteCloseReceived = ''RemoteCloseReceived''"
| "CloseState_String StateCloseReceived = ''CloseReceived''"
| "CloseState_String StateClosed = ''Closed''"

definition CloseState_IsTerminal :: "CloseState \<Rightarrow> bool" where
  "CloseState_IsTerminal s \<longleftrightarrow> s = StateClosed"

definition CloseState_IsClosing :: "CloseState \<Rightarrow> bool" where
  "CloseState_IsClosing s \<longleftrightarrow>
     s = StateLocalCloseSent \<or> s = StateRemoteCloseReceived \<or> s = StateCloseReceived"

text \<open>The action kinds, with the fields that are valid for the kind.\<close>

datatype CloseAction = NoAction | SendCloseFrame u32 gostring | CloseQuic

text \<open>The text of an action; \<open>tab\<close> is the table of printable runes that \<open>%q\<close> consults.\<close>

primrec CloseAction_String :: "(nat \<Rightarrow> bool) \<Rightarrow> CloseAction \<Rightarrow> gostring" where
  "CloseAction_String tab NoAction = ascii ''None''"
| "CloseAction_String tab (SendCloseFrame code msg) =
     ascii ''SendCloseFrame(code='' @ ascii (fmt_d (unat code)) @ ascii '', msg='' @ fmt_q tab msg @ ascii '')''"
| "CloseAction_String tab CloseQuic = ascii ''CloseQuic''"

datatype CloseFrameDisposition = DispositionAccept | DispositionDiscardSilently

primrec Disposition_String :: "CloseFrameDisposition \<Rightarrow> string" where
  "Disposition_String DispositionAccept = ''Accept''"
| "Disposition_String DispositionDiscardSilently = ''DiscardSilently''"

record CloseManager =
  cm_state :: CloseState
  remoteCode :: "u32 option"
  remoteMessage :: "gostring option"
  closeTimeout :: int
  deadline :: "int option"

datatype close_error = CloseTimeoutTooShort int

definition cm_New :: CloseManager where
  "cm_New = \<lparr>cm_state = StateOpen, remoteCode = None, remoteMessage = None,
     closeTimeout = DefaultCloseTimeout, deadline = None\<rparr>"

definition NewWithTimeout :: "int \<Rightarrow> (close_error, CloseManager) outcome" where
  "NewWithTimeout t =
     (if t < MinCloseTimeout then Err (CloseTimeoutTooShort t)
      else Ok \<lparr>cm_state = StateOpen, remoteCode = None, remoteMessage = None,
        closeTimeout = t, deadline = None\<rparr>)"

section \<open>Queries\<close>

primrec close_error_msg :: "close_error \<Rightarrow> string" where
  "close_error_msg (CloseTimeoutTooShort d) = ''close timeout must be >= 1s, got '' @ duration_String d"

definition cm_State :: "CloseManager \<Rightarrow> CloseState" where
  "cm_State cm = cm_state cm"

definition cm_IsClosed :: "CloseManager \<Rightarrow> bool" where
  "cm_IsClosed cm \<longleftrightarrow> cm_state cm = StateClosed"

definition cm_IsClosing :: "CloseManager \<Rightarrow> bool" where
  "cm_IsClosing cm \<longleftrightarrow> CloseState_IsClosing (cm_state cm)"

definition RemoteCode :: "CloseManager \<Rightarrow> u32 \<times> bool" where
  "RemoteCode cm = (case remoteCode cm of Some c \<Rightarrow> (c, True) | None \<Rightarrow> (0, False))"

definition RemoteMessage :: "CloseManager \<Rightarrow> gostring \<times> bool" where
  "RemoteMessage cm = (case remoteMessage cm of Some m \<Rightarrow> (m, True) | None \<Rightarrow> ([], False))"

definition CloseTimeout :: "CloseManager \<Rightarrow> int" where
  "CloseTimeout cm = closeTimeout cm"

text \<open>The zero \<open>time.Time\<close> that goes with a missing deadline is an argument.\<close>

definition Deadline :: "int \<Rightarrow> CloseManager \<Rightarrow> int \<times> bool" where
  "Deadline zero cm = (case deadline cm of Some t \<Rightarrow> (t, True) | None \<Rightarrow> (zero, False))"

definition TimerActive :: "CloseManager \<Rightarrow> bool" where
  "TimerActive cm \<longleftrightarrow> deadline cm \<noteq> None"

definition CanSend :: "CloseManager \<Rightarrow> byte \<Rightarrow> bool" where
  "CanSend cm frameType \<longleftrightarrow> (case cm_state cm of
      StateOpen \<Rightarrow> True
    | StateLocalCloseSent \<Rightarrow> frameType = 0x06
    | StateRemoteCloseReceived \<Rightarrow> frameType = 0x05 \<or> frameType = 0x06
    | StateCloseReceived \<Rightarrow> False
    | StateClosed \<Rightarrow> False)"

definition FrameDisposition :: "CloseManager \<Rightarrow> byte \<Rightarrow> CloseFrameDisposition" where
  "FrameDisposition cm frameType = (case cm_state cm of
      StateOpen \<Rightarrow> DispositionAccept
    | StateLocalCloseSent \<Rightarrow>
        if frameType = 0x05 then DispositionAccept else DispositionDiscardSilently
    | StateRemoteCloseReceived \<Rightarrow> DispositionDiscardSilently
    | StateCloseReceived \<Rightarrow> DispositionDiscardSilently
    | StateClosed \<Rightarrow> DispositionDiscardSilently)"

section \<open>Truncation of messages\<close>

text \<open>The loop that moves \<open>end\<close> back to a rune boundary.\<close>

fun rune_boundary :: "gostring \<Rightarrow> nat \<Rightarrow> nat" where
  "rune_boundary s n =
     (if n > 0 \<and> \<not> RuneStart (s ! n) then rune_boundary s (n - 1) else n)"

declare rune_boundary.simps [simp del]

text \<open>The loop of the fallback: runes while their encoded length fits.\<close>

primrec take_runes :: "nat list \<Rightarrow> int \<Rightarrow> nat list" where
  "take_runes [] used = []"
| "take_runes (r # rs) used =
     (if used + RuneLen r > int MaxCloseMessageLen then []
      else r # take_runes rs (used + RuneLen r))"

definition truncateMessage :: "gostring \<Rightarrow> gostring" where
  "truncateMessage s =
     (if length s \<le> MaxCloseMessageLen then s
      else let truncated = take (rune_boundary s MaxCloseMessageLen) s in
        if \<not> ValidString truncated then string_of_runes (take_runes (runes s) 0)
        else truncated)"

section \<open>Commands\<close>

definition InitiateClose :: "int \<Rightarrow> u32 \<Rightarrow> gostring \<Rightarrow> CloseManager \<Rightarrow> CloseAction \<times> CloseManager" where
  "InitiateClose now code message cm =
     (if cm_state cm \<noteq> StateOpen then (NoAction, cm)
      else (SendCloseFrame code (truncateMessage message),
        cm\<lparr>cm_state := StateLocalCloseSent, deadline := Some (now + closeTimeout cm)\<rparr>))"

definition OnCloseReceived :: "int \<Rightarrow> u32 \<Rightarrow> gostring \<Rightarrow> CloseManager \<Rightarrow> CloseAction \<times> CloseManager" where
  "OnCloseReceived now code message cm =
     (let msg = truncateMessage message in
      case cm_state cm of
        StateOpen \<Rightarrow> (NoAction, cm\<lparr>remoteCode := Some code, remoteMessage := Some msg,
          cm_state := StateRemoteCloseReceived, deadline := Some (now + closeTimeout cm)\<rparr>)
      | StateLocalCloseSent \<Rightarrow> (CloseQuic, cm\<lparr>remoteCode := Some code, remoteMessage := Some msg,
          deadline := None, cm_state := StateClosed\<rparr>)
      | StateRemoteCloseReceived \<Rightarrow> (NoAction, cm)
      | StateCloseReceived \<Rightarrow> (NoAction, cm)
      | StateClosed \<Rightarrow> (NoAction, cm))"

definition RespondClose :: "u32 \<Rightarrow> gostring \<Rightarrow> CloseManager \<Rightarrow> CloseAction \<times> CloseManager" where
  "RespondClose code message cm =
     (if cm_state cm \<noteq> StateRemoteCloseReceived then (NoAction, cm)
      else (SendCloseFrame code (truncateMessage message),
        cm\<lparr>deadline := None, cm_state := StateClosed\<rparr>))"

definition OnFatalErrorReceived :: "CloseManager \<Rightarrow> CloseAction \<times> CloseManager" where
  "OnFatalErrorReceived cm =
     (if cm_state cm = StateClosed then (NoAction, cm)
      else (CloseQuic, cm\<lparr>deadline := None, cm_state := StateClosed\<rparr>))"

definition OnTransportReset :: "CloseManager \<Rightarrow> CloseAction \<times> CloseManager" where
  "OnTransportReset cm =
     (if cm_state cm = StateClosed then (NoAction, cm)
      else (CloseQuic, cm\<lparr>deadline := None, cm_state := StateClosed\<rparr>))"

definition cm_OnTimeout :: "CloseManager \<Rightarrow> CloseAction \<times> CloseManager" where
  "cm_OnTimeout cm =
     (if cm_state cm = StateLocalCloseSent \<or> cm_state cm = StateRemoteCloseReceived
      then (CloseQuic, cm\<lparr>deadline := None, cm_state := StateClosed\<rparr>)
      else (NoAction, cm))"

definition cm_Abort :: "CloseManager \<Rightarrow> CloseAction \<times> CloseManager" where
  "cm_Abort cm =
     (if cm_state cm = StateClosed then (NoAction, cm)
      else (CloseQuic, cm\<lparr>deadline := None, cm_state := StateClosed\<rparr>))"

definition CheckTimer :: "int \<Rightarrow> CloseManager \<Rightarrow> CloseAction \<times> CloseManager" where
  "CheckTimer now cm =
     (case deadline cm of
        Some d \<Rightarrow> if \<not> now < d then cm_OnTimeout cm else (NoAction, cm)
      | None \<Rightarrow> (NoAction, cm))"

section \<open>The state machine\<close>

datatype close_event =
    EvInitiateClose int u32 gostring
  | EvCloseReceived int u32 gostring
  | EvRespondClose u32 gostring
  | EvFatalError
  | EvTransportReset
  | EvTimeout
  | EvAbort
  | EvCheckTimer int

primrec cm_step :: "close_event \<Rightarrow> CloseManager \<Rightarrow> CloseAction \<times> CloseManager" where
  "cm_step (EvInitiateClose now code msg) = InitiateClose now code msg"
| "cm_step (EvCloseReceived now code msg) = OnCloseReceived now code msg"
| "cm_step (EvRespondClose code msg) = RespondClose code msg"
| "cm_step EvFatalError = OnFatalErrorReceived"
| "cm_step EvTransportReset = OnTransportReset"
| "cm_step EvTimeout = cm_OnTimeout"
| "cm_step EvAbort = cm_Abort"
| "cm_step (EvCheckTimer now) = CheckTimer now"

lemmas command_defs = InitiateClose_def OnCloseReceived_def RespondClose_def OnFatalErrorReceived_def
  OnTransportReset_def cm_OnTimeout_def cm_Abort_def CheckTimer_def

definition cm_init :: "CloseManager \<Rightarrow> bool" where
  "cm_init cm \<longleftrightarrow> cm = cm_New \<or> (\<exists>t. NewWithTimeout t = Ok cm)"

text \<open>What one step can do to the state, and with which action.\<close>

lemma cm_stepE:
  assumes "cm_step e cm = (a, cm')"
  obtains (idle) "a = NoAction" "cm' = cm"
  | (send) code msg d where "cm_state cm = StateOpen" "a = SendCloseFrame code (truncateMessage msg)"
      "cm' = cm\<lparr>cm_state := StateLocalCloseSent, deadline := Some (d + closeTimeout cm)\<rparr>"
  | (receive) code msg d where "cm_state cm = StateOpen" "a = NoAction"
      "cm' = cm\<lparr>remoteCode := Some code, remoteMessage := Some (truncateMessage msg),
         cm_state := StateRemoteCloseReceived, deadline := Some (d + closeTimeout cm)\<rparr>"
  | (crossed) code msg where "cm_state cm = StateLocalCloseSent" "a = CloseQuic"
      "cm' = cm\<lparr>remoteCode := Some code, remoteMessage := Some (truncateMessage msg), deadline := None,
         cm_state := StateClosed\<rparr>"
  | (respond) code msg where "cm_state cm = StateRemoteCloseReceived"
      "a = SendCloseFrame code (truncateMessage msg)" "cm' = cm\<lparr>deadline := None, cm_state := StateClosed\<rparr>"
  | (close) "cm_state cm \<noteq> StateClosed" "a = CloseQuic" "cm' = cm\<lparr>deadline := None, cm_state := StateClosed\<rparr>"
  using assms
  by (cases e; cases "cm_state cm") (auto simp: command_defs Let_def split: if_splits option.splits)

section \<open>Truncated messages\<close>

lemma rune_boundary_le: "rune_boundary s n \<le> n"
proof (induction n)
  case (Suc n)
  then show ?case by (subst rune_boundary.simps) auto
qed (subst rune_boundary.simps, simp)

text \<open>The loop stops at the last rune start at or before its starting point.\<close>

lemma rune_boundary_start:
  "j \<le> n \<Longrightarrow> RuneStart (s ! j) \<Longrightarrow> j \<le> rune_boundary s n \<and> RuneStart (s ! rune_boundary s n)"
proof (induction n)
  case 0
  then show ?case by (subst (1 2) rune_boundary.simps) simp
next
  case (Suc n)
  show ?case
  proof (cases "RuneStart (s ! Suc n)")
    case True
    with Suc show ?thesis by (subst (1 2) rune_boundary.simps) simp
  next
    case False
    with Suc.prems have "j \<noteq> Suc n" by auto
    with Suc False show ?thesis by (subst (1 2) rune_boundary.simps) simp
  qed
qed

lemma runes_scalar: "r \<in> set (runes s) \<Longrightarrow> RuneLen r \<noteq> -1"
proof (induction s rule: runes.induct)
  case (2 b bs)
  obtain r' n where d: "decode_rune (b # bs) = (r', n)" by (cases "decode_rune (b # bs)")
  with 2 decode_rune_scalar [OF d] show ?case by auto
qed simp

lemma take_runes_length:
  "\<forall>r \<in> set rs. RuneLen r \<noteq> -1 \<Longrightarrow> used \<le> int MaxCloseMessageLen \<Longrightarrow>
   used + int (length (string_of_runes (take_runes rs used))) \<le> int MaxCloseMessageLen"
proof (induction rs arbitrary: used)
  case (Cons r rs)
  then have "int (length (encode_rune r)) = RuneLen r" by (intro length_encode_rune) simp
  with Cons.prems Cons.IH [of "used + RuneLen r"] show ?case
    by (auto simp: string_of_runes_def)
qed (simp add: string_of_runes_def)

lemma length_truncateMessage: "length (truncateMessage s) \<le> MaxCloseMessageLen"
  using take_runes_length [of "runes s" 0] runes_scalar [of _ s] rune_boundary_le [of s MaxCloseMessageLen]
  by (auto simp: truncateMessage_def Let_def)

lemma truncateMessage_valid:
  assumes "ValidString s" and "MaxCloseMessageLen < length s"
  shows "\<exists>n. truncateMessage s = take n s \<and> 253 \<le> n \<and> n \<le> 256 \<and> ValidString (take n s)"
proof -
  let ?n = "rune_boundary s MaxCloseMessageLen"
  obtain j where j: "j \<le> MaxCloseMessageLen" "MaxCloseMessageLen < j + 4" "RuneStart (s ! j)"
    using ValidString_rune_start [OF assms] by blast
  note start = rune_boundary_start [OF j(1,3)]
  have le: "?n \<le> MaxCloseMessageLen" by (rule rune_boundary_le)
  then have "ValidString (take ?n s)" using start assms by (intro ValidString_take) auto
  with assms(2) le j(2) start show ?thesis
    by (intro exI [of _ ?n]) (auto simp: truncateMessage_def Let_def MaxCloseMessageLen_def)
qed

section \<open>Invariant and contracts\<close>

text \<open>
  The timer runs exactly while one CLOSE is outstanding, the intermediate state \<open>CloseReceived\<close> is
  never observable between calls, the peer's code and message are recorded together, and only by
  its CLOSE frame.
\<close>

definition close_inv :: "CloseManager \<Rightarrow> bool" where
  "close_inv cm \<longleftrightarrow>
     (TimerActive cm \<longleftrightarrow> cm_state cm = StateLocalCloseSent \<or> cm_state cm = StateRemoteCloseReceived) \<and>
     cm_state cm \<noteq> StateCloseReceived \<and>
     (remoteCode cm = None \<longleftrightarrow> remoteMessage cm = None) \<and>
     (cm_state cm = StateOpen \<or> cm_state cm = StateLocalCloseSent \<longrightarrow> remoteCode cm = None) \<and>
     (cm_state cm = StateRemoteCloseReceived \<longrightarrow> remoteCode cm \<noteq> None) \<and>
     (\<forall>m. remoteMessage cm = Some m \<longrightarrow> length m \<le> MaxCloseMessageLen) \<and>
     MinCloseTimeout \<le> closeTimeout cm"

lemma close_inv_init: "cm_init cm \<Longrightarrow> close_inv cm"
  by (auto simp: cm_init_def cm_New_def NewWithTimeout_def close_inv_def TimerActive_def
      MinCloseTimeout_def DefaultCloseTimeout_def second_def split: if_splits)

lemma close_inv_step: "close_inv cm \<Longrightarrow> close_inv (snd (cm_step e cm))"
proof -
  assume inv: "close_inv cm"
  obtain a cm' where s: "cm_step e cm = (a, cm')" by (cases "cm_step e cm")
  from s have "close_inv cm'"
  proof (cases rule: cm_stepE)
    case idle
    with inv show ?thesis by simp
  qed (use inv in \<open>simp add: close_inv_def TimerActive_def length_truncateMessage\<close>)+
  with s show ?thesis by simp
qed

definition is_send :: "CloseAction \<Rightarrow> bool" where
  "is_send a \<longleftrightarrow> (\<exists>code msg. a = SendCloseFrame code msg)"

text \<open>No CLOSE frame may be sent any more: ours has been sent, or the connection is closed.\<close>

definition close_spent :: "CloseManager \<Rightarrow> bool" where
  "close_spent cm \<longleftrightarrow> cm_state cm = StateLocalCloseSent \<or> cm_state cm = StateClosed"

lemma cm_step_closed: "close_inv cm \<Longrightarrow> cm_IsClosed cm \<Longrightarrow> cm_step e cm = (NoAction, cm)"
  by (cases e) (auto simp: cm_IsClosed_def command_defs Let_def close_inv_def TimerActive_def)

lemma send_step:
  assumes "cm_step e cm = (a, cm')"
  shows "is_send a \<Longrightarrow> \<not> close_spent cm \<and> close_spent cm'" and "close_spent cm \<Longrightarrow> close_spent cm'"
  using assms by (cases rule: cm_stepE; simp add: is_send_def close_spent_def)+

lemma quic_step:
  assumes "cm_step e cm = (a, cm')"
  shows "a = CloseQuic \<Longrightarrow> \<not> cm_IsClosed cm \<and> cm_IsClosed cm'" and "cm_IsClosed cm \<Longrightarrow> cm_IsClosed cm'"
  using assms by (cases rule: cm_stepE; simp add: cm_IsClosed_def)+

interpretation closing: invariant cm_step cm_init close_inv
  by unfold_locales (auto intro: close_inv_init close_inv_step)

interpretation closed: terminal cm_step cm_init close_inv cm_IsClosed NoAction
  by unfold_locales (rule cm_step_closed)

interpretation close_frame: one_shot cm_step cm_init close_inv is_send close_spent
  by unfold_locales (metis send_step prod.collapse)+

interpretation close_quic: one_shot cm_step cm_init close_inv "\<lambda>a. a = CloseQuic" cm_IsClosed
  by unfold_locales (metis quic_step prod.collapse)+

text \<open>Once a close has begun, its deadline stays until the connection is closed.\<close>

definition closing_by :: "int \<Rightarrow> CloseManager \<Rightarrow> bool" where
  "closing_by d cm \<longleftrightarrow> cm_IsClosed cm \<or>
     (cm_state cm = StateLocalCloseSent \<or> cm_state cm = StateRemoteCloseReceived) \<and> deadline cm = Some d"

lemma closing_by_step:
  assumes "cm_step e cm = (a, cm')" and "closing_by d cm"
  shows "closing_by d cm'"
  using assms by (cases rule: cm_stepE; auto simp: closing_by_def cm_IsClosed_def)

interpretation by_deadline: invariant cm_step "closing_by d" "closing_by d" for d
  by unfold_locales (auto intro: closing_by_step [OF prod.collapse [symmetric]])

lemma CheckTimer_closes: "closing_by d cm \<Longrightarrow> d \<le> now \<Longrightarrow> cm_IsClosed (snd (CheckTimer now cm))"
  by (auto simp: closing_by_def cm_IsClosed_def CheckTimer_def cm_OnTimeout_def split: option.splits)

text \<open>The text of an action is printable on one line, whatever message it carries.\<close>

lemma CloseAction_String_visible: "list_all visible (CloseAction_String tab a)"
  using visible_fmt_d fmt_q_visible
  by (cases a) (simp_all add: ascii_def visible_def of_char_def)

section \<open>Properties\<close>

text \<open>
  C22: the invariant of the close manager holds in every reachable state, whatever the order of local
  commands, received frames, resets, clock readings and timer events.
\<close>

theorem close_manager_invariant:
  assumes "reach cm_step cm_init cm"
  shows "close_inv cm"
  using assms by (rule closing.reach_inv)

theorem close_manager_invariant_witness:
  "close_inv (snd (cm_step (EvInitiateClose 7 0 (ascii ''bye'')) cm_New))"
  by (rule close_manager_invariant, rule reach.step, rule reach.initial) (simp add: cm_init_def)

text \<open>
  C16: over any run of a new manager at most one CLOSE frame is sent and the QUIC connection is closed
  at most once; and a closed manager answers every further event with no action and does not change.
\<close>

theorem close_actions_once:
  assumes "reach cm_step cm_init cm"
  shows "length (filter is_send (fst (run cm_step es cm))) \<le> 1 \<and>
    length (filter (\<lambda>a. a = CloseQuic) (fst (run cm_step es cm))) \<le> 1 \<and>
    (cm_IsClosed cm \<longrightarrow> run cm_step es cm = (replicate (length es) NoAction, cm))"
  using closing.reach_inv [OF assms] close_frame.run_at_most_once [of cm es]
    close_quic.run_at_most_once [of cm es] closed.run_final [of cm es]
  by blast

theorem close_actions_once_witness:
  "length (filter is_send (fst (run cm_step [EvInitiateClose 0 0 [], EvInitiateClose 1 0 [], EvAbort] cm_New))) \<le> 1"
  using close_actions_once [of cm_New "[EvInitiateClose 0 0 [], EvInitiateClose 1 0 [], EvAbort]"]
  by (simp add: reach.initial cm_init_def)

text \<open>
  C30: no data after CLOSE: once a CLOSE frame has been sent in a run, only ERROR frames may still be
  sent and only the peer's CLOSE frame is still accepted.
\<close>

theorem close_no_data_after_close:
  assumes "reach cm_step cm_init cm" and "a \<in> set (fst (run cm_step es cm))" and "is_send a"
    and "cm' = snd (run cm_step es cm)"
  shows "(CanSend cm' ft \<longrightarrow> ft = 0x06) \<and> (FrameDisposition cm' ft = DispositionAccept \<longrightarrow> ft = 0x05)"
proof -
  have "close_spent cm'"
    using close_frame.run_act_spent [OF closing.reach_inv [OF assms(1)] assms(2,3)] assms(4) by simp
  then show ?thesis by (auto simp: close_spent_def CanSend_def FrameDisposition_def split: if_splits)
qed

theorem close_no_data_after_close_witness:
  "\<not> CanSend (snd (run cm_step [EvInitiateClose 0 0 []] cm_New)) 0x01"
proof -
  have "reach cm_step cm_init cm_New" by (rule reach.initial) (simp add: cm_init_def)
  from close_no_data_after_close [OF this _ _ refl, of "SendCloseFrame 0 []" "[EvInitiateClose 0 0 []]" 1]
  show ?thesis by (simp add: is_send_def InitiateClose_def cm_New_def truncateMessage_def)
qed

text \<open>
  C12: a close always completes: after a close begins at time \<open>t\<close> in the open state (by a local command
  or by the peer's frame), whatever happens in between, polling the timer at or after
  \<open>t + closeTimeout\<close> leaves the manager closed.
\<close>

theorem close_completes:
  assumes "cm_state cm = StateOpen" and "e = EvInitiateClose t code msg \<or> e = EvCloseReceived t code msg"
    and "t + closeTimeout cm \<le> now"
  shows "cm_IsClosed (snd (run cm_step (e # es @ [EvCheckTimer now]) cm))"
proof -
  have "closing_by (t + closeTimeout cm) (snd (cm_step e cm))"
    using assms(1,2) by (auto simp: InitiateClose_def OnCloseReceived_def Let_def closing_by_def)
  then have "closing_by (t + closeTimeout cm) (snd (run cm_step es (snd (cm_step e cm))))"
    by (rule by_deadline.run_inv)
  with assms(3) show ?thesis by (simp add: run_append CheckTimer_closes)
qed

theorem close_completes_witness:
  "cm_IsClosed (snd (run cm_step (EvCloseReceived 0 0 [] # [EvInitiateClose 1 2 []] @ [EvCheckTimer 5000000000]) cm_New))"
  by (rule close_completes [where t = 0 and code = 0 and msg = "[]"])
    (simp_all add: cm_New_def DefaultCloseTimeout_def second_def)

text \<open>
  C31: messages on the wire are bounded and stay readable: a truncated message has at most 256 bytes,
  a short one is kept as it is, and a longer one in valid UTF-8 is cut to a valid prefix of at least
  253 bytes.
\<close>

theorem close_message_truncation:
  "length (truncateMessage s) \<le> 256 \<and> (length s \<le> 256 \<longrightarrow> truncateMessage s = s) \<and>
   (256 < length s \<and> ValidString s \<longrightarrow>
      (\<exists>n. truncateMessage s = take n s \<and> 253 \<le> n \<and> n \<le> 256 \<and> ValidString (take n s)))"
  using length_truncateMessage [of s] truncateMessage_valid [of s]
  by (auto simp: truncateMessage_def MaxCloseMessageLen_def)

theorem close_message_truncation_witness:
  "\<exists>n. truncateMessage (replicate 300 0x61) = take n (replicate 300 0x61) \<and> 253 \<le> n \<and> n \<le> 256 \<and>
     ValidString (take n (replicate 300 0x61))"
proof -
  have "ValidString (replicate n 0x61)" for n
    by (induction n) (simp_all add: go_eval)
  then show ?thesis using close_message_truncation [of "replicate 300 0x61"] by simp
qed

text \<open>
  On the passive side the transport is never closed: after a peer's CLOSE answered by
  \<open>RespondClose\<close> the manager is in its terminal state, but neither that call nor any later event ever
  returns the action that tells the caller to close the QUIC connection.
\<close>

lemma close_respond_never_quic:
  assumes "cm_state cm = StateOpen" and "close_inv cm"
  shows "run cm_step (EvCloseReceived t code msg # EvRespondClose code' msg' # es) cm =
    (NoAction # SendCloseFrame code' (truncateMessage msg') # replicate (length es) NoAction,
     cm\<lparr>remoteCode := Some code, remoteMessage := Some (truncateMessage msg), deadline := None,
       cm_state := StateClosed\<rparr>)"
proof -
  let ?cm = "cm\<lparr>remoteCode := Some code, remoteMessage := Some (truncateMessage msg), deadline := None,
       cm_state := StateClosed\<rparr>"
  have "close_inv ?cm" using assms(2) by (simp add: close_inv_def TimerActive_def length_truncateMessage)
  then have r: "run cm_step es ?cm = (replicate (length es) NoAction, ?cm)"
    by (rule closed.run_final) (simp add: cm_IsClosed_def)
  have "cm_step (EvRespondClose code' msg') (snd (cm_step (EvCloseReceived t code msg) cm)) =
      (SendCloseFrame code' (truncateMessage msg'), ?cm)"
    using assms(1) by (simp add: OnCloseReceived_def RespondClose_def Let_def)
  moreover have "fst (cm_step (EvCloseReceived t code msg) cm) = NoAction"
    using assms(1) by (simp add: OnCloseReceived_def Let_def)
  ultimately show ?thesis using r by (simp add: prod_eq_iff)
qed

end
