(* ===== verification/Handshake_State.thy ===== *)
theory Handshake_State
  imports Go_Fmt Go_Machine
begin

text \<open>
  The handshake state machines (\<open>src/handshake/state_machine.go\<close>) of the client and the server:
  states, allowed transitions, timeouts, dispositions of received frames, detection of duplicate
  messages. Methods that read the clock take its value \<open>now\<close>. A builder that panics on a bad
  timeout returns \<open>Panic\<close>. Names of methods carry the prefix \<open>Client_\<close> or \<open>Server_\<close>, fields the
  prefix \<open>c_\<close> or \<open>s_\<close>, where both machines have them.
\<close>

section \<open>Constants, roles and errors\<close>

definition hs_DefaultHandshakeTimeout :: int where "hs_DefaultHandshakeTimeout = 30 * second"
definition hs_DefaultCloseTimeout :: int where "hs_DefaultCloseTimeout = 5 * second"
definition hs_MinHandshakeTimeout :: int where "hs_MinHandshakeTimeout = 10 * second"
definition hs_MinCloseTimeout :: int where "hs_MinCloseTimeout = 1 * second"

lemmas hs_timeouts = hs_DefaultHandshakeTimeout_def hs_DefaultCloseTimeout_def
  hs_MinHandshakeTimeout_def hs_MinCloseTimeout_def second_def

datatype HandshakeRole = RoleClient | RoleServer

primrec Role_String :: "HandshakeRole \<Rightarrow> string" where
  "Role_String RoleClient = ''client''"
| "Role_String RoleServer = ''server''"

datatype HandshakeDisposition = FrameAccept | FrameRejectWithError | FrameDiscardSilently

primrec HandshakeDisposition_String :: "HandshakeDisposition \<Rightarrow> string" where
  "HandshakeDisposition_String FrameAccept = ''Accept''"
| "HandshakeDisposition_String FrameRejectWithError = ''RejectWithError''"
| "HandshakeDisposition_String FrameDiscardSilently = ''DiscardSilently''"

datatype hs_error =
    HandshakeStateError HandshakeRole string string string
  | UnexpectedFrameError string byte "byte list"
  | HandshakeTimeoutError string int int
  | DuplicateHandshakeMessageError string string

text \<open>The text of an error, as \<open>Error()\<close> returns it; the arrow is U+2192.\<close>

primrec hs_error_msg :: "hs_error \<Rightarrow> string" where
  "hs_error_msg (HandshakeStateError role from_state to_state reason) =
     ''illegal '' @ Role_String role @ '' handshake transition: '' @ from_state @ '' ''
     @ [CHR 0xE2, CHR 0x86, CHR 0x92] @ '' '' @ to_state @ '' ('' @ reason @ '')''"
| "hs_error_msg (UnexpectedFrameError state ft allowed) =
     ''unexpected frame type 0x'' @ fmt_02X ft @ '' in state '' @ state @ '' (allowed: '' @ fmt_v_bytes allowed @ '')''"
| "hs_error_msg (HandshakeTimeoutError state elapsed limit) =
     ''handshake timeout in state '' @ state @ '' ('' @ duration_String elapsed @ '' > '' @ duration_String limit @ '' limit)''"
| "hs_error_msg (DuplicateHandshakeMessageError state msg) = ''duplicate '' @ msg @ '' received in state '' @ state"

type_synonym hs_result = "(hs_error, unit) outcome"

section \<open>The client side\<close>

datatype ClientHandshakeState = ClientIdle | ClientConnecting | ClientChSent | ClientShVerified | ClientCfSent
  | ClientAuthorized | ClientMessaging | ClientClosing | ClientClosed

primrec Client_String :: "ClientHandshakeState \<Rightarrow> string" where
  "Client_String ClientIdle = ''C_IDLE''"
| "Client_String ClientConnecting = ''C_CONNECTING''"
| "Client_String ClientChSent = ''C_CH_SENT''"
| "Client_String ClientShVerified = ''C_SH_VERIFIED''"
| "Client_String ClientCfSent = ''C_CF_SENT''"
| "Client_String ClientAuthorized = ''C_AUTHORIZED''"
| "Client_String ClientMessaging = ''C_MESSAGING''"
| "Client_String ClientClosing = ''C_CLOSING''"
| "Client_String ClientClosed = ''C_CLOSED''"

definition Client_IsTerminal :: "ClientHandshakeState \<Rightarrow> bool" where
  "Client_IsTerminal s \<longleftrightarrow> s = ClientClosed"

definition Client_IsHandshakeComplete :: "ClientHandshakeState \<Rightarrow> bool" where
  "Client_IsHandshakeComplete s \<longleftrightarrow> s \<in> {ClientCfSent, ClientAuthorized, ClientMessaging, ClientClosing}"

definition Client_IsMessagingActive :: "ClientHandshakeState \<Rightarrow> bool" where
  "Client_IsMessagingActive s \<longleftrightarrow> s = ClientMessaging"

definition Client_IsIdentityVerified :: "ClientHandshakeState \<Rightarrow> bool" where
  "Client_IsIdentityVerified s \<longleftrightarrow>
     s \<in> {ClientShVerified, ClientCfSent, ClientAuthorized, ClientMessaging, ClientClosing}"

definition Client_CanTransitionTo :: "ClientHandshakeState \<Rightarrow> ClientHandshakeState \<Rightarrow> bool" where
  "Client_CanTransitionTo s nxt =
     (if s = ClientIdle \<and> nxt = ClientConnecting then True
      else if s = ClientConnecting \<and> nxt = ClientChSent then True
      else if s = ClientChSent \<and> nxt = ClientShVerified then True
      else if s = ClientShVerified \<and> nxt = ClientCfSent then True
      else if s = ClientCfSent \<and> nxt = ClientAuthorized then True
      else if s = ClientAuthorized \<and> nxt = ClientMessaging then True
      else if s = ClientMessaging \<and> nxt = ClientClosing then True
      else if s = ClientClosing \<and> nxt = ClientClosed then True
      else if s \<in> {ClientConnecting, ClientChSent, ClientShVerified, ClientCfSent, ClientAuthorized} \<and>
        nxt = ClientClosing then True
      else if s \<in> {ClientIdle, ClientConnecting, ClientChSent, ClientShVerified, ClientCfSent, ClientAuthorized, ClientMessaging} \<and> nxt = ClientClosed then True
      else False)"

primrec Client_AllowedFrameTypes :: "ClientHandshakeState \<Rightarrow> byte list" where
  "Client_AllowedFrameTypes ClientIdle = []"
| "Client_AllowedFrameTypes ClientConnecting = []"
| "Client_AllowedFrameTypes ClientChSent = [0x02, 0x06]"
| "Client_AllowedFrameTypes ClientShVerified = [0x06]"
| "Client_AllowedFrameTypes ClientCfSent = [0x06]"
| "Client_AllowedFrameTypes ClientAuthorized = [0x01, 0x03, 0x04, 0x05, 0x06, 0x07, 0x08]"
| "Client_AllowedFrameTypes ClientMessaging = [0x01, 0x03, 0x04, 0x05, 0x06, 0x07, 0x08]"
| "Client_AllowedFrameTypes ClientClosing = [0x05]"
| "Client_AllowedFrameTypes ClientClosed = []"

record ClientHandshakeMachine =
  c_state :: ClientHandshakeState
  c_deadline :: int
  c_hasDeadline :: bool
  c_handshakeTimeout :: int
  c_closeTimeout :: int
  serverHelloReceived :: bool

definition NewClientHandshakeMachine :: ClientHandshakeMachine where
  "NewClientHandshakeMachine = \<lparr>c_state = ClientIdle, c_deadline = 0, c_hasDeadline = False,
     c_handshakeTimeout = hs_DefaultHandshakeTimeout, c_closeTimeout = hs_DefaultCloseTimeout,
     serverHelloReceived = False\<rparr>"

definition Client_WithHandshakeTimeout :: "int \<Rightarrow> ClientHandshakeMachine \<Rightarrow> hs_result \<times> ClientHandshakeMachine" where
  "Client_WithHandshakeTimeout d m = (if d < hs_MinHandshakeTimeout then (Panic, m) else (Ok (), m\<lparr>c_handshakeTimeout := d\<rparr>))"

definition Client_WithCloseTimeout :: "int \<Rightarrow> ClientHandshakeMachine \<Rightarrow> hs_result \<times> ClientHandshakeMachine" where
  "Client_WithCloseTimeout d m = (if d < hs_MinCloseTimeout then (Panic, m) else (Ok (), m\<lparr>c_closeTimeout := d\<rparr>))"

definition Client_State :: "ClientHandshakeMachine \<Rightarrow> ClientHandshakeState" where
  "Client_State m = c_state m"

definition ClientMachine_IsTerminal :: "ClientHandshakeMachine \<Rightarrow> bool" where
  "ClientMachine_IsTerminal m = Client_IsTerminal (c_state m)"

definition Client_TransitionTo :: "int \<Rightarrow> ClientHandshakeState \<Rightarrow> ClientHandshakeMachine \<Rightarrow> hs_result \<times> ClientHandshakeMachine" where
  "Client_TransitionTo now nxt m =
     (if \<not> Client_CanTransitionTo (c_state m) nxt
      then (Err (HandshakeStateError RoleClient (Client_String (c_state m)) (Client_String nxt) ''transition not allowed''), m)
      else let
        m1 = (if nxt = ClientConnecting \<or> nxt = ClientChSent
              then m\<lparr>c_deadline := now + c_handshakeTimeout m, c_hasDeadline := True\<rparr>
              else if nxt = ClientClosing then m\<lparr>c_deadline := now + c_closeTimeout m, c_hasDeadline := True\<rparr>
              else if nxt = ClientClosed then m\<lparr>c_hasDeadline := False\<rparr> else m);
        m2 = (if nxt = ClientChSent then m1\<lparr>serverHelloReceived := False\<rparr> else m1)
      in (Ok (), m2\<lparr>c_state := nxt\<rparr>))"

definition Client_CheckTimeout :: "int \<Rightarrow> ClientHandshakeMachine \<Rightarrow> hs_result" where
  "Client_CheckTimeout now m =
     (if \<not> c_hasDeadline m then Ok ()
      else if now > c_deadline m then
        let limit = (if c_state m = ClientClosing then c_closeTimeout m else c_handshakeTimeout m) in
        Err (HandshakeTimeoutError (Client_String (c_state m)) (now - (c_deadline m - limit)) limit)
      else Ok ())"

definition Client_CheckFrameType :: "byte \<Rightarrow> ClientHandshakeMachine \<Rightarrow> hs_result" where
  "Client_CheckFrameType ft m =
     (let allowed = Client_AllowedFrameTypes (c_state m) in
      if length allowed = 0 then Err (UnexpectedFrameError (Client_String (c_state m)) ft allowed)
      else if list_ex (\<lambda>a. a = ft) allowed then Ok ()
      else Err (UnexpectedFrameError (Client_String (c_state m)) ft allowed))"

definition Client_FrameDisposition :: "byte \<Rightarrow> ClientHandshakeMachine \<Rightarrow> HandshakeDisposition" where
  "Client_FrameDisposition ft m =
     (if c_state m = ClientClosing then if ft = 0x05 then FrameAccept else FrameDiscardSilently
      else if c_state m = ClientClosed then FrameDiscardSilently
      else if list_ex (\<lambda>a. a = ft) (Client_AllowedFrameTypes (c_state m)) then FrameAccept
      else FrameRejectWithError)"

definition OnServerHelloReceived :: "ClientHandshakeMachine \<Rightarrow> hs_result \<times> ClientHandshakeMachine" where
  "OnServerHelloReceived m =
     (if serverHelloReceived m then (Err (DuplicateHandshakeMessageError (Client_String (c_state m)) ''ServerHello''), m)
      else (Ok (), m\<lparr>serverHelloReceived := True\<rparr>))"

definition Client_Abort :: "int \<Rightarrow> ClientHandshakeMachine \<Rightarrow> hs_result \<times> ClientHandshakeMachine" where
  "Client_Abort now m = Client_TransitionTo now ClientClosed m"

section \<open>The server side\<close>

datatype ServerHandshakeState = ServerListening | ServerTransportReady | ServerChVerified | ServerShSent | ServerCfVerified
  | ServerAuthorized | ServerMessaging | ServerClosing | ServerClosed

primrec Server_String :: "ServerHandshakeState \<Rightarrow> string" where
  "Server_String ServerListening = ''S_LISTENING''"
| "Server_String ServerTransportReady = ''S_TRANSPORT_READY''"
| "Server_String ServerChVerified = ''S_CH_VERIFIED''"
| "Server_String ServerShSent = ''S_SH_SENT''"
| "Server_String ServerCfVerified = ''S_CF_VERIFIED''"
| "Server_String ServerAuthorized = ''S_AUTHORIZED''"
| "Server_String ServerMessaging = ''S_MESSAGING''"
| "Server_String ServerClosing = ''S_CLOSING''"
| "Server_String ServerClosed = ''S_CLOSED''"

definition Server_IsTerminal :: "ServerHandshakeState \<Rightarrow> bool" where
  "Server_IsTerminal s \<longleftrightarrow> s = ServerClosed"

definition Server_IsHandshakeComplete :: "ServerHandshakeState \<Rightarrow> bool" where
  "Server_IsHandshakeComplete s \<longleftrightarrow> s \<in> {ServerCfVerified, ServerAuthorized, ServerMessaging, ServerClosing}"

definition Server_IsMessagingActive :: "ServerHandshakeState \<Rightarrow> bool" where
  "Server_IsMessagingActive s \<longleftrightarrow> s = ServerMessaging"

definition Server_IsIdentityVerified :: "ServerHandshakeState \<Rightarrow> bool" where
  "Server_IsIdentityVerified s \<longleftrightarrow>
     s \<in> {ServerChVerified, ServerShSent, ServerCfVerified, ServerAuthorized, ServerMessaging, ServerClosing}"

definition Server_CanTransitionTo :: "ServerHandshakeState \<Rightarrow> ServerHandshakeState \<Rightarrow> bool" where
  "Server_CanTransitionTo s nxt =
     (if s = ServerListening \<and> nxt = ServerTransportReady then True
      else if s = ServerTransportReady \<and> nxt = ServerChVerified then True
      else if s = ServerChVerified \<and> nxt = ServerShSent then True
      else if s = ServerShSent \<and> nxt = ServerCfVerified then True
      else if s = ServerCfVerified \<and> nxt = ServerAuthorized then True
      else if s = ServerAuthorized \<and> nxt = ServerMessaging then True
      else if s = ServerMessaging \<and> nxt = ServerClosing then True
      else if s = ServerClosing \<and> nxt = ServerClosed then True
      else if s \<in> {ServerTransportReady, ServerChVerified, ServerShSent, ServerCfVerified, ServerAuthorized} \<and>
        nxt = ServerClosing then True
      else if s \<in> {ServerListening, ServerTransportReady, ServerChVerified, ServerShSent, ServerCfVerified, ServerAuthorized, ServerMessaging} \<and> nxt = ServerClosed then True
      else False)"

primrec Server_AllowedFrameTypes :: "ServerHandshakeState \<Rightarrow> byte list" where
  "Server_AllowedFrameTypes ServerListening = []"
| "Server_AllowedFrameTypes ServerTransportReady = [0x02, 0x06]"
| "Server_AllowedFrameTypes ServerChVerified = [0x02, 0x06]"
| "Server_AllowedFrameTypes ServerShSent = [0x02, 0x06]"
| "Server_AllowedFrameTypes ServerCfVerified = [0x06]"
| "Server_AllowedFrameTypes ServerAuthorized = [0x06]"
| "Server_AllowedFrameTypes ServerMessaging = [0x01, 0x03, 0x04, 0x05, 0x06, 0x07, 0x08]"
| "Server_AllowedFrameTypes ServerClosing = [0x05]"
| "Server_AllowedFrameTypes ServerClosed = []"

record ServerHandshakeMachine =
  s_state :: ServerHandshakeState
  s_deadline :: int
  s_hasDeadline :: bool
  s_handshakeTimeout :: int
  s_closeTimeout :: int
  clientHelloReceived :: bool
  clientFinishedReceived :: bool

definition NewServerHandshakeMachine :: ServerHandshakeMachine where
  "NewServerHandshakeMachine = \<lparr>s_state = ServerListening, s_deadline = 0, s_hasDeadline = False,
     s_handshakeTimeout = hs_DefaultHandshakeTimeout, s_closeTimeout = hs_DefaultCloseTimeout,
     clientHelloReceived = False, clientFinishedReceived = False\<rparr>"

definition Server_WithHandshakeTimeout :: "int \<Rightarrow> ServerHandshakeMachine \<Rightarrow> hs_result \<times> ServerHandshakeMachine" where
  "Server_WithHandshakeTimeout d m = (if d < hs_MinHandshakeTimeout then (Panic, m) else (Ok (), m\<lparr>s_handshakeTimeout := d\<rparr>))"

definition Server_WithCloseTimeout :: "int \<Rightarrow> ServerHandshakeMachine \<Rightarrow> hs_result \<times> ServerHandshakeMachine" where
  "Server_WithCloseTimeout d m = (if d < hs_MinCloseTimeout then (Panic, m) else (Ok (), m\<lparr>s_closeTimeout := d\<rparr>))"

definition Server_State :: "ServerHandshakeMachine \<Rightarrow> ServerHandshakeState" where
  "Server_State m = s_state m"

definition ServerMachine_IsTerminal :: "ServerHandshakeMachine \<Rightarrow> bool" where
  "ServerMachine_IsTerminal m = Server_IsTerminal (s_state m)"

definition Server_TransitionTo :: "int \<Rightarrow> ServerHandshakeState \<Rightarrow> ServerHandshakeMachine \<Rightarrow> hs_result \<times> ServerHandshakeMachine" where
  "Server_TransitionTo now nxt m =
     (if \<not> Server_CanTransitionTo (s_state m) nxt
      then (Err (HandshakeStateError RoleServer (Server_String (s_state m)) (Server_String nxt) ''transition not allowed''), m)
      else let
        m1 = (if nxt = ServerTransportReady \<or> nxt = ServerShSent
              then m\<lparr>s_deadline := now + s_handshakeTimeout m, s_hasDeadline := True\<rparr>
              else if nxt = ServerClosing then m\<lparr>s_deadline := now + s_closeTimeout m, s_hasDeadline := True\<rparr>
              else if nxt = ServerClosed then m\<lparr>s_hasDeadline := False\<rparr> else m);
        m2 = (if nxt = ServerTransportReady then m1\<lparr>clientHelloReceived := False, clientFinishedReceived := False\<rparr> else m1)
      in (Ok (), m2\<lparr>s_state := nxt\<rparr>))"

definition Server_CheckTimeout :: "int \<Rightarrow> ServerHandshakeMachine \<Rightarrow> hs_result" where
  "Server_CheckTimeout now m =
     (if \<not> s_hasDeadline m then Ok ()
      else if now > s_deadline m then
        let limit = (if s_state m = ServerClosing then s_closeTimeout m else s_handshakeTimeout m) in
        Err (HandshakeTimeoutError (Server_String (s_state m)) (now - (s_deadline m - limit)) limit)
      else Ok ())"

definition Server_CheckFrameType :: "byte \<Rightarrow> ServerHandshakeMachine \<Rightarrow> hs_result" where
  "Server_CheckFrameType ft m =
     (let allowed = Server_AllowedFrameTypes (s_state m) in
      if length allowed = 0 then Err (UnexpectedFrameError (Server_String (s_state m)) ft allowed)
      else if list_ex (\<lambda>a. a = ft) allowed then Ok ()
      else Err (UnexpectedFrameError (Server_String (s_state m)) ft allowed))"

definition Server_FrameDisposition :: "byte \<Rightarrow> ServerHandshakeMachine \<Rightarrow> HandshakeDisposition" where
  "Server_FrameDisposition ft m =
     (if s_state m = ServerClosing then if ft = 0x05 then FrameAccept else FrameDiscardSilently
      else if s_state m = ServerClosed then FrameDiscardSilently
      else if list_ex (\<lambda>a. a = ft) (Server_AllowedFrameTypes (s_state m)) then FrameAccept
      else FrameRejectWithError)"

definition OnClientHelloReceived :: "ServerHandshakeMachine \<Rightarrow> hs_result \<times> ServerHandshakeMachine" where
  "OnClientHelloReceived m =
     (if clientHelloReceived m then (Err (DuplicateHandshakeMessageError (Server_String (s_state m)) ''ClientHello''), m)
      else (Ok (), m\<lparr>clientHelloReceived := True\<rparr>))"

definition OnClientFinishedReceived :: "ServerHandshakeMachine \<Rightarrow> hs_result \<times> ServerHandshakeMachine" where
  "OnClientFinishedReceived m =
     (if clientFinishedReceived m then (Err (DuplicateHandshakeMessageError (Server_String (s_state m)) ''ClientFinished''), m)
      else (Ok (), m\<lparr>clientFinishedReceived := True\<rparr>))"

definition Server_Abort :: "int \<Rightarrow> ServerHandshakeMachine \<Rightarrow> hs_result \<times> ServerHandshakeMachine" where
  "Server_Abort now m = Server_TransitionTo now ServerClosed m"

end
