(* ===== verification/Handshake_State_Properties.thy ===== *)
theory Handshake_State_Properties
  imports Handshake_State
begin

text \<open>
  Correctness of the handshake state machines. Both machines move through nine states; what they
  share is stated as two locales. \<open>handshake_fsm\<close> is the contract of the transition table (a rank
  that every transition increases, by one except for shutdown and abort), \<open>handshake_machine\<close>
  extends it with the step function of a machine over events. Each is interpreted on the client
  and on the server.
\<close>

section \<open>Contracts\<close>

text \<open>The states entered when transitions to \<open>ts\<close> are requested one after another.\<close>

primrec entered :: "('s \<Rightarrow> 's \<Rightarrow> bool) \<Rightarrow> 's \<Rightarrow> 's list \<Rightarrow> 's list" where
  "entered can s [] = []"
| "entered can s (t # ts) = (if can s t then t # entered can t ts else entered can s ts)"

locale handshake_fsm =
  fixes can :: "'s \<Rightarrow> 's \<Rightarrow> bool" and rank :: "'s \<Rightarrow> nat" and start closing closed :: 's
  assumes rank_inj: "rank s = rank t \<Longrightarrow> s = t"
    and rank_start: "rank start = 0"
    and rank_closing: "rank closed = Suc (rank closing)"
    and rank_max: "rank s \<le> rank closed"
    and can_rank: "can s t \<Longrightarrow> rank s < rank t"
    and can_next: "can s t \<Longrightarrow> t \<noteq> closing \<Longrightarrow> t \<noteq> closed \<Longrightarrow> rank t = Suc (rank s)"
    and can_abort: "s \<noteq> closed \<Longrightarrow> can s closed"
begin

lemma closed_stuck: "\<not> can closed t"
  using can_rank [of closed t] rank_max [of t] by auto

lemma closing_next: "can closing t \<Longrightarrow> t = closed"
  using can_rank [of closing t] rank_max [of t] rank_closing rank_inj [of t closed] by simp

lemma entered_closed: "entered can closed ts = []"
  by (induction ts) (simp_all add: closed_stuck)

lemma length_entered: "length (entered can s ts) + rank s \<le> rank closed"
proof (induction ts arbitrary: s)
  case (Cons t ts)
  show ?case
  proof (cases "can s t")
    case True
    from can_rank [OF True] Cons [of t] show ?thesis by (simp add: True)
  qed (use Cons in simp)
qed (simp add: rank_max)

text \<open>A run that has not begun to close has entered every state on the way, in order.\<close>

lemma entered_ranks:
  "last (s # entered can s ts) = t \<Longrightarrow> t \<noteq> closing \<Longrightarrow> t \<noteq> closed \<Longrightarrow>
   map rank (entered can s ts) = [Suc (rank s)..<Suc (rank t)]"
proof (induction ts arbitrary: s)
  case (Cons u ts)
  show ?case
  proof (cases "can s u")
    case True
    have "u \<noteq> closed" using Cons.prems True by (auto simp: entered_closed)
    moreover have "u \<noteq> closing"
    proof
      assume u: "u = closing"
      have "set (entered can closing vs) \<subseteq> {closed}" for vs
        by (induction vs) (auto simp: entered_closed dest: closing_next)
      with Cons.prems True u show False
        by (metis (no_types, opaque_lifting) entered.simps(2) insert_subset last.simps last_in_set
            list.set_intros(1) list.simps(15) list.distinct(1) set_ConsD singletonD subsetD)
    qed
    ultimately have r: "rank u = Suc (rank s)" using can_next [OF True] by simp
    have last: "last (u # entered can u ts) = t" using Cons.prems(1) True by simp
    have "rank u \<le> rank t"
    proof (cases "entered can u ts = []")
      case False
      then show ?thesis
        using Cons.IH [OF last Cons.prems(2,3)] by (metis Suc_leD map_is_Nil_conv not_less_eq_eq upt_eq_Nil_conv)
    qed (use last in simp)
    with Cons.IH [OF last Cons.prems(2,3)] True r show ?thesis by (simp add: upt_conv_Cons)
  qed (use Cons in simp)
qed simp

end

locale handshake_machine = handshake_fsm can rank start closing closed
  for can :: "'s \<Rightarrow> 's \<Rightarrow> bool" and rank :: "'s \<Rightarrow> nat" and start closing closed :: 's +
  fixes step :: "'ev \<Rightarrow> 'm \<Rightarrow> 'out \<times> 'm" and st :: "'m \<Rightarrow> 's" and goal :: "'ev \<Rightarrow> 's option"
  assumes step_state: "st (snd (step e m)) =
    (case goal e of Some t \<Rightarrow> if can (st m) t then t else st m | None \<Rightarrow> st m)"
begin

lemma run_state:
  "st (snd (run step es m)) = last (st m # entered can (st m) (List.map_filter goal es))"
  by (induction es arbitrary: m) (auto simp: step_state map_filter_simps split: option.splits)

lemma run_order:
  "st m = start \<Longrightarrow> st (snd (run step es m)) = t \<Longrightarrow> t \<noteq> closing \<Longrightarrow> t \<noteq> closed \<Longrightarrow>
   map rank (entered can start (List.map_filter goal es)) = [1..<Suc (rank t)]"
  using entered_ranks [of start "List.map_filter goal es" t] run_state [of es m]
  by (simp add: rank_start)

lemma run_closed: "st m = closed \<Longrightarrow> st (snd (run step es m)) = closed"
  by (simp add: run_state entered_closed)

lemma abort_closes: "goal e = Some closed \<Longrightarrow> st (snd (step e m)) = closed"
  using can_abort by (auto simp: step_state)

end

section \<open>The two machines over events\<close>

datatype client_event = CTransition int ClientHandshakeState | CServerHello
  | CHandshakeTimeout int | CCloseTimeout int | CAbort int

primrec client_step :: "client_event \<Rightarrow> ClientHandshakeMachine \<Rightarrow> hs_result \<times> ClientHandshakeMachine" where
  "client_step (CTransition now t) = Client_TransitionTo now t"
| "client_step CServerHello = OnServerHelloReceived"
| "client_step (CHandshakeTimeout d) = Client_WithHandshakeTimeout d"
| "client_step (CCloseTimeout d) = Client_WithCloseTimeout d"
| "client_step (CAbort now) = Client_Abort now"

primrec client_goal :: "client_event \<Rightarrow> ClientHandshakeState option" where
  "client_goal (CTransition now t) = Some t"
| "client_goal CServerHello = None"
| "client_goal (CHandshakeTimeout d) = None"
| "client_goal (CCloseTimeout d) = None"
| "client_goal (CAbort now) = Some ClientClosed"

datatype server_event = STransition int ServerHandshakeState | SClientHello | SClientFinished
  | SHandshakeTimeout int | SCloseTimeout int | SAbort int

primrec server_step :: "server_event \<Rightarrow> ServerHandshakeMachine \<Rightarrow> hs_result \<times> ServerHandshakeMachine" where
  "server_step (STransition now t) = Server_TransitionTo now t"
| "server_step SClientHello = OnClientHelloReceived"
| "server_step SClientFinished = OnClientFinishedReceived"
| "server_step (SHandshakeTimeout d) = Server_WithHandshakeTimeout d"
| "server_step (SCloseTimeout d) = Server_WithCloseTimeout d"
| "server_step (SAbort now) = Server_Abort now"

primrec server_goal :: "server_event \<Rightarrow> ServerHandshakeState option" where
  "server_goal (STransition now t) = Some t"
| "server_goal SClientHello = None"
| "server_goal SClientFinished = None"
| "server_goal (SHandshakeTimeout d) = None"
| "server_goal (SCloseTimeout d) = None"
| "server_goal (SAbort now) = Some ServerClosed"

primrec client_rank :: "ClientHandshakeState \<Rightarrow> nat" where
  "client_rank ClientIdle = 0"
| "client_rank ClientConnecting = 1"
| "client_rank ClientChSent = 2"
| "client_rank ClientShVerified = 3"
| "client_rank ClientCfSent = 4"
| "client_rank ClientAuthorized = 5"
| "client_rank ClientMessaging = 6"
| "client_rank ClientClosing = 7"
| "client_rank ClientClosed = 8"

primrec server_rank :: "ServerHandshakeState \<Rightarrow> nat" where
  "server_rank ServerListening = 0"
| "server_rank ServerTransportReady = 1"
| "server_rank ServerChVerified = 2"
| "server_rank ServerShSent = 3"
| "server_rank ServerCfVerified = 4"
| "server_rank ServerAuthorized = 5"
| "server_rank ServerMessaging = 6"
| "server_rank ServerClosing = 7"
| "server_rank ServerClosed = 8"

lemmas client_ops = Client_TransitionTo_def OnServerHelloReceived_def Client_WithHandshakeTimeout_def
  Client_WithCloseTimeout_def Client_Abort_def

lemmas server_ops = Server_TransitionTo_def OnClientHelloReceived_def OnClientFinishedReceived_def
  Server_WithHandshakeTimeout_def Server_WithCloseTimeout_def Server_Abort_def

lemma client_step_state: "c_state (snd (client_step e m)) =
  (case client_goal e of Some t \<Rightarrow> if Client_CanTransitionTo (c_state m) t then t else c_state m
   | None \<Rightarrow> c_state m)"
  by (cases e) (simp_all add: client_ops Let_def)

lemma server_step_state: "s_state (snd (server_step e m)) =
  (case server_goal e of Some t \<Rightarrow> if Server_CanTransitionTo (s_state m) t then t else s_state m
   | None \<Rightarrow> s_state m)"
  by (cases e) (simp_all add: server_ops Let_def)

text \<open>The transition tables: the first state of a transition decides the rest.\<close>

lemma client_can_cases:
  "Client_CanTransitionTo s t \<longleftrightarrow>
     s \<noteq> ClientClosed \<and> (t = ClientClosed \<or> t = ClientClosing \<and> s \<noteq> ClientIdle \<and> s \<noteq> ClientClosing \<or>
       client_rank t = Suc (client_rank s) \<and> client_rank t \<le> 6)"
  by (cases s; cases t) (simp_all add: Client_CanTransitionTo_def)

lemma server_can_cases:
  "Server_CanTransitionTo s t \<longleftrightarrow>
     s \<noteq> ServerClosed \<and> (t = ServerClosed \<or> t = ServerClosing \<and> s \<noteq> ServerListening \<and> s \<noteq> ServerClosing \<or>
       server_rank t = Suc (server_rank s) \<and> server_rank t \<le> 6)"
  by (cases s; cases t) (simp_all add: Server_CanTransitionTo_def)

lemma client_rank_facts:
  "client_rank s = client_rank t \<longleftrightarrow> s = t" "client_rank s \<le> 8"
  "s \<noteq> ClientClosed \<Longrightarrow> client_rank s < 8" "s \<noteq> ClientClosed \<Longrightarrow> s \<noteq> ClientClosing \<Longrightarrow> client_rank s < 7"
  by (cases s; cases t; simp) (cases s; simp)+

lemma server_rank_facts:
  "server_rank s = server_rank t \<longleftrightarrow> s = t" "server_rank s \<le> 8"
  "s \<noteq> ServerClosed \<Longrightarrow> server_rank s < 8" "s \<noteq> ServerClosed \<Longrightarrow> s \<noteq> ServerClosing \<Longrightarrow> server_rank s < 7"
  by (cases s; cases t; simp) (cases s; simp)+

interpretation client: handshake_machine Client_CanTransitionTo client_rank ClientIdle ClientClosing
  ClientClosed client_step c_state client_goal
  by unfold_locales (auto simp: client_can_cases client_rank_facts client_step_state)

interpretation server: handshake_machine Server_CanTransitionTo server_rank ServerListening
  ServerClosing ServerClosed server_step s_state server_goal
  by unfold_locales (auto simp: server_can_cases server_rank_facts server_step_state)

section \<open>Invariants\<close>

text \<open>A deadline is set exactly while a connection exists, and timeouts respect their minima.\<close>

definition client_inv :: "ClientHandshakeMachine \<Rightarrow> bool" where
  "client_inv m \<longleftrightarrow> (c_hasDeadline m \<longleftrightarrow> c_state m \<noteq> ClientIdle \<and> c_state m \<noteq> ClientClosed) \<and>
     hs_MinHandshakeTimeout \<le> c_handshakeTimeout m \<and> hs_MinCloseTimeout \<le> c_closeTimeout m"

definition server_inv :: "ServerHandshakeMachine \<Rightarrow> bool" where
  "server_inv m \<longleftrightarrow> (s_hasDeadline m \<longleftrightarrow> s_state m \<noteq> ServerListening \<and> s_state m \<noteq> ServerClosed) \<and>
     hs_MinHandshakeTimeout \<le> s_handshakeTimeout m \<and> hs_MinCloseTimeout \<le> s_closeTimeout m"

lemma client_transition_inv: "client_inv m \<Longrightarrow> client_inv (snd (Client_TransitionTo now t m))"
  by (cases "c_state m"; cases t)
    (simp_all add: client_inv_def Client_TransitionTo_def Client_CanTransitionTo_def Let_def)

lemma server_transition_inv: "server_inv m \<Longrightarrow> server_inv (snd (Server_TransitionTo now t m))"
  by (cases "s_state m"; cases t)
    (simp_all add: server_inv_def Server_TransitionTo_def Server_CanTransitionTo_def Let_def)

interpretation client_machine: invariant client_step "\<lambda>m. m = NewClientHandshakeMachine" client_inv
proof
  show "client_inv m" if "m = NewClientHandshakeMachine" for m
    using that by (simp add: client_inv_def NewClientHandshakeMachine_def hs_timeouts)
  show "client_inv (snd (client_step e m))" if "client_inv m" for e m
    using that client_transition_inv [OF that]
    by (cases e) (simp_all add: Client_Abort_def, simp_all add: client_inv_def client_ops)
qed

interpretation server_machine: invariant server_step "\<lambda>m. m = NewServerHandshakeMachine" server_inv
proof
  show "server_inv m" if "m = NewServerHandshakeMachine" for m
    using that by (simp add: server_inv_def NewServerHandshakeMachine_def hs_timeouts)
  show "server_inv (snd (server_step e m))" if "server_inv m" for e m
    using that server_transition_inv [OF that]
    by (cases e) (simp_all add: Server_Abort_def, simp_all add: server_inv_def server_ops)
qed

text \<open>Once the ClientHello is sent, the client is past the only transition that resets its flag.\<close>

definition hello_accepted :: "client_event \<times> hs_result \<Rightarrow> bool" where
  "hello_accepted a \<longleftrightarrow> a = (CServerHello, Ok ())"

text \<open>The client with its answers labelled by the event.\<close>

definition client_lstep ::
  "client_event \<Rightarrow> ClientHandshakeMachine \<Rightarrow> (client_event \<times> hs_result) \<times> ClientHandshakeMachine" where
  "client_lstep e m = ((e, fst (client_step e m)), snd (client_step e m))"

lemma client_rank_mono: "client_rank (c_state m) \<le> client_rank (c_state (snd (client_step e m)))"
  using client.can_rank by (auto simp: client_step_state less_imp_le split: option.splits)

lemma client_flag_kept:
  "2 \<le> client_rank (c_state m) \<Longrightarrow> serverHelloReceived m \<Longrightarrow> serverHelloReceived (snd (client_step e m))"
proof -
  assume "2 \<le> client_rank (c_state m)" and f: "serverHelloReceived m"
  then have "\<not> Client_CanTransitionTo (c_state m) ClientChSent" using client.can_rank by fastforce
  with f show ?thesis by (cases e) (auto simp: client_ops Let_def)
qed

interpretation server_hello: one_shot client_lstep "\<lambda>m. c_state m = ClientChSent"
  "\<lambda>m. 2 \<le> client_rank (c_state m)" hello_accepted serverHelloReceived
proof
  fix m :: ClientHandshakeMachine and e
  assume inv: "2 \<le> client_rank (c_state m)"
  show "2 \<le> client_rank (c_state (snd (client_lstep e m)))"
    using inv client_rank_mono [of m e] by (simp add: client_lstep_def)
  show "\<not> serverHelloReceived m" if "hello_accepted (fst (client_lstep e m))"
    using that by (auto simp: hello_accepted_def client_lstep_def OnServerHelloReceived_def)
  show "serverHelloReceived (snd (client_lstep e m))" if "hello_accepted (fst (client_lstep e m))"
    using that by (auto simp: hello_accepted_def client_lstep_def OnServerHelloReceived_def)
  show "serverHelloReceived (snd (client_lstep e m))" if "serverHelloReceived m"
    using client_flag_kept [OF inv that] by (simp add: client_lstep_def)
qed auto

section \<open>Properties\<close>

abbreviation "client_entered es \<equiv> entered Client_CanTransitionTo ClientIdle (List.map_filter client_goal es)"
abbreviation "server_entered es \<equiv> entered Server_CanTransitionTo ServerListening (List.map_filter server_goal es)"

definition client_path :: "client_event list" where
  "client_path = [CTransition 0 ClientConnecting, CTransition 1 ClientChSent, CServerHello,
     CTransition 2 ClientShVerified, CTransition 3 ClientCfSent, CTransition 4 ClientAuthorized,
     CTransition 5 ClientMessaging]"

lemma map_client_rank:
  "map client_rank xs = [1..<7] \<longleftrightarrow> xs = [ClientConnecting, ClientChSent, ClientShVerified, ClientCfSent,
     ClientAuthorized, ClientMessaging]"
proof -
  have "[1..<7] = map client_rank [ClientConnecting, ClientChSent, ClientShVerified, ClientCfSent,
      ClientAuthorized, ClientMessaging]" by (simp add: upt_rec)
  moreover have "inj client_rank" by (simp add: inj_def client_rank_facts)
  ultimately show ?thesis by (simp only: inj_map_eq_map)
qed

lemma map_server_rank:
  "map server_rank xs = [1..<7] \<longleftrightarrow> xs = [ServerTransportReady, ServerChVerified, ServerShSent,
     ServerCfVerified, ServerAuthorized, ServerMessaging]"
proof -
  have "[1..<7] = map server_rank [ServerTransportReady, ServerChVerified, ServerShSent,
      ServerCfVerified, ServerAuthorized, ServerMessaging]" by (simp add: upt_rec)
  moreover have "inj server_rank" by (simp add: inj_def server_rank_facts)
  ultimately show ?thesis by (simp only: inj_map_eq_map)
qed

text \<open>
  C6: messaging is reached only by the whole handshake: whatever transitions are requested of a new
  machine, in whatever order, when it is in its messaging state it has entered exactly the states of
  the handshake, each once and in order. For the client and for the server.
\<close>

theorem handshake_strict_order:
  assumes "c_state (snd (run client_step es NewClientHandshakeMachine)) = ClientMessaging"
    and "s_state (snd (run server_step fs NewServerHandshakeMachine)) = ServerMessaging"
  shows "client_entered es = [ClientConnecting, ClientChSent, ClientShVerified, ClientCfSent,
      ClientAuthorized, ClientMessaging] \<and>
    server_entered fs = [ServerTransportReady, ServerChVerified, ServerShSent, ServerCfVerified,
      ServerAuthorized, ServerMessaging]"
  using client.run_order [OF _ assms(1)] server.run_order [OF _ assms(2)]
  by (simp add: NewClientHandshakeMachine_def NewServerHandshakeMachine_def
      flip: map_client_rank map_server_rank)

definition server_path :: "server_event list" where
  "server_path = [STransition 0 ServerTransportReady, SClientHello, STransition 1 ServerChVerified,
     STransition 2 ServerShSent, SClientFinished, STransition 3 ServerCfVerified,
     STransition 4 ServerAuthorized, STransition 5 ServerMessaging]"

theorem handshake_strict_order_witness:
  "client_entered client_path = [ClientConnecting, ClientChSent, ClientShVerified, ClientCfSent,
      ClientAuthorized, ClientMessaging] \<and>
   server_entered server_path = [ServerTransportReady, ServerChVerified, ServerShSent, ServerCfVerified,
      ServerAuthorized, ServerMessaging]"
  by (rule handshake_strict_order)
    (simp_all add: client_path_def server_path_def client_ops server_ops Let_def NewClientHandshakeMachine_def
      NewServerHandshakeMachine_def Client_CanTransitionTo_def Server_CanTransitionTo_def)



text \<open>
  C32: in every reachable state a deadline is set exactly while a connection exists, and both
  timeouts are at least their minima.
\<close>

theorem handshake_invariants:
  assumes "reach client_step (\<lambda>m. m = NewClientHandshakeMachine) m"
    and "reach server_step (\<lambda>n. n = NewServerHandshakeMachine) n"
  shows "client_inv m \<and> server_inv n"
  using client_machine.reach_inv [OF assms(1)] server_machine.reach_inv [OF assms(2)] ..

theorem handshake_invariants_witness:
  "client_inv (snd (Client_TransitionTo 0 ClientConnecting NewClientHandshakeMachine)) \<and>
   server_inv NewServerHandshakeMachine"
  using handshake_invariants [OF reach.step [OF reach.initial, of "\<lambda>m. m = NewClientHandshakeMachine"
      NewClientHandshakeMachine client_step "CTransition 0 ClientConnecting"] reach.initial]
  by simp



text \<open>
  Duplicate ServerHello messages are refused: once the client has sent its ClientHello, over any
  further run of the machine at most one ServerHello is accepted.
\<close>

lemma handshake_server_hello_once:
  assumes "2 \<le> client_rank (c_state m)"
  shows "length (filter hello_accepted (fst (run client_lstep es m))) \<le> 1"
  using assms by (rule server_hello.run_at_most_once)


end
