(* ===== verification/Replay_Cache.thy ===== *)
theory Replay_Cache
  imports Go_Fmt Go_Machine
begin

text \<open>
  Package \<open>replaycache\<close> (\<open>src/replaycache/replaycache.go\<close> and \<open>handshake_integration.go\<close>): the
  cache of observed handshake nonces. The Go map is an association list with distinct keys. A
  \<open>range\<close> loop over a Go map visits every entry once in an order the runtime chooses: operations
  take a function \<open>ord\<close> that gives the order for each of their loops. Operations take the clock
  reading \<open>now\<close>. Each runs under the cache's mutex, so concurrent calls are sequences of them.
\<close>

section \<open>Constants and data\<close>

definition DefaultRetention :: int where "DefaultRetention = 300 * second"
definition MinRetention :: int where "MinRetention = 60 * second"
definition MaxRetention :: int where "MaxRetention = 3600 * second"
definition DefaultMaxEntries :: int where "DefaultMaxEntries = 100000"
definition MinMaxEntries :: int where "MinMaxEntries = 1000"
definition MaxMaxEntries :: int where "MaxMaxEntries = 10000000"
definition NonceSize :: nat where "NonceSize = 32"
definition AgentIDSize :: nat where "AgentIDSize = 32"

lemmas rc_consts = DefaultRetention_def MinRetention_def MaxRetention_def DefaultMaxEntries_def
  MinMaxEntries_def MaxMaxEntries_def NonceSize_def AgentIDSize_def second_def

datatype rc_error =
    ErrNonceReuse
  | ErrRetentionOutOfRange int
  | ErrMaxEntriesOutOfRange int
  | ErrNonceLength nat
  | ErrClientNonceLength nat
  | ErrServerNonceLength nat

primrec rc_error_msg :: "rc_error \<Rightarrow> string" where
  "rc_error_msg ErrNonceReuse = ''nonce reuse detected: replay attack''"
| "rc_error_msg (ErrRetentionOutOfRange r) =
     ''retention out of range: got '' @ duration_String r @ '', min '' @ duration_String MinRetention
     @ '', max '' @ duration_String MaxRetention"
| "rc_error_msg (ErrMaxEntriesOutOfRange n) =
     ''max_entries out of range: got '' @ fmt_i n @ '', min '' @ fmt_i MinMaxEntries @ '', max '' @ fmt_i MaxMaxEntries"
| "rc_error_msg (ErrNonceLength n) = ''nonce must be '' @ fmt_d NonceSize @ '' bytes, got '' @ fmt_d n"
| "rc_error_msg (ErrClientNonceLength n) = ''client_nonce must be '' @ fmt_d NonceSize @ '' bytes, got '' @ fmt_d n"
| "rc_error_msg (ErrServerNonceLength n) = ''server_nonce must be '' @ fmt_d NonceSize @ '' bytes, got '' @ fmt_d n"

record cache_entry =
  expiresAt :: int
  lastAccessed :: int

definition isExpired :: "int \<Rightarrow> cache_entry \<Rightarrow> bool" where
  "isExpired now e \<longleftrightarrow> \<not> now < expiresAt e"

type_synonym cacheKey = "byte list"
type_synonym cache_map = "(cacheKey \<times> cache_entry) list"

text \<open>\<open>copy\<close> into a zeroed array of size \<open>n\<close>.\<close>

definition copy_into :: "nat \<Rightarrow> bytes \<Rightarrow> bytes" where
  "copy_into n bs = take n bs @ replicate (n - length bs) 0"

definition makeKey :: "bytes \<Rightarrow> bytes \<Rightarrow> cacheKey" where
  "makeKey agentID nonce = copy_into AgentIDSize agentID @ copy_into NonceSize nonce"

record ReplayCache =
  entries :: cache_map
  retention :: int
  maxEntries :: int

definition rc_New :: ReplayCache where
  "rc_New = \<lparr>entries = [], retention = DefaultRetention, maxEntries = DefaultMaxEntries\<rparr>"

definition NewWithParams :: "int \<Rightarrow> int \<Rightarrow> (rc_error, ReplayCache) outcome" where
  "NewWithParams r n =
     (if r < MinRetention \<or> r > MaxRetention then Err (ErrRetentionOutOfRange r)
      else if n < MinMaxEntries \<or> n > MaxMaxEntries then Err (ErrMaxEntriesOutOfRange n)
      else Ok \<lparr>entries = [], retention = r, maxEntries = n\<rparr>)"

text \<open>The capacity is a hint for the allocation of the map and does not change its contents.\<close>

definition NewWithCapacity :: "int \<Rightarrow> int \<Rightarrow> int \<Rightarrow> (rc_error, ReplayCache) outcome" where
  "NewWithCapacity r n capacity = obind (NewWithParams r n) (\<lambda>cache. Ok (cache\<lparr>entries := []\<rparr>))"

definition NewWithParamsUnchecked :: "int \<Rightarrow> int \<Rightarrow> ReplayCache" where
  "NewWithParamsUnchecked r n = \<lparr>entries = [], retention = r, maxEntries = n\<rparr>"

section \<open>Maps\<close>

definition map_delete :: "cacheKey \<Rightarrow> cache_map \<Rightarrow> cache_map" where
  "map_delete k m = filter (\<lambda>p. fst p \<noteq> k) m"

definition map_put :: "cacheKey \<Rightarrow> cache_entry \<Rightarrow> cache_map \<Rightarrow> cache_map" where
  "map_put k e m = (k, e) # map_delete k m"

text \<open>
  The order of a \<open>range\<close> loop: any order of the entries, chosen by the runtime. The four loops of
  the package are numbered.
\<close>

type_synonym iteration = "nat \<Rightarrow> cache_map \<Rightarrow> cache_map"

definition range_map :: "iteration \<Rightarrow> nat \<Rightarrow> cache_map \<Rightarrow> cache_map" where
  "range_map ord i m = go_range (ord i) m"

section \<open>Operations\<close>

definition rc_Retention :: "ReplayCache \<Rightarrow> int" where
  "rc_Retention c = retention c"

definition rc_MaxEntries :: "ReplayCache \<Rightarrow> int" where
  "rc_MaxEntries c = maxEntries c"

definition rc_Len :: "ReplayCache \<Rightarrow> nat" where
  "rc_Len c = length (entries c)"

definition rc_IsEmpty :: "ReplayCache \<Rightarrow> bool" where
  "rc_IsEmpty c \<longleftrightarrow> length (entries c) = 0"

text \<open>Go's integer division by 2 truncates towards zero.\<close>

definition go_half :: "int \<Rightarrow> int" where
  "go_half n = (if 0 \<le> n then n div 2 else - (- n div 2))"

definition batchSize :: nat where "batchSize = 64"

definition lazyEvict :: "iteration \<Rightarrow> int \<Rightarrow> ReplayCache \<Rightarrow> ReplayCache" where
  "lazyEvict ord now c =
     (if int (length (entries c)) \<le> go_half (maxEntries c) then c
      else let toRemove = map fst (filter (\<lambda>p. isExpired now (snd p))
               (take batchSize (range_map ord 0 (entries c))))
        in c\<lparr>entries := foldl (\<lambda>m k. map_delete k m) (entries c) toRemove\<rparr>)"

primrec lru_scan :: "cache_map \<Rightarrow> (cacheKey \<times> int) option \<Rightarrow> (cacheKey \<times> int) option" where
  "lru_scan [] lru = lru"
| "lru_scan (p # ps) lru =
     lru_scan ps (case lru of
         None \<Rightarrow> Some (fst p, lastAccessed (snd p))
       | Some (k, t) \<Rightarrow> if lastAccessed (snd p) < t then Some (fst p, lastAccessed (snd p)) else Some (k, t))"

definition evictLRU :: "iteration \<Rightarrow> int \<Rightarrow> ReplayCache \<Rightarrow> ReplayCache" where
  "evictLRU ord now c =
     (case find (\<lambda>p. isExpired now (snd p)) (range_map ord 1 (entries c)) of
        Some p \<Rightarrow> c\<lparr>entries := map_delete (fst p) (entries c)\<rparr>
      | None \<Rightarrow> (case lru_scan (range_map ord 2 (entries c)) None of
            Some (lruKey, _) \<Rightarrow> c\<lparr>entries := map_delete lruKey (entries c)\<rparr>
          | None \<Rightarrow> c))"

definition new_entry :: "int \<Rightarrow> ReplayCache \<Rightarrow> cache_entry" where
  "new_entry now c = \<lparr>expiresAt = now + retention c, lastAccessed = now\<rparr>"

definition rc_Check :: "iteration \<Rightarrow> int \<Rightarrow> bytes \<Rightarrow> bytes \<Rightarrow> ReplayCache \<Rightarrow> bool \<times> ReplayCache" where
  "rc_Check ord now agentID nonce c =
     (if length nonce \<noteq> NonceSize then (False, c)
      else let key = makeKey agentID nonce; c1 = lazyEvict ord now c in
        case map_of (entries c1) key of
          Some e \<Rightarrow> if isExpired now e then (False, c1\<lparr>entries := map_delete key (entries c1)\<rparr>)
            else (True, c1\<lparr>entries := map_put key (e\<lparr>lastAccessed := now\<rparr>) (entries c1)\<rparr>)
        | None \<Rightarrow> (False, c1))"

definition CheckAndInsert ::
  "iteration \<Rightarrow> int \<Rightarrow> bytes \<Rightarrow> bytes \<Rightarrow> ReplayCache \<Rightarrow> (rc_error, unit) outcome \<times> ReplayCache" where
  "CheckAndInsert ord now agentID nonce c =
     (if length nonce \<noteq> NonceSize then (Err (ErrNonceLength (length nonce)), c)
      else let key = makeKey agentID nonce; c1 = lazyEvict ord now c in
        case map_of (entries c1) key of
          Some e \<Rightarrow> if \<not> isExpired now e then (Err ErrNonceReuse, c1)
            else let c2 = c1\<lparr>entries := map_delete key (entries c1)\<rparr>;
              c3 = (if int (length (entries c2)) \<ge> maxEntries c2 then evictLRU ord now c2 else c2)
              in (Ok (), c3\<lparr>entries := map_put key (new_entry now c3) (entries c3)\<rparr>)
        | None \<Rightarrow> let
              c3 = (if int (length (entries c1)) \<ge> maxEntries c1 then evictLRU ord now c1 else c1)
              in (Ok (), c3\<lparr>entries := map_put key (new_entry now c3) (entries c3)\<rparr>))"

definition rc_Insert :: "iteration \<Rightarrow> int \<Rightarrow> bytes \<Rightarrow> bytes \<Rightarrow> ReplayCache \<Rightarrow> ReplayCache" where
  "rc_Insert ord now agentID nonce c =
     (if length nonce \<noteq> NonceSize then c
      else let key = makeKey agentID nonce; c1 = lazyEvict ord now c;
        c2 = (if map_of (entries c1) key = None \<and> int (length (entries c1)) \<ge> maxEntries c1
              then evictLRU ord now c1 else c1)
        in c2\<lparr>entries := map_put key (new_entry now c2) (entries c2)\<rparr>)"

definition EvictExpired :: "int \<Rightarrow> ReplayCache \<Rightarrow> nat \<times> ReplayCache" where
  "EvictExpired now c =
     (let m = filter (\<lambda>p. \<not> isExpired now (snd p)) (entries c) in
      (length (entries c) - length m, c\<lparr>entries := m\<rparr>))"

definition rc_Clear :: "ReplayCache \<Rightarrow> ReplayCache" where
  "rc_Clear c = c\<lparr>entries := []\<rparr>"

section \<open>The handshake's use of the cache\<close>

text \<open>The checker holds a pointer to a cache; its methods return the checker with the cache updated.\<close>

record HandshakeReplayChecker =
  hr_cache :: ReplayCache

definition NewHandshakeReplayChecker :: "ReplayCache \<Rightarrow> HandshakeReplayChecker" where
  "NewHandshakeReplayChecker c = \<lparr>hr_cache = c\<rparr>"

definition hr_Cache :: "HandshakeReplayChecker \<Rightarrow> ReplayCache" where
  "hr_Cache h = hr_cache h"

type_synonym hr_result = "(rc_error, unit) outcome \<times> HandshakeReplayChecker"

definition CheckClientHello :: "iteration \<Rightarrow> int \<Rightarrow> bytes \<Rightarrow> bytes \<Rightarrow> HandshakeReplayChecker \<Rightarrow> hr_result" where
  "CheckClientHello ord now agentID clientNonce h =
     (if length clientNonce \<noteq> NonceSize then (Err (ErrClientNonceLength (length clientNonce)), h)
      else case rc_Check ord now agentID clientNonce (hr_cache h) of
          (True, c) \<Rightarrow> (Err ErrNonceReuse, h\<lparr>hr_cache := c\<rparr>) | (False, c) \<Rightarrow> (Ok (), h\<lparr>hr_cache := c\<rparr>))"

definition InsertClientHello ::
  "iteration \<Rightarrow> int \<Rightarrow> bytes \<Rightarrow> bytes \<Rightarrow> HandshakeReplayChecker \<Rightarrow> HandshakeReplayChecker" where
  "InsertClientHello ord now agentID clientNonce h =
     (if length clientNonce \<noteq> NonceSize then h
      else h\<lparr>hr_cache := rc_Insert ord now agentID clientNonce (hr_cache h)\<rparr>)"

definition CheckAndInsertClientHello ::
  "iteration \<Rightarrow> int \<Rightarrow> bytes \<Rightarrow> bytes \<Rightarrow> HandshakeReplayChecker \<Rightarrow> hr_result" where
  "CheckAndInsertClientHello ord now agentID clientNonce h =
     (if length clientNonce \<noteq> NonceSize then (Err (ErrClientNonceLength (length clientNonce)), h)
      else let (r, c) = CheckAndInsert ord now agentID clientNonce (hr_cache h) in (r, h\<lparr>hr_cache := c\<rparr>))"

definition CheckServerHello :: "iteration \<Rightarrow> int \<Rightarrow> bytes \<Rightarrow> bytes \<Rightarrow> HandshakeReplayChecker \<Rightarrow> hr_result" where
  "CheckServerHello ord now agentID serverNonce h =
     (if length serverNonce \<noteq> NonceSize then (Err (ErrServerNonceLength (length serverNonce)), h)
      else case rc_Check ord now agentID serverNonce (hr_cache h) of
          (True, c) \<Rightarrow> (Err ErrNonceReuse, h\<lparr>hr_cache := c\<rparr>) | (False, c) \<Rightarrow> (Ok (), h\<lparr>hr_cache := c\<rparr>))"

definition InsertServerHello ::
  "iteration \<Rightarrow> int \<Rightarrow> bytes \<Rightarrow> bytes \<Rightarrow> HandshakeReplayChecker \<Rightarrow> HandshakeReplayChecker" where
  "InsertServerHello ord now agentID serverNonce h =
     (if length serverNonce \<noteq> NonceSize then h
      else h\<lparr>hr_cache := rc_Insert ord now agentID serverNonce (hr_cache h)\<rparr>)"

definition CheckAndInsertServerHello ::
  "iteration \<Rightarrow> int \<Rightarrow> bytes \<Rightarrow> bytes \<Rightarrow> HandshakeReplayChecker \<Rightarrow> hr_result" where
  "CheckAndInsertServerHello ord now agentID serverNonce h =
     (if length serverNonce \<noteq> NonceSize then (Err (ErrServerNonceLength (length serverNonce)), h)
      else let (r, c) = CheckAndInsert ord now agentID serverNonce (hr_cache h) in (r, h\<lparr>hr_cache := c\<rparr>))"

end
