(* ===== verification/Replay_Properties.thy ===== *)
theory Replay_Properties
  imports Replay_Cache
begin

text \<open>
  Correctness of package \<open>replaycache\<close>, for every order in which the runtime may iterate over the
  map: the size bound, what an insertion and a check mean, that a nonce is rejected as long as it is
  retained, and which entry is evicted.
\<close>

section \<open>The map and its loops\<close>

lemma set_range_map [simp]: "set (range_map ord i m) = set m"
  by (auto simp: range_map_def)

lemma find_SomeD: "find P xs = Some x \<Longrightarrow> x \<in> set xs \<and> P x"
  by (induction xs) (auto split: if_splits)

lemma map_of_delete: "map_of (map_delete k m) k' = (if k' = k then None else map_of m k')"
  by (induction m) (auto simp: map_delete_def)

lemma map_of_put: "map_of (map_put k e m) k' = (if k' = k then Some e else map_of m k')"
  by (simp add: map_put_def map_of_delete)

lemma keys_delete: "distinct (map fst m) \<Longrightarrow> distinct (map fst (map_delete k m))"
  unfolding map_delete_def by (induction m) auto

lemma keys_put: "distinct (map fst m) \<Longrightarrow> distinct (map fst (map_put k e m))"
  using keys_delete [of m k] by (auto simp: map_put_def map_delete_def)

lemma length_delete: "length (map_delete k m) \<le> length m"
  by (simp add: map_delete_def)

lemma length_delete_key: "k \<in> set (map fst m) \<Longrightarrow> length (map_delete k m) < length m"
  unfolding map_delete_def by (induction m) (auto simp: le_imp_less_Suc)

lemma length_put: "length (map_put k e m) \<le> (if k \<in> set (map fst m) then length m else Suc (length m))"
  using length_delete_key [of k m] length_delete [of k m] by (auto simp: map_put_def Suc_leI)

lemma foldl_delete: "foldl (\<lambda>m k. map_delete k m) m ks = filter (\<lambda>p. fst p \<notin> set ks) m"
  by (induction ks arbitrary: m) (auto simp: map_delete_def intro: filter_cong)

section \<open>Eviction\<close>

text \<open>The invariant of the cache: the keys are distinct and the bound on its size holds.\<close>

definition rc_inv :: "ReplayCache \<Rightarrow> bool" where
  "rc_inv c \<longleftrightarrow> distinct (map fst (entries c)) \<and> int (length (entries c)) \<le> maxEntries c \<and> 1 \<le> maxEntries c"

text \<open>Lazy eviction removes only expired entries.\<close>

lemma lazyEvict_fields [simp]:
  "retention (lazyEvict ord now c) = retention c" "maxEntries (lazyEvict ord now c) = maxEntries c"
  by (simp_all add: lazyEvict_def Let_def)

lemma lazyEvict_filter: "\<exists>P. entries (lazyEvict ord now c) = filter P (entries c)"
  by (auto simp: lazyEvict_def Let_def foldl_delete intro: exI [of _ "\<lambda>_. True"])

lemma lazyEvict_lookup:
  assumes "distinct (map fst (entries c))" and "map_of (entries c) k = Some e" and "\<not> isExpired now e"
  shows "map_of (entries (lazyEvict ord now c)) k = Some e"
proof -
  let ?R = "filter (\<lambda>p. isExpired now (snd p)) (take batchSize (range_map ord 0 (entries c)))"
  have "k \<notin> fst ` set ?R"
  proof
    assume "k \<in> fst ` set ?R"
    then obtain e' where "(k, e') \<in> set (entries c)" "isExpired now e'"
      by (fastforce dest: in_set_takeD)
    with assms show False by (simp add: map_of_eq_Some_iff [OF assms(1)] eq_key_imp_eq_value)
  qed
  with assms(2) have "(k, e) \<in> set (filter (\<lambda>p. fst p \<notin> set (map fst ?R)) (entries c))"
    by (auto dest: map_of_SomeD)
  moreover have "distinct (map fst (filter (\<lambda>p. fst p \<notin> set (map fst ?R)) (entries c)))"
    using assms(1) by (rule distinct_map_filter)
  ultimately have "map_of (filter (\<lambda>p. fst p \<notin> set (map fst ?R)) (entries c)) k = Some e"
    by (simp add: map_of_eq_Some_iff)
  with assms(2) show ?thesis by (simp add: lazyEvict_def Let_def foldl_delete)
qed

lemma filter_lookup:
  assumes "distinct (map fst m)" and "map_of (filter P m) k = Some e"
  shows "map_of m k = Some e"
  using assms by (metis distinct_map_filter filter_is_subset map_of_eq_Some_iff subsetD)

lemma lazyEvict_inv: "rc_inv c \<Longrightarrow> rc_inv (lazyEvict ord now c)"
proof -
  assume inv: "rc_inv c"
  obtain P where P: "entries (lazyEvict ord now c) = filter P (entries c)" using lazyEvict_filter by blast
  have "length (filter P (entries c)) \<le> length (entries c)" by simp
  with inv P show ?thesis
    unfolding rc_inv_def by (simp add: distinct_map_filter) (smt (verit) length_filter_le of_nat_le_iff)
qed

text \<open>The scan for the least recently used entry finds one.\<close>

lemma lru_scan_Some:
  "\<exists>k t. lru_scan ps (Some (k0, t0)) = Some (k, t) \<and> t \<le> t0 \<and> (\<forall>p \<in> set ps. t \<le> lastAccessed (snd p)) \<and>
     ((k, t) = (k0, t0) \<or> (\<exists>p \<in> set ps. fst p = k \<and> lastAccessed (snd p) = t))"
proof (induction ps arbitrary: k0 t0)
  case (Cons p ps)
  show ?case
  proof (cases "lastAccessed (snd p) < t0")
    case True
    from Cons [of "fst p" "lastAccessed (snd p)"] obtain k t where
      "lru_scan ps (Some (fst p, lastAccessed (snd p))) = Some (k, t)" "t \<le> lastAccessed (snd p)"
      "\<forall>p \<in> set ps. t \<le> lastAccessed (snd p)"
      "(k, t) = (fst p, lastAccessed (snd p)) \<or> (\<exists>p \<in> set ps. fst p = k \<and> lastAccessed (snd p) = t)"
      by blast
    with True show ?thesis by (intro exI [of _ k] exI [of _ t]) auto
  next
    case False
    from Cons [of k0 t0] obtain k t where
      "lru_scan ps (Some (k0, t0)) = Some (k, t)" "t \<le> t0" "\<forall>p \<in> set ps. t \<le> lastAccessed (snd p)"
      "(k, t) = (k0, t0) \<or> (\<exists>p \<in> set ps. fst p = k \<and> lastAccessed (snd p) = t)"
      by blast
    with False show ?thesis by (intro exI [of _ k] exI [of _ t]) auto
  qed
qed simp

lemma lru_scan_None:
  assumes "ps \<noteq> []"
  shows "\<exists>p \<in> set ps. lru_scan ps None = Some (fst p, lastAccessed (snd p)) \<and>
    (\<forall>q \<in> set ps. lastAccessed (snd p) \<le> lastAccessed (snd q))"
proof -
  obtain q qs where ps: "ps = q # qs" using assms by (cases ps) auto
  from lru_scan_Some [of qs "fst q" "lastAccessed (snd q)"] obtain k t where
    r: "lru_scan qs (Some (fst q, lastAccessed (snd q))) = Some (k, t)"
    and min: "t \<le> lastAccessed (snd q)" "\<forall>p \<in> set qs. t \<le> lastAccessed (snd p)"
    and k: "(k, t) = (fst q, lastAccessed (snd q)) \<or> (\<exists>p \<in> set qs. fst p = k \<and> lastAccessed (snd p) = t)"
    by blast
  from k show ?thesis
  proof
    assume "(k, t) = (fst q, lastAccessed (snd q))"
    with r min show ?thesis by (intro bexI [of _ q]) (auto simp: ps)
  next
    assume "\<exists>p \<in> set qs. fst p = k \<and> lastAccessed (snd p) = t"
    then obtain p where "p \<in> set qs" "fst p = k" "lastAccessed (snd p) = t" by blast
    with r min show ?thesis by (intro bexI [of _ p]) (auto simp: ps)
  qed
qed

text \<open>
  \<open>evictLRU\<close> removes one entry: an expired one if there is one, otherwise one that was accessed
  least recently.
\<close>

lemma evictLRU_victim:
  assumes "entries c \<noteq> []"
  shows "\<exists>p \<in> set (entries c). evictLRU ord now c = c\<lparr>entries := map_delete (fst p) (entries c)\<rparr> \<and>
    (isExpired now (snd p) \<or>
     (\<forall>q \<in> set (entries c). \<not> isExpired now (snd q) \<and> lastAccessed (snd p) \<le> lastAccessed (snd q)))"
proof (cases "find (\<lambda>p. isExpired now (snd p)) (range_map ord 1 (entries c))")
  case (Some p)
  then have "p \<in> set (entries c)" "isExpired now (snd p)"
    using find_SomeD by fastforce+
  with Some show ?thesis by (intro bexI [of _ p]) (simp_all add: evictLRU_def)
next
  case None
  then have alive: "\<forall>q \<in> set (entries c). \<not> isExpired now (snd q)" by (auto simp: find_None_iff)
  have "range_map ord 2 (entries c) \<noteq> []" using assms set_range_map [of ord 2 "entries c"] by force
  from lru_scan_None [OF this] obtain p where "p \<in> set (entries c)"
    "lru_scan (range_map ord 2 (entries c)) None = Some (fst p, lastAccessed (snd p))"
    "\<forall>q \<in> set (entries c). lastAccessed (snd p) \<le> lastAccessed (snd q)" by auto
  with None alive show ?thesis by (intro bexI [of _ p]) (simp_all add: evictLRU_def)
qed

lemma evictLRU_fields [simp]:
  "retention (evictLRU ord now c) = retention c" "maxEntries (evictLRU ord now c) = maxEntries c"
  by (auto simp: evictLRU_def split: option.splits)

lemma evictLRU_distinct: "distinct (map fst (entries c)) \<Longrightarrow> distinct (map fst (entries (evictLRU ord now c)))"
  by (auto simp: evictLRU_def keys_delete split: option.splits)

lemma evictLRU_length: "entries c \<noteq> [] \<Longrightarrow> length (entries (evictLRU ord now c)) < length (entries c)"
  using evictLRU_victim [of c ord now] length_delete_key by fastforce

section \<open>The operations\<close>

definition live :: "int \<Rightarrow> cacheKey \<Rightarrow> ReplayCache \<Rightarrow> bool" where
  "live now k c \<longleftrightarrow> (\<exists>e. map_of (entries c) k = Some e \<and> \<not> isExpired now e)"

lemma live_lazyEvict: "rc_inv c \<Longrightarrow> live now k (lazyEvict ord now c) \<longleftrightarrow> live now k c"
proof -
  assume "rc_inv c"
  then have d: "distinct (map fst (entries c))" by (simp add: rc_inv_def)
  obtain P where P: "entries (lazyEvict ord now c) = filter P (entries c)" using lazyEvict_filter by blast
  show ?thesis
    using lazyEvict_lookup [OF d] filter_lookup [OF d, of P] unfolding live_def P [symmetric] by blast
qed

text \<open>Making room for one more entry.\<close>

definition make_room :: "iteration \<Rightarrow> int \<Rightarrow> ReplayCache \<Rightarrow> ReplayCache" where
  "make_room ord now c = (if int (length (entries c)) \<ge> maxEntries c then evictLRU ord now c else c)"

lemma make_room_fields [simp]:
  "retention (make_room ord now c) = retention c" "maxEntries (make_room ord now c) = maxEntries c"
  by (simp_all add: make_room_def)

lemma make_room_inv:
  assumes "rc_inv c"
  shows "rc_inv (make_room ord now c)" and "int (length (entries (make_room ord now c))) < maxEntries c"
proof -
  have ev: "int (length (entries (evictLRU ord now c))) < maxEntries c" if "int (length (entries c)) \<ge> maxEntries c"
  proof -
    have "entries c \<noteq> []" using that assms by (auto simp: rc_inv_def)
    from evictLRU_length [OF this, of ord now] assms show ?thesis by (simp add: rc_inv_def)
  qed
  then show "int (length (entries (make_room ord now c))) < maxEntries c" by (auto simp: make_room_def)
  with assms show "rc_inv (make_room ord now c)"
    by (auto simp: rc_inv_def make_room_def evictLRU_distinct)
qed

lemma delete_inv: "rc_inv c \<Longrightarrow> rc_inv (c\<lparr>entries := map_delete k (entries c)\<rparr>)"
  using length_delete [of k "entries c"] by (auto simp: rc_inv_def keys_delete)

lemma put_inv:
  assumes "rc_inv c" and "k \<in> set (map fst (entries c)) \<or> int (length (entries c)) < maxEntries c"
  shows "rc_inv (c\<lparr>entries := map_put k e (entries c)\<rparr>)"
  using assms length_put [of k e "entries c"] by (auto simp: rc_inv_def keys_put split: if_splits)

lemma delete_absent: "map_of m k = None \<Longrightarrow> map_delete k m = m"
  by (auto simp: map_delete_def map_of_eq_None_iff filter_id_conv)

text \<open>A call of \<open>CheckAndInsert\<close> with a nonce of the right length, in one equation.\<close>

lemma CheckAndInsert_eq:
  assumes "length nonce = NonceSize" and "rc_inv c"
  shows "CheckAndInsert ord now agentID nonce c =
    (let k = makeKey agentID nonce; c1 = lazyEvict ord now c in
     if live now k c then (Err ErrNonceReuse, c1)
     else let c2 = make_room ord now (c1\<lparr>entries := map_delete k (entries c1)\<rparr>) in
       (Ok (), c2\<lparr>entries := map_put k (new_entry now c) (entries c2)\<rparr>))"
proof -
  let ?k = "makeKey agentID nonce" and ?c1 = "lazyEvict ord now c"
  have l: "live now ?k c \<longleftrightarrow> (\<exists>e. map_of (entries ?c1) ?k = Some e \<and> \<not> isExpired now e)"
    using live_lazyEvict [OF assms(2), of now ?k ord] by (simp add: live_def)
  show ?thesis
  proof (cases "map_of (entries ?c1) ?k")
    case None
    with l assms(1) delete_absent [OF None] show ?thesis
      by (simp add: CheckAndInsert_def Let_def make_room_def new_entry_def)
  next
    case (Some e)
    with l assms(1) show ?thesis
      by (simp add: CheckAndInsert_def Let_def make_room_def new_entry_def)
  qed
qed

section \<open>The cache as a machine\<close>

datatype rc_event =
    RCheck iteration int bytes bytes
  | RCheckAndInsert iteration int bytes bytes
  | RInsert iteration int bytes bytes
  | REvictExpired int
  | RClear

primrec rc_step :: "rc_event \<Rightarrow> ReplayCache \<Rightarrow> (rc_error, unit) outcome \<times> ReplayCache" where
  "rc_step (RCheck ord now a n) c =
     (if fst (rc_Check ord now a n c) then Err ErrNonceReuse else Ok (), snd (rc_Check ord now a n c))"
| "rc_step (RCheckAndInsert ord now a n) c = CheckAndInsert ord now a n c"
| "rc_step (RInsert ord now a n) c = (Ok (), rc_Insert ord now a n c)"
| "rc_step (REvictExpired now) c = (Ok (), snd (EvictExpired now c))"
| "rc_step RClear c = (Ok (), rc_Clear c)"

definition rc_init :: "ReplayCache \<Rightarrow> bool" where
  "rc_init c \<longleftrightarrow> c = rc_New \<or> (\<exists>r n. NewWithParams r n = Ok c) \<or> (\<exists>r n k. NewWithCapacity r n k = Ok c)"

lemma rc_Check_inv: "rc_inv c \<Longrightarrow> rc_inv (snd (rc_Check ord now a n c))"
proof -
  assume "rc_inv c"
  note i = lazyEvict_inv [OF this, of ord now]
  have "rc_inv (lazyEvict ord now c\<lparr>entries := map_put (makeKey a n) e' (entries (lazyEvict ord now c))\<rparr>)"
    if "map_of (entries (lazyEvict ord now c)) (makeKey a n) = Some e" for e e'
  proof (rule put_inv [OF i], rule disjI1)
    from map_of_SomeD [OF that] show "makeKey a n \<in> set (map fst (entries (lazyEvict ord now c)))" by force
  qed
  with i delete_inv [OF i] \<open>rc_inv c\<close> show ?thesis
    by (auto simp: rc_Check_def Let_def split: option.splits)
qed

lemma CheckAndInsert_inv: "rc_inv c \<Longrightarrow> rc_inv (snd (CheckAndInsert ord now a n c))"
proof (cases "length n = NonceSize")
  case True
  assume inv: "rc_inv c"
  note i = lazyEvict_inv [OF inv, of ord now]
  note r = make_room_inv [OF delete_inv [OF i, of "makeKey a n"], of ord now]
  show ?thesis
    using i r unfolding CheckAndInsert_eq [OF True inv] Let_def by (auto intro!: put_inv)
qed (simp add: CheckAndInsert_def)

lemma rc_Insert_inv: "rc_inv c \<Longrightarrow> rc_inv (rc_Insert ord now a n c)"
proof -
  assume inv: "rc_inv c"
  let ?k = "makeKey a n" and ?c1 = "lazyEvict ord now c"
  let ?c2 = "if map_of (entries ?c1) ?k = None \<and> int (length (entries ?c1)) \<ge> maxEntries ?c1
              then evictLRU ord now ?c1 else ?c1"
  note i = lazyEvict_inv [OF inv, of ord now]
  note r = make_room_inv [OF i, of ord now]
  have "rc_inv ?c2" using i r(1) by (auto simp: make_room_def)
  moreover have "?k \<in> set (map fst (entries ?c2)) \<or> int (length (entries ?c2)) < maxEntries ?c2"
  proof (cases "map_of (entries ?c1) ?k")
    case None
    then show ?thesis using r(2) by (auto simp: make_room_def split: if_splits)
  next
    case (Some e)
    then have "?k \<in> fst ` set (entries ?c1)" by (force dest: map_of_SomeD)
    with Some show ?thesis by simp
  qed
  ultimately have "rc_inv (?c2\<lparr>entries := map_put ?k (new_entry now ?c2) (entries ?c2)\<rparr>)" by (rule put_inv)
  with inv show ?thesis by (simp add: rc_Insert_def Let_def)
qed

lemma EvictExpired_inv: "rc_inv c \<Longrightarrow> rc_inv (snd (EvictExpired now c))"
proof -
  assume "rc_inv c"
  moreover have "length (filter (\<lambda>p. \<not> isExpired now (snd p)) (entries c)) \<le> length (entries c)" by simp
  ultimately show ?thesis
    unfolding rc_inv_def EvictExpired_def Let_def
    by (simp add: distinct_map_filter del: length_filter_le)
qed

interpretation replay: invariant rc_step rc_init rc_inv
proof
  show "rc_inv c" if "rc_init c" for c
    using that by (auto simp: rc_init_def rc_New_def NewWithParams_def NewWithCapacity_def rc_inv_def
        rc_consts split: if_splits)
  show "rc_inv (snd (rc_step e c))" if "rc_inv c" for e c
    using that by (cases e) (simp_all add: rc_Check_inv CheckAndInsert_inv rc_Insert_inv EvictExpired_inv,
        simp add: rc_Clear_def rc_inv_def)
qed

section \<open>Retention\<close>

text \<open>The key has an entry that expires at \<open>d\<close> or later.\<close>

definition held :: "cacheKey \<Rightarrow> int \<Rightarrow> ReplayCache \<Rightarrow> bool" where
  "held k d c \<longleftrightarrow> (\<exists>e. map_of (entries c) k = Some e \<and> d \<le> expiresAt e)"

primrec ev_now :: "rc_event \<Rightarrow> int option" where
  "ev_now (RCheck ord now a n) = Some now"
| "ev_now (RCheckAndInsert ord now a n) = Some now"
| "ev_now (RInsert ord now a n) = Some now"
| "ev_now (REvictExpired now) = Some now"
| "ev_now RClear = None"

lemma held_live: "held k d c \<Longrightarrow> now < d \<Longrightarrow> live now k c"
  by (fastforce simp: held_def live_def isExpired_def)

lemma held_lazyEvict:
  assumes "rc_inv c" and "held k d c" and "now < d"
  shows "held k d (lazyEvict ord now c)"
proof -
  obtain e where e: "map_of (entries c) k = Some e" "d \<le> expiresAt e" using assms(2) by (auto simp: held_def)
  have "map_of (entries (lazyEvict ord now c)) k = Some e"
    using assms e by (intro lazyEvict_lookup) (auto simp: rc_inv_def isExpired_def)
  with e show ?thesis by (auto simp: held_def)
qed

lemma held_delete: "held k d c \<Longrightarrow> k' \<noteq> k \<Longrightarrow> held k d (c\<lparr>entries := map_delete k' (entries c)\<rparr>)"
  by (simp add: held_def map_of_delete)

lemma held_put:
  "held k d c \<Longrightarrow> d \<le> expiresAt e \<or> k' \<noteq> k \<Longrightarrow> held k d (c\<lparr>entries := map_put k' e (entries c)\<rparr>)"
  by (auto simp: held_def map_of_put)

lemma length_lazyEvict: "length (entries (lazyEvict ord now c)) \<le> length (entries c)"
  using lazyEvict_filter [of ord now c] by auto

lemma put_fields: "length (entries (c\<lparr>entries := map_put k e (entries c)\<rparr>)) \<le> Suc (length (entries c))"
  using length_put [of k e "entries c"] by (auto split: if_splits)

lemma make_room_id: "int (length (entries c)) < maxEntries c \<Longrightarrow> make_room ord now c = c"
  by (simp add: make_room_def)

text \<open>While there is room, an operation within the retention window keeps what is held.\<close>

definition keeps :: "cacheKey \<Rightarrow> int \<Rightarrow> ReplayCache \<Rightarrow> ReplayCache \<Rightarrow> bool" where
  "keeps k d c c' \<longleftrightarrow> held k d c' \<and> length (entries c') \<le> Suc (length (entries c)) \<and>
     retention c' = retention c \<and> maxEntries c' = maxEntries c"

lemma keeps_put:
  assumes "held k d c'" and "length (entries c') \<le> length (entries c)" and "retention c' = retention c"
    and "maxEntries c' = maxEntries c" and "d \<le> expiresAt e \<or> k' \<noteq> k"
  shows "keeps k d c (c'\<lparr>entries := map_put k' e (entries c')\<rparr>)"
  using held_put [OF assms(1,5)] put_fields [of k' e c'] assms(2-4) by (simp add: keeps_def)

lemma keeps_lazyEvict:
  assumes "rc_inv c" and "held k d c" and "now < d"
  shows "held k d (lazyEvict ord now c)" and "keeps k d c (lazyEvict ord now c)"
  using held_lazyEvict [OF assms] length_lazyEvict [of ord now c] by (simp_all add: keeps_def)

lemma keeps_self: "held k d c \<Longrightarrow> keeps k d c c"
  by (simp add: keeps_def)

lemma keeps_Check:
  assumes inv: "rc_inv c" and h: "held k d c" and now: "now < d"
  shows "keeps k d c (snd (rc_Check ord now a n c))"
proof -
  let ?c1 = "lazyEvict ord now c" and ?k = "makeKey a n"
  note lazy = keeps_lazyEvict [OF inv h now, of ord]
  have old: "d \<le> expiresAt e \<or> ?k \<noteq> k" if "map_of (entries ?c1) ?k = Some e" for e
    using lazy(1) that by (auto simp: held_def)
  have del: "keeps k d c (?c1\<lparr>entries := map_delete ?k (entries ?c1)\<rparr>)"
    if "map_of (entries ?c1) ?k = Some e" "isExpired now e" for e
  proof -
    have "?k \<noteq> k" using old [OF that(1)] that(2) now by (auto simp: isExpired_def)
    with held_delete [OF lazy(1)] length_lazyEvict [of ord now c] length_delete [of ?k "entries ?c1"] show ?thesis
      by (simp add: keeps_def)
  qed
  have put: "keeps k d c (?c1\<lparr>entries := map_put ?k (e\<lparr>lastAccessed := now\<rparr>) (entries ?c1)\<rparr>)"
    if "map_of (entries ?c1) ?k = Some e" for e
    using old [OF that] length_lazyEvict [of ord now c] lazy(1) by (intro keeps_put) auto
  from keeps_self [OF h] lazy(2) del put show ?thesis
    by (auto simp: rc_Check_def Let_def split: option.splits)
qed

lemma keeps_CheckAndInsert:
  assumes inv: "rc_inv c" and h: "held k d c" and now: "now < d" and room: "int (length (entries c)) < maxEntries c"
  shows "keeps k d c (snd (CheckAndInsert ord now a n c))"
proof (cases "length n = NonceSize \<and> \<not> live now (makeKey a n) c")
  case True
  let ?c1 = "lazyEvict ord now c" and ?k = "makeKey a n"
  let ?c2 = "?c1\<lparr>entries := map_delete ?k (entries ?c1)\<rparr>"
  note len = length_lazyEvict [of ord now c] length_delete [of ?k "entries ?c1"]
  have "?k \<noteq> k" using True held_live [OF h now] by auto
  have "int (length (entries ?c2)) < maxEntries ?c2" using room len by simp
  then have "make_room ord now ?c2 = ?c2" by (rule make_room_id)
  moreover have "keeps k d c (?c2\<lparr>entries := map_put ?k (new_entry now c) (entries ?c2)\<rparr>)"
    using \<open>?k \<noteq> k\<close> held_delete [OF keeps_lazyEvict(1) [OF inv h now]] len by (intro keeps_put) auto
  ultimately show ?thesis using True by (simp add: CheckAndInsert_eq [OF _ inv] Let_def)
next
  case False
  with keeps_self [OF h] keeps_lazyEvict(2) [OF inv h now] show ?thesis
    by (cases "length n = NonceSize") (auto simp: CheckAndInsert_eq [OF _ inv] Let_def, simp add: CheckAndInsert_def)
qed

lemma keeps_Insert:
  assumes inv: "rc_inv c" and h: "held k d c" and now: "now < d" "d \<le> now + retention c"
    and room: "int (length (entries c)) < maxEntries c"
  shows "keeps k d c (rc_Insert ord now a n c)"
proof -
  let ?c1 = "lazyEvict ord now c"
  have "d \<le> expiresAt (new_entry now ?c1)" using now(2) by (simp add: new_entry_def)
  then have "keeps k d c (?c1\<lparr>entries := map_put (makeKey a n) (new_entry now ?c1) (entries ?c1)\<rparr>)"
    using length_lazyEvict [of ord now c] keeps_lazyEvict(1) [OF inv h now(1)] by (intro keeps_put) auto
  moreover have "int (length (entries ?c1)) < maxEntries c" using length_lazyEvict [of ord now c] room by linarith
  ultimately show ?thesis using keeps_self [OF h] by (simp add: rc_Insert_def Let_def)
qed

lemma keeps_EvictExpired:
  assumes inv: "rc_inv c" and h: "held k d c" and now: "now < d"
  shows "keeps k d c (snd (EvictExpired now c))"
proof -
  obtain e where e: "map_of (entries c) k = Some e" "d \<le> expiresAt e" using h by (auto simp: held_def)
  have d: "distinct (map fst (entries c))" using inv by (simp add: rc_inv_def)
  have "(k, e) \<in> set (filter (\<lambda>p. \<not> isExpired now (snd p)) (entries c))"
    using e now by (auto simp: isExpired_def dest: map_of_SomeD)
  then have "map_of (filter (\<lambda>p. \<not> isExpired now (snd p)) (entries c)) k = Some e"
    using distinct_map_filter [OF d] by (simp add: map_of_eq_Some_iff)
  moreover have "length (filter (\<lambda>p. \<not> isExpired now (snd p)) (entries c)) \<le> Suc (length (entries c))"
    using length_filter_le le_SucI by blast
  ultimately show ?thesis using e(2) by (auto simp: keeps_def held_def EvictExpired_def Let_def)
qed

lemma rc_step_keeps:
  assumes "rc_inv c" and "held k d c" and "ev_now ev = Some now" "now < d" "d \<le> now + retention c"
    and "int (length (entries c)) < maxEntries c"
  shows "keeps k d c (snd (rc_step ev c))"
  using assms keeps_Check keeps_CheckAndInsert keeps_Insert keeps_EvictExpired by (cases ev) auto

lemma run_keeps:
  assumes "rc_inv c" and "held k d c" and "int (length (entries c) + length es) \<le> maxEntries c"
    and "\<forall>ev \<in> set es. \<exists>now. ev_now ev = Some now \<and> t \<le> now \<and> now < d" and "d \<le> t + retention c"
  shows "held k d (snd (run rc_step es c))"
  using assms
proof (induction es arbitrary: c)
  case (Cons ev es)
  from Cons.prems(4) obtain now where now: "ev_now ev = Some now" "t \<le> now" "now < d" by auto
  have "keeps k d c (snd (rc_step ev c))"
    using Cons.prems(1,2,3,5) now by (intro rc_step_keeps [of c k d ev now]) simp_all
  with Cons.prems Cons.IH [of "snd (rc_step ev c)"] show ?case
    by (simp add: keeps_def replay.inv_step)
qed simp

section \<open>Properties\<close>

lemma rc_New_inv [simp]: "rc_inv rc_New"
  by (simp add: rc_inv_def rc_New_def DefaultMaxEntries_def)

lemma new_not_live [simp]: "\<not> live now k rc_New"
  by (simp add: live_def rc_New_def)

lemma length_copy_into [simp]: "length (copy_into n bs) = n"
  by (simp add: copy_into_def)

lemma copy_into_full [simp]: "length bs = n \<Longrightarrow> copy_into n bs = bs"
  by (simp add: copy_into_def)

lemma CheckAndInsert_held:
  assumes "rc_inv c" and "CheckAndInsert ord now a n c = (Ok (), c')"
  shows "held (makeKey a n) (now + retention c) c'" and "retention c' = retention c" and "maxEntries c' = maxEntries c"
proof -
  have len: "length n = NonceSize" using assms(2) by (auto simp: CheckAndInsert_def split: if_splits)
  from assms(2) show "held (makeKey a n) (now + retention c) c'" "retention c' = retention c" "maxEntries c' = maxEntries c"
    unfolding CheckAndInsert_eq [OF len assms(1)]
    by (auto simp: Let_def held_def map_of_put new_entry_def split: if_splits)
qed

text \<open>
  C19: whatever sequence of operations, clock readings and map iteration orders, the cache never holds
  more than its maximum number of entries and never two entries for one key.
\<close>

theorem replay_cache_bounded:
  assumes "reach rc_step rc_init c"
  shows "int (rc_Len c) \<le> maxEntries c \<and> distinct (map fst (entries c))"
  using replay.reach_inv [OF assms] by (simp add: rc_inv_def rc_Len_def)

theorem replay_cache_bounded_witness: "int (rc_Len rc_New) \<le> 100000"
proof -
  have "reach rc_step rc_init rc_New" by (rule reach.initial) (simp add: rc_init_def)
  from replay_cache_bounded [OF this] show ?thesis by (simp add: rc_New_def DefaultMaxEntries_def)
qed

text \<open>
  \<open>CheckAndInsert\<close> decides exactly freshness: it reports a replay if and only if the pair has an
  entry that has not expired, and otherwise the pair is held for the whole retention time.
\<close>

lemma replay_check_and_insert:
  assumes "rc_inv c" and "length nonce = NonceSize"
  shows "fst (CheckAndInsert ord now agentID nonce c) =
      (if live now (makeKey agentID nonce) c then Err ErrNonceReuse else Ok ()) \<and>
    (\<not> live now (makeKey agentID nonce) c \<longrightarrow>
      held (makeKey agentID nonce) (now + retention c) (snd (CheckAndInsert ord now agentID nonce c)))"
  using CheckAndInsert_held(1) [OF assms(1), of ord now agentID nonce]
  by (auto simp: CheckAndInsert_eq [OF assms(2,1)] Let_def)

text \<open>
  C4: replays are rejected: after a successful \<open>CheckAndInsert\<close> at time \<open>t\<close>, any other operations of
  the cache but \<open>Clear\<close> (fewer than the entries there is room for), by whatever connections and in
  whatever interleaving, leave the pair in place, so that a second \<open>CheckAndInsert\<close> within the
  retention time fails.
\<close>

theorem replay_rejected:
  assumes "rc_inv c" and "CheckAndInsert ord t agentID nonce c = (Ok (), c1)"
    and "int (length (entries c1) + length es) \<le> maxEntries c"
    and "\<forall>ev \<in> set es. \<exists>now. ev_now ev = Some now \<and> t \<le> now \<and> now < t + retention c"
    and "t' < t + retention c"
  shows "fst (CheckAndInsert ord' t' agentID nonce (snd (run rc_step es c1))) = Err ErrNonceReuse"
proof -
  note ins = CheckAndInsert_held [OF assms(1,2)]
  have len: "length nonce = NonceSize" using assms(2) by (auto simp: CheckAndInsert_def split: if_splits)
  have inv1: "rc_inv c1" using CheckAndInsert_inv [OF assms(1), of ord t agentID nonce] assms(2) by simp
  have "held (makeKey agentID nonce) (t + retention c) (snd (run rc_step es c1))"
    using assms(3,4) ins by (intro run_keeps [OF inv1]) auto
  then have "live t' (makeKey agentID nonce) (snd (run rc_step es c1))" using assms(5) by (rule held_live)
  then show ?thesis using CheckAndInsert_eq [OF len replay.run_inv [OF inv1]] by (simp add: Let_def)
qed

theorem replay_rejected_witness:
  "fst (CheckAndInsert (\<lambda>_ m. m) 5 [1] (replicate 32 7)
     (snd (run rc_step [RCheck (\<lambda>_ m. m) 2 [1] (replicate 32 7)]
       (snd (CheckAndInsert (\<lambda>_ m. m) 0 [1] (replicate 32 7) rc_New))))) = Err ErrNonceReuse"
proof (rule replay_rejected [OF rc_New_inv])
  show "CheckAndInsert (\<lambda>_ m. m) 0 [1] (replicate 32 7) rc_New =
      (Ok (), snd (CheckAndInsert (\<lambda>_ m. m) 0 [1] (replicate 32 7) rc_New))"
    by (simp add: CheckAndInsert_eq NonceSize_def Let_def)
qed (simp_all add: CheckAndInsert_eq NonceSize_def Let_def lazyEvict_def make_room_def map_put_def
    map_delete_def go_half_def, simp_all add: rc_New_def rc_consts)

text \<open>
  Eviction makes room by one entry: an expired one if there is one, otherwise one that no other
  entry was accessed before; whatever the iteration order.
\<close>

lemma replay_eviction_policy:
  assumes "entries c \<noteq> []"
  shows "\<exists>p \<in> set (entries c). evictLRU ord now c = c\<lparr>entries := map_delete (fst p) (entries c)\<rparr> \<and>
    (isExpired now (snd p) \<or>
     (\<forall>q \<in> set (entries c). \<not> isExpired now (snd q) \<and> lastAccessed (snd p) \<le> lastAccessed (snd q)))"
  using assms by (rule evictLRU_victim)

text \<open>
  Checking and inserting in two calls is not atomic: two handshakes with the same nonce that both
  check before either inserts are both told that the nonce is fresh, whereas of two calls of
  \<open>CheckAndInsertClientHello\<close> the second is rejected. And \<open>Insert\<close>, documented as a no-op on a
  live entry, renews its expiry.
\<close>

lemma replay_two_calls_not_atomic:
  assumes "rc_inv (hr_cache h)" and "length nonce = NonceSize" and "\<not> live t (makeKey agentID nonce) (hr_cache h)"
    and "t \<le> t'" and "t' < t + retention (hr_cache h)"
  shows "fst (CheckClientHello ord t agentID nonce h) = Ok () \<and>
    fst (CheckClientHello ord' t' agentID nonce (snd (CheckClientHello ord t agentID nonce h))) = Ok () \<and>
    fst (CheckAndInsertClientHello ord t agentID nonce h) = Ok () \<and>
    fst (CheckAndInsertClientHello ord' t' agentID nonce (snd (CheckAndInsertClientHello ord t agentID nonce h)))
      = Err ErrNonceReuse \<and>
    map_of (entries (hr_cache (InsertClientHello ord' t' agentID nonce h))) (makeKey agentID nonce)
      = Some (new_entry t' (hr_cache h))"
proof -
  let ?k = "makeKey agentID nonce" and ?c = "hr_cache h"
  have check: "fst (CheckClientHello od u agentID nonce g) = Ok () \<and>
      (\<forall>v \<ge> u. \<not> live v ?k (hr_cache (snd (CheckClientHello od u agentID nonce g))))"
    if "rc_inv (hr_cache g)" "\<not> live u ?k (hr_cache g)" for od u g
  proof -
    have "\<not> live u ?k (lazyEvict od u (hr_cache g))" using that live_lazyEvict by blast
    with assms(2) show ?thesis
      by (auto simp: CheckClientHello_def rc_Check_def Let_def live_def map_of_delete isExpired_def split: option.splits)
  qed
  have inv': "rc_inv (hr_cache (snd (CheckClientHello ord t agentID nonce h)))"
    using rc_Check_inv [OF assms(1), of ord t agentID nonce] assms(1)
    by (auto simp: CheckClientHello_def split: prod.splits bool.splits)
  note c1 = check [OF assms(1,3)]
  have c2: "fst (CheckClientHello ord' t' agentID nonce (snd (CheckClientHello ord t agentID nonce h))) = Ok ()"
    using check [OF inv'] c1 assms(4) by blast
  obtain c' where ci: "CheckAndInsert ord t agentID nonce ?c = (Ok (), c')"
    using assms(3) CheckAndInsert_eq [OF assms(2,1), of ord t agentID] by (simp add: Let_def)
  have "fst (CheckAndInsert ord' t' agentID nonce c') = Err ErrNonceReuse"
    using CheckAndInsert_held(1) [OF assms(1) ci] assms(5) CheckAndInsert_inv [OF assms(1), of ord t agentID nonce] ci
    by (simp add: CheckAndInsert_eq [OF assms(2)] Let_def held_live)
  with c1 c2 ci assms(2) show ?thesis
    by (auto simp: CheckAndInsertClientHello_def InsertClientHello_def rc_Insert_def Let_def map_of_put new_entry_def
        split: prod.splits)
qed

text \<open>
  A constructor that refuses its parameters says which one and what the limits are, in the units of
  \<open>time.Duration\<close>: the texts name the constants of the package.
\<close>

lemma replay_parameter_errors:
  "r < MinRetention \<or> r > MaxRetention \<Longrightarrow> \<exists>e. NewWithParams r n = Err e \<and>
     rc_error_msg e = ''retention out of range: got '' @ duration_String r @ '', min 1m0s, max 1h0m0s''"
  "MinRetention \<le> r \<Longrightarrow> r \<le> MaxRetention \<Longrightarrow> n < MinMaxEntries \<or> n > MaxMaxEntries \<Longrightarrow>
     \<exists>e. NewWithParams r n = Err e \<and>
     rc_error_msg e = ''max_entries out of range: got '' @ fmt_i n @ '', min 1000, max 10000000''"
proof -
  have "duration_String MinRetention = ''1m0s''" "duration_String MaxRetention = ''1h0m0s''"
    using duration_seconds [of 60] duration_seconds [of 3600]
    by (simp_all add: rc_consts fmt_d.simps char_of_def bit_iff_odd)
  then show "r < MinRetention \<or> r > MaxRetention \<Longrightarrow> \<exists>e. NewWithParams r n = Err e \<and>
      rc_error_msg e = ''retention out of range: got '' @ duration_String r @ '', min 1m0s, max 1h0m0s''"
    by (auto simp: NewWithParams_def)
  have "fmt_i MinMaxEntries = ''1000''" "fmt_i MaxMaxEntries = ''10000000''"
    by (simp_all add: rc_consts fmt_i_def fmt_d.simps char_of_def bit_iff_odd)
  then show "MinRetention \<le> r \<Longrightarrow> r \<le> MaxRetention \<Longrightarrow> n < MinMaxEntries \<or> n > MaxMaxEntries \<Longrightarrow>
      \<exists>e. NewWithParams r n = Err e \<and>
      rc_error_msg e = ''max_entries out of range: got '' @ fmt_i n @ '', min 1000, max 10000000''"
    by (auto simp: NewWithParams_def)
qed

end
