(* ===== verification/Replay_Refinement.thy ===== *)
theory Replay_Refinement
  imports Replay_Properties
begin

text \<open>
  The replay cache refines the set the RFC describes: a time-bounded set of pairs of agent id and
  nonce that keeps every pair for the retention time and forgets none earlier. Lazy eviction, the
  sweep, the fixed-size keys and the iteration order of the map are invisible: as long as the calls
  insert no more pairs than the cache has room for, its answers are those of the set.
\<close>

section \<open>The abstract set\<close>

type_synonym timed_set = "bytes \<times> bytes \<Rightarrow> int option"

text \<open>What is left at time \<open>now\<close> of an expiry time.\<close>

definition unexpired :: "int \<Rightarrow> int option \<Rightarrow> int option" where
  "unexpired now x = (case x of Some d \<Rightarrow> if now < d then Some d else None | None \<Rightarrow> None)"

primrec timed_step :: "int \<Rightarrow> rc_event \<Rightarrow> timed_set \<Rightarrow> (rc_error, unit) outcome \<times> timed_set" where
  "timed_step r (RCheck ord now a n) s =
     (if length n = NonceSize \<and> unexpired now (s (a, n)) \<noteq> None then Err ErrNonceReuse else Ok (), s)"
| "timed_step r (RCheckAndInsert ord now a n) s =
     (if length n \<noteq> NonceSize then (Err (ErrNonceLength (length n)), s)
      else if unexpired now (s (a, n)) \<noteq> None then (Err ErrNonceReuse, s)
      else (Ok (), s((a, n) := Some (now + r))))"
| "timed_step r (RInsert ord now a n) s =
     (Ok (), if length n = NonceSize then s((a, n) := Some (now + r)) else s)"
| "timed_step r (REvictExpired now) s = (Ok (), s)"
| "timed_step r RClear s = (Ok (), \<lambda>_. None)"

section \<open>The relation\<close>

definition expiry :: "int \<Rightarrow> cacheKey \<Rightarrow> ReplayCache \<Rightarrow> int option" where
  "expiry now k c = unexpired now (map_option expiresAt (map_of (entries c) k))"

definition timed_rel :: "int \<Rightarrow> int \<times> int \<Rightarrow> ReplayCache \<Rightarrow> timed_set \<Rightarrow> bool" where
  "timed_rel r = (\<lambda>(room, t) c s. rc_inv c \<and> retention c = r \<and> 0 \<le> room \<and>
     int (length (entries c)) + room \<le> maxEntries c \<and>
     (\<forall>a n. length a = AgentIDSize \<longrightarrow> length n = NonceSize \<longrightarrow>
        expiry t (makeKey a n) c = unexpired t (s (a, n))))"

text \<open>Each call reads the clock, which never runs backwards; an insertion takes one place.\<close>

primrec inserts :: "rc_event \<Rightarrow> bool" where
  "inserts (RCheck ord now a n) = False"
| "inserts (RCheckAndInsert ord now a n) = True"
| "inserts (RInsert ord now a n) = True"
| "inserts (REvictExpired now) = False"
| "inserts RClear = False"

primrec ev_agent :: "rc_event \<Rightarrow> bytes option" where
  "ev_agent (RCheck ord now a n) = Some a"
| "ev_agent (RCheckAndInsert ord now a n) = Some a"
| "ev_agent (RInsert ord now a n) = Some a"
| "ev_agent (REvictExpired now) = None"
| "ev_agent RClear = None"

definition agent_id_ok :: "rc_event \<Rightarrow> bool" where
  "agent_id_ok ev \<longleftrightarrow> (case ev_agent ev of Some a \<Rightarrow> length a = AgentIDSize | None \<Rightarrow> True)"

definition timed_adv :: "rc_event \<Rightarrow> int \<times> int \<Rightarrow> (int \<times> int) option" where
  "timed_adv ev = (\<lambda>(room, t).
     let room' = (if inserts ev then room - 1 else room) in
     if room' < 0 \<or> \<not> agent_id_ok ev then None
     else case ev_now ev of None \<Rightarrow> Some (room', t) | Some now \<Rightarrow> if now < t then None else Some (room', now))"

lemma unexpired_None [simp]: "unexpired now None = None"
  by (simp add: unexpired_def)

lemma unexpired_later: "t \<le> now \<Longrightarrow> unexpired now (unexpired t x) = unexpired now x"
  by (auto simp: unexpired_def split: option.splits)

lemma expiry_live: "live now k c \<longleftrightarrow> expiry now k c \<noteq> None"
  by (auto simp: live_def expiry_def unexpired_def isExpired_def split: option.splits)

lemma makeKey_inj:
  "length a = AgentIDSize \<Longrightarrow> length b = AgentIDSize \<Longrightarrow> length n = NonceSize \<Longrightarrow> length m = NonceSize \<Longrightarrow>
   makeKey a n = makeKey b m \<longleftrightarrow> a = b \<and> n = m"
  by (simp add: makeKey_def)

section \<open>The operations\<close>

lemma expiry_update:
  "expiry now k (c\<lparr>entries := map_put k' e m\<rparr>) =
     (if k = k' then unexpired now (Some (expiresAt e)) else unexpired now (map_option expiresAt (map_of m k)))"
  "expiry now k (c\<lparr>entries := map_delete k' m\<rparr>) =
     (if k = k' then None else unexpired now (map_option expiresAt (map_of m k)))"
  by (simp_all add: expiry_def map_of_put map_of_delete)

lemma expiry_filter:
  assumes "rc_inv c" and "\<And>e. map_of (entries c) k = Some e \<Longrightarrow> \<not> isExpired now e \<Longrightarrow> map_of (filter P (entries c)) k = Some e"
  shows "expiry now k (c\<lparr>entries := filter P (entries c)\<rparr>) = expiry now k c"
proof (cases "map_of (filter P (entries c)) k")
  case (Some e)
  with assms(1) have "map_of (entries c) k = Some e" unfolding rc_inv_def by (metis filter_lookup)
  with Some show ?thesis by (simp add: expiry_def)
next
  case None
  then have "\<not> live now k c" using assms(2) by (auto simp: live_def)
  then have "expiry now k c = None" by (simp add: expiry_live)
  with None show ?thesis by (simp add: expiry_def)
qed

lemma expiry_lazyEvict:
  assumes "rc_inv c"
  shows "expiry now k (lazyEvict ord now c) = expiry now k c"
proof -
  obtain P where P: "entries (lazyEvict ord now c) = filter P (entries c)" using lazyEvict_filter by blast
  have "expiry now k (c\<lparr>entries := filter P (entries c)\<rparr>) = expiry now k c"
    using assms lazyEvict_lookup [of c k _ now ord] unfolding P
    by (intro expiry_filter) (auto simp: rc_inv_def)
  with P show ?thesis by (simp add: expiry_def)
qed

lemmas lookup_lazyEvict = expiry_lazyEvict [unfolded expiry_def [of _ _ "lazyEvict _ _ _"]]

lemma expiry_EvictExpired:
  assumes "rc_inv c"
  shows "expiry now k (snd (EvictExpired now c)) = expiry now k c"
proof -
  have d: "distinct (map fst (entries c))" using assms by (simp add: rc_inv_def)
  have "map_of (filter (\<lambda>p. \<not> isExpired now (snd p)) (entries c)) k = Some e"
    if "map_of (entries c) k = Some e" "\<not> isExpired now e" for e
    using that map_of_SomeD [OF that(1)] distinct_map_filter [OF d] by (simp add: map_of_eq_Some_iff)
  with assms show ?thesis by (simp add: EvictExpired_def Let_def expiry_filter)
qed

lemma expiry_Check:
  assumes "rc_inv c" and "length n = NonceSize"
  shows "fst (rc_Check ord now a n c) \<longleftrightarrow> expiry now (makeKey a n) c \<noteq> None"
    and "expiry now k (snd (rc_Check ord now a n c)) = expiry now k c"
proof -
  note lazy = expiry_lazyEvict [OF assms(1), where ord = ord and now = now]
  let ?m = "map_of (entries (lazyEvict ord now c)) (makeKey a n)"
  have e: "expiry now (makeKey a n) c = unexpired now (map_option expiresAt ?m)"
    using lazy [of "makeKey a n"] by (simp add: expiry_def)
  show "fst (rc_Check ord now a n c) \<longleftrightarrow> expiry now (makeKey a n) c \<noteq> None"
    using assms(2) by (cases ?m) (auto simp: rc_Check_def Let_def e unexpired_def isExpired_def)
  show "expiry now k (snd (rc_Check ord now a n c)) = expiry now k c"
    using assms(2) e
    by (cases ?m) (auto simp: rc_Check_def Let_def lazy expiry_update lookup_lazyEvict [OF assms(1)],
      auto simp: unexpired_def isExpired_def)
qed

lemma expiry_CheckAndInsert:
  assumes "rc_inv c" and "length n = NonceSize" and room: "int (length (entries c)) < maxEntries c"
  shows "fst (CheckAndInsert ord now a n c) = (if expiry now (makeKey a n) c \<noteq> None then Err ErrNonceReuse else Ok ())"
    and "expiry now k (snd (CheckAndInsert ord now a n c)) =
      (if k = makeKey a n \<and> expiry now (makeKey a n) c = None then unexpired now (Some (now + retention c))
       else expiry now k c)"
proof -
  let ?c1 = "lazyEvict ord now c"
  let ?c2 = "?c1\<lparr>entries := map_delete (makeKey a n) (entries ?c1)\<rparr>"
  have "length (entries ?c2) \<le> length (entries c)"
    using length_lazyEvict [of ord now c] length_delete [of "makeKey a n" "entries ?c1"] by simp
  then have "make_room ord now ?c2 = ?c2" using room by (intro make_room_id) simp
  then show "fst (CheckAndInsert ord now a n c) = (if expiry now (makeKey a n) c \<noteq> None then Err ErrNonceReuse else Ok ())"
    "expiry now k (snd (CheckAndInsert ord now a n c)) =
      (if k = makeKey a n \<and> expiry now (makeKey a n) c = None then unexpired now (Some (now + retention c))
       else expiry now k c)"
    unfolding CheckAndInsert_eq [OF assms(2,1)] Let_def
    by (simp_all add: expiry_live expiry_lazyEvict [OF assms(1)] new_entry_def expiry_update map_of_delete
        lookup_lazyEvict [OF assms(1)])
qed

lemma expiry_Insert:
  assumes "rc_inv c" and "length n = NonceSize" and room: "int (length (entries c)) < maxEntries c"
  shows "expiry now k (rc_Insert ord now a n c) =
    (if k = makeKey a n then unexpired now (Some (now + retention c)) else expiry now k c)"
proof -
  have "\<not> maxEntries c \<le> int (length (entries (lazyEvict ord now c)))"
    using length_lazyEvict [of ord now c] room by simp
  with assms(2) show ?thesis
    by (simp add: rc_Insert_def Let_def new_entry_def expiry_update lookup_lazyEvict [OF assms(1)])
qed

section \<open>Room\<close>

lemma rc_step_fields:
  "retention (snd (rc_step ev c)) = retention c" "maxEntries (snd (rc_step ev c)) = maxEntries c"
  by (cases ev; auto simp: rc_Check_def CheckAndInsert_def rc_Insert_def EvictExpired_def rc_Clear_def Let_def
      split: option.splits)+

lemma length_Check: "length (entries (snd (rc_Check ord now a n c))) \<le> length (entries c)"
proof -
  let ?m = "entries (lazyEvict ord now c)" and ?k = "makeKey a n"
  have "length (map_put ?k e' ?m) \<le> length (entries c)" if "map_of ?m ?k = Some e" for e e'
    using length_put [of ?k e' ?m] map_of_SomeD [OF that] length_lazyEvict [of ord now c] by (force split: if_splits)
  moreover have "length (map_delete ?k ?m) \<le> length (entries c)"
    using length_lazyEvict [of ord now c] length_delete [of ?k ?m] by simp
  ultimately show ?thesis
    using length_lazyEvict [of ord now c] by (simp add: rc_Check_def Let_def split: option.split)
qed

lemma length_evictLRU: "length (entries (evictLRU ord now c)) \<le> length (entries c)"
  by (auto simp: evictLRU_def length_delete split: option.splits)

lemma length_CheckAndInsert:
  assumes "rc_inv c"
  shows "length (entries (snd (CheckAndInsert ord now a n c))) \<le> Suc (length (entries c))"
proof (cases "length n = NonceSize")
  case True
  let ?c1 = "lazyEvict ord now c"
  let ?c2 = "make_room ord now (?c1\<lparr>entries := map_delete (makeKey a n) (entries ?c1)\<rparr>)"
  have "length (entries ?c2) \<le> length (entries c)"
    using length_lazyEvict [of ord now c] length_delete [of "makeKey a n" "entries ?c1"]
      length_evictLRU [of ord now "?c1\<lparr>entries := map_delete (makeKey a n) (entries ?c1)\<rparr>"]
    by (auto simp: make_room_def)
  then show ?thesis
    using put_fields [of "makeKey a n" "new_entry now c" ?c2] length_lazyEvict [of ord now c]
    by (auto simp: CheckAndInsert_eq [OF True assms] Let_def)
qed (simp add: CheckAndInsert_def)

lemma length_Insert: "length (entries (rc_Insert ord now a n c)) \<le> Suc (length (entries c))"
proof (cases "length n = NonceSize")
  case True
  let ?c1 = "lazyEvict ord now c"
  define c2 where "c2 = (if map_of (entries ?c1) (makeKey a n) = None \<and> int (length (entries ?c1)) \<ge> maxEntries ?c1
      then evictLRU ord now ?c1 else ?c1)"
  have "length (entries c2) \<le> length (entries c)"
    using length_lazyEvict [of ord now c] length_evictLRU [of ord now ?c1] by (auto simp: c2_def)
  moreover have "rc_Insert ord now a n c = c2\<lparr>entries := map_put (makeKey a n) (new_entry now c2) (entries c2)\<rparr>"
    using True unfolding rc_Insert_def Let_def c2_def by simp
  ultimately show ?thesis using put_fields [of "makeKey a n" "new_entry now c2" c2] by simp
qed (simp add: rc_Insert_def)

lemma rc_step_room:
  assumes "rc_inv c"
  shows "length (entries (snd (rc_step ev c))) \<le> length (entries c) + (if inserts ev then 1 else 0)"
  using length_Check length_CheckAndInsert [OF assms] length_Insert
  by (cases ev) (simp_all add: EvictExpired_def Let_def rc_Clear_def)

section \<open>The simulation\<close>

text \<open>After an event the index has the event's clock reading, and the relation holds at that time too.\<close>

lemma expiry_later:
  assumes "expiry t k c = unexpired t x" and "t \<le> now"
  shows "expiry now k c = unexpired now x"
  using assms unexpired_later [OF assms(2)] by (metis expiry_def)

lemma timed_rel_later: "timed_rel r (room, t) c s \<Longrightarrow> t \<le> now \<Longrightarrow> timed_rel r (room, now) c s"
  by (auto simp: timed_rel_def intro: expiry_later)

definition ev_time :: "int \<Rightarrow> rc_event \<Rightarrow> int" where
  "ev_time t ev = (case ev_now ev of Some now \<Rightarrow> now | None \<Rightarrow> t)"

lemma timed_adv_SomeD:
  assumes "timed_adv ev (room, t) = Some j"
  shows "j = (room - (if inserts ev then 1 else 0), ev_time t ev)" and "0 \<le> room - (if inserts ev then 1 else 0)"
    and "t \<le> ev_time t ev" and "agent_id_ok ev"
  using assms by (auto simp: timed_adv_def Let_def ev_time_def split: if_splits option.splits)

lemma wrong_length:
  assumes "length n \<noteq> NonceSize"
  shows "rc_Check ord now a n c = (False, c)" and "CheckAndInsert ord now a n c = (Err (ErrNonceLength (length n)), c)"
    and "rc_Insert ord now a n c = c"
  using assms by (simp_all add: rc_Check_def CheckAndInsert_def rc_Insert_def)

lemma timed_relD:
  assumes "timed_rel r (room, t) c s"
  shows "rc_inv c" and "retention c = r" and "int (length (entries c)) + room \<le> maxEntries c"
    and "length a = AgentIDSize \<Longrightarrow> length n = NonceSize \<Longrightarrow> expiry t (makeKey a n) c = unexpired t (s (a, n))"
  using assms by (auto simp: timed_rel_def)

lemma timed_step_answer:
  assumes "timed_rel r (room, ev_time t ev) c s" and "agent_id_ok ev" and "0 \<le> room - (if inserts ev then 1 else 0)"
  shows "fst (rc_step ev c) = fst (timed_step r ev s)"
proof (cases ev)
  case (RCheck ord now b m)
  then show ?thesis
    using assms(2) timed_relD(4) [OF assms(1), of b m] expiry_Check(1) [OF timed_relD(1) [OF assms(1)], of m ord now b]
    by (cases "length m = NonceSize") (simp_all add: ev_time_def agent_id_ok_def wrong_length)
next
  case (RCheckAndInsert ord now b m)
  then have "int (length (entries c)) < maxEntries c" using assms(3) timed_relD(3) [OF assms(1)] by simp
  with RCheckAndInsert show ?thesis
    using assms(2) timed_relD(4) [OF assms(1), of b m]
      expiry_CheckAndInsert(1) [OF timed_relD(1) [OF assms(1)], of m ord now b]
    by (cases "length m = NonceSize") (simp_all add: ev_time_def agent_id_ok_def wrong_length)
qed simp_all

lemma timed_step_state:
  assumes "timed_rel r (room, ev_time t ev) c s" and "agent_id_ok ev" and "0 \<le> room - (if inserts ev then 1 else 0)"
    and an: "length a = AgentIDSize" "length n = NonceSize"
  shows "expiry (ev_time t ev) (makeKey a n) (snd (rc_step ev c)) = unexpired (ev_time t ev) (snd (timed_step r ev s) (a, n))"
proof -
  note rel = timed_relD [OF assms(1)] and inv = timed_relD(1) [OF assms(1)]
  have space: "int (length (entries c)) < maxEntries c" if "inserts ev" using that assms(3) rel(3) by simp
  show ?thesis
  proof (cases ev)
    case (RCheck ord now b m)
    then show ?thesis
      using rel(4) [OF an] expiry_Check(2) [OF inv, of m now "makeKey a n" ord b]
      by (cases "length m = NonceSize") (simp_all add: ev_time_def wrong_length)
  next
    case (RCheckAndInsert ord now b m)
    then show ?thesis
      using assms(2) space rel(2) rel(4) [OF an] rel(4) [of b m] an
        expiry_CheckAndInsert(2) [OF inv, of m now "makeKey a n" ord b]
      by (cases "length m = NonceSize") (auto simp: ev_time_def agent_id_ok_def wrong_length makeKey_inj)
  next
    case (RInsert ord now b m)
    then show ?thesis
      using assms(2) space rel(2) rel(4) [OF an] expiry_Insert [OF inv, of m now "makeKey a n" ord b] an
      by (cases "length m = NonceSize") (auto simp: ev_time_def agent_id_ok_def wrong_length makeKey_inj)
  next
    case (REvictExpired now)
    then show ?thesis using rel(4) [OF an] expiry_EvictExpired [OF inv] by (simp add: ev_time_def)
  next
    case RClear
    then show ?thesis by (simp add: rc_Clear_def expiry_def)
  qed
qed

interpretation timed: simulation rc_step "timed_step r" "timed_rel r" timed_adv for r
proof
  fix i c s ev j
  assume rel: "timed_rel r i c s" and adv: "timed_adv ev i = Some j"
  obtain room t where i: "i = (room, t)" by (cases i)
  note j = timed_adv_SomeD [OF adv [unfolded i]]
  have rel': "timed_rel r (room, ev_time t ev) c s" using timed_rel_later rel j(3) unfolding i by blast
  have inv: "rc_inv c" using rel by (simp add: timed_rel_def i)
  show "fst (rc_step ev c) = fst (timed_step r ev s)" by (rule timed_step_answer [OF rel' j(4,2)])
  show "timed_rel r j (snd (rc_step ev c)) (snd (timed_step r ev s))"
    using rel' timed_step_state [OF rel' j(4,2)] replay.inv_step [OF inv, of ev] rc_step_room [OF inv, of ev] j(1,2)
    by (auto simp: timed_rel_def rc_step_fields)
qed


section \<open>Property\<close>



end
