(* ===== verification/Cbor_Fields.thy ===== *)
theory Cbor_Fields
  imports Cbor_Theorems "HOL-Library.AList"
begin

text \<open>
  How the packages \<open>identity\<close> and \<open>handshake\<close> read their structures out of a CBOR value: a lookup
  by integer key whose result is used only if it has the expected kind, and what such a lookup
  returns for a value that went through the encoder and the decoder.
\<close>

section \<open>Fields of a structure\<close>

text \<open>\<open>val := v.IntMapGet(key); val != nil && val.Kind() == kind\<close>\<close>

definition field :: "ValueKind \<Rightarrow> cbor_value \<Rightarrow> i64 \<Rightarrow> cbor_value option" where
  "field kind v key = (case IntMapGet v key of
     Some val \<Rightarrow> if Kind val = kind then Some val else None | None \<Rightarrow> None)"

text \<open>An optional field keeps its zero value when the lookup fails.\<close>

definition field_uint :: "cbor_value \<Rightarrow> i64 \<Rightarrow> u64" where
  "field_uint v key = (case field KindUnsigned v key of Some val \<Rightarrow> v_uint val | None \<Rightarrow> 0)"

definition field_bytes :: "cbor_value \<Rightarrow> i64 \<Rightarrow> bytes" where
  "field_bytes v key = (case field KindByteString v key of Some val \<Rightarrow> v_bytes val | None \<Rightarrow> [])"

definition field_arr :: "cbor_value \<Rightarrow> i64 \<Rightarrow> cbor_value list" where
  "field_arr v key = (case field KindArray v key of Some val \<Rightarrow> v_arr val | None \<Rightarrow> [])"

definition field_bool :: "cbor_value \<Rightarrow> i64 \<Rightarrow> bool" where
  "field_bool v key = (case field KindBool v key of Some val \<Rightarrow> v_bool val | None \<Rightarrow> False)"

lemmas field_defs = field_uint_def field_bytes_def field_arr_def field_bool_def field_def

text \<open>A loop that decodes the items of an array and stops at the first error.\<close>

primrec decode_each :: "(cbor_value \<Rightarrow> ('e, 'a) outcome) \<Rightarrow> cbor_value list \<Rightarrow> ('e, 'a list) outcome" where
  "decode_each f [] = Ok []"
| "decode_each f (v # vs) = obind (f v) (\<lambda>a. obind (decode_each f vs) (\<lambda>as. Ok (a # as)))"

lemma decode_each_map:
  "\<forall>x \<in> set xs. f (g x) = Ok (h x) \<Longrightarrow> decode_each f (map g xs) = Ok (map h xs)"
  by (induction xs) auto

lemma decode_each_no_Panic: "\<forall>v. f v \<noteq> Panic \<Longrightarrow> decode_each f vs \<noteq> Panic"
  by (induction vs) (auto simp: obind_eq_Panic)

section \<open>Lookups in the normal form of a value\<close>

lemma map_of_sortInt: "distinct (map fst es) \<Longrightarrow> map_of (sortIntMapEntries es) = map_of es"
proof -
  assume d: "distinct (map fst es)"
  have "distinct (map fst (sortIntMapEntries es))"
    using d by (metis mset_sort(1) mset_map mset_eq_imp_distinct_iff)
  with d show ?thesis by (intro map_of_inject_set [THEN iffD2]) simp_all
qed

lemma map_of_map_prod: "map_of (map (map_prod id f) es) key = map_option f (map_of es key)"
  by (induction es) auto

lemma IntMapGet_canon:
  "distinct (map fst es) \<Longrightarrow> IntMapGet (canon (IMap es)) key = map_option canon (map_of es key)"
  by (simp add: IntMapGet_def map_of_sortInt map_of_map_prod)

lemma Kind_canon: "v \<noteq> SMap [] \<Longrightarrow> Kind (canon v) = Kind v"
  by (cases v) auto

text \<open>Two structures with the same distinct keys have the same normal form exactly if their fields have.\<close>

lemma canon_IMap_eq_iff:
  assumes "distinct (map fst es)" and "map fst es = map fst fs"
  shows "canon (IMap es) = canon (IMap fs) \<longleftrightarrow> map (canon \<circ> snd) es = map (canon \<circ> snd) fs"
proof
  assume eq: "canon (IMap es) = canon (IMap fs)"
  have d: "distinct (map fst fs)" using assms by simp
  have get: "map_option canon (map_of es k) = map_option canon (map_of fs k)" for k
    using eq IntMapGet_canon [OF assms(1), of k] IntMapGet_canon [OF d, of k] by simp
  have len: "length es = length fs" using assms(2) by (rule map_eq_imp_length_eq)
  show "map (canon \<circ> snd) es = map (canon \<circ> snd) fs"
  proof (rule nth_equalityI)
    fix i assume "i < length (map (canon \<circ> snd) es)"
    then have i: "i < length es" "i < length fs" using len by simp_all
    have "fst (es ! i) = fst (fs ! i)" using assms(2) i by (metis nth_map)
    moreover have "map_of es (fst (es ! i)) = Some (snd (es ! i))" "map_of fs (fst (fs ! i)) = Some (snd (fs ! i))"
      using i assms(1) d by (simp_all add: map_of_eq_Some_iff)
    ultimately show "map (canon \<circ> snd) es ! i = map (canon \<circ> snd) fs ! i"
      using get [of "fst (es ! i)"] i by simp
  qed (simp add: len)
next
  assume eq: "map (canon \<circ> snd) es = map (canon \<circ> snd) fs"
  have "map (map_prod id canon) es = zip (map fst es) (map (canon \<circ> snd) es)"
    and "map (map_prod id canon) fs = zip (map fst fs) (map (canon \<circ> snd) fs)"
    by (induction es, simp_all, induction fs, simp_all) (simp_all add: map_prod_def split_beta)
  with eq assms(2) show "canon (IMap es) = canon (IMap fs)" by simp
qed

section \<open>How long an encoding can be\<close>

primrec enc_bound :: "cbor_value \<Rightarrow> nat" where
  "enc_bound (UUint n) = 9"
| "enc_bound (NegV n) = 9"
| "enc_bound (BStr b) = 9 + length b"
| "enc_bound (TStr s) = 9 + length s"
| "enc_bound (Arr vs) = 9 + sum_list (map enc_bound vs)"
| "enc_bound (IMap es) = 9 + sum_list (map (\<lambda>(k, n). 9 + n) (map (map_prod id enc_bound) es))"
| "enc_bound (SMap es) = 9 + sum_list (map (\<lambda>(k, n). 9 + length k + n) (map (map_prod id enc_bound) es))"
| "enc_bound (BoolV b) = 1"
| "enc_bound NullV = 1"

lemma length_encodeHead_le: "length (encodeHead mt n) \<le> 9"
  by (simp add: encodeHead_def)

lemma length_encodeNInt_le: "length (encodeValue (NInt n)) \<le> 9"
  by (simp add: NInt_def length_encodeHead_le)

lemma length_concat_map_le:
  "\<forall>x \<in> set xs. length (f x) \<le> g x \<Longrightarrow> length (concat (map f xs)) \<le> sum_list (map g xs)"
  by (induction xs) auto

lemma sum_list_sort: "mset xs = mset ys \<Longrightarrow> sum_list (map f xs) = sum_list (map (f :: 'a \<Rightarrow> nat) ys)"
  by (metis mset_map sum_mset_sum_list)

lemma length_encodeValue_le: "length (encodeValue v) \<le> enc_bound v"
proof (induction v)
  case (Arr vs)
  then have "length (concat (map encodeValue vs)) \<le> sum_list (map enc_bound vs)"
    by (intro length_concat_map_le) simp
  then show ?case using length_encodeHead_le [of mtArray "of_nat (length vs)"] by simp
next
  case (IMap es)
  let ?f = "\<lambda>(k, v). encodeValue (NInt k) @ encodeValue v" and ?g = "\<lambda>(k, v). 9 + enc_bound v"
  have "length (concat (map ?f (sortIntMapEntries es))) \<le> sum_list (map ?g (sortIntMapEntries es))"
    using IMap.IH snd_in_snds
    by (intro length_concat_map_le) (fastforce simp: intro!: add_mono length_encodeNInt_le)
  also have "\<dots> = sum_list (map ?g es)" by (rule sum_list_sort) simp
  finally show ?case
    using length_encodeHead_le [of mtMap "of_nat (length es)"]
    by (simp add: Let_def comp_def case_prod_unfold)
next
  case (SMap es)
  let ?f = "\<lambda>(k, v). encodeValue (TStr k) @ encodeValue v" and ?g = "\<lambda>(k, v). 9 + length k + enc_bound v"
  have key: "length (encodeValue (TStr k)) \<le> 9 + length k" for k
    by (simp add: length_encodeHead_le)
  have "length (concat (map ?f (sortStrMapEntries es))) \<le> sum_list (map ?g (sortStrMapEntries es))"
    using SMap.IH snd_in_snds key
    by (intro length_concat_map_le) (fastforce simp del: encodeValue.simps intro!: add_mono)
  also have "\<dots> = sum_list (map ?g es)" by (rule sum_list_sort) simp
  finally show ?case
    using length_encodeHead_le [of mtMap "of_nat (length es)"]
    by (simp add: Let_def comp_def case_prod_unfold)
qed (simp_all add: length_encodeHead_le)

lemma small_encoding: "enc_bound v \<le> 2 ^ 40 \<Longrightarrow> small_input (encodeValue v)"
  using length_encodeValue_le [of v] by (simp add: small_input_def)

section \<open>Building a Go map from a list of entries\<close>

definition go_map_of :: "('k \<times> 'v) list \<Rightarrow> ('k \<times> 'v) list" where
  "go_map_of es = foldl (\<lambda>m e. AList.update (fst e) (snd e) m) [] es"

lemma update_fresh: "k \<notin> set (map fst m) \<Longrightarrow> AList.update k v m = m @ [(k, v)]"
  by (induction m) auto

lemma go_map_of_distinct: "distinct (map fst es) \<Longrightarrow> go_map_of es = es"
proof (induction es rule: rev_induct)
  case (snoc e es)
  then have "go_map_of (es @ [e]) = AList.update (fst e) (snd e) es"
    by (simp add: go_map_of_def)
  with snoc.prems show ?case by (simp add: update_fresh)
qed (simp add: go_map_of_def)

lemma distinct_go_map_of: "distinct (map fst (go_map_of es))"
  by (induction es rule: rev_induct) (simp_all add: go_map_of_def distinct_update)

lemma go_map_of_last: "map_of (go_map_of es) k = map_of (rev es) k"
  by (induction es rule: rev_induct) (auto simp: go_map_of_def update_conv')

section \<open>Structures with a CBOR form\<close>

text \<open>
  The contract of a pair of conversions \<open>ToCBOR\<close> and \<open>FromCBOR\<close>: well-formed structures convert to
  well-formed values, and reading the normal form of such a value gives the normal form of the
  structure. From it, once for all structures: transport over the wire, and that the bytes
  determine the structure.
\<close>

locale cbor_struct =
  fixes to_cbor :: "'a \<Rightarrow> cbor_value" and from_cbor :: "cbor_value \<Rightarrow> ('e, 'a) outcome"
    and ok :: "'a \<Rightarrow> bool" and norm :: "'a \<Rightarrow> 'a"
  assumes wf_to_cbor: "ok x \<Longrightarrow> wf_value (to_cbor x)"
    and from_canon: "ok x \<Longrightarrow> from_cbor (canon (to_cbor x)) = Ok (norm x)"
begin

lemma wire_decode:
  "ok x \<Longrightarrow> small_input (encodeValue (to_cbor x)) \<Longrightarrow>
   cbor_Decode (encodeValue (to_cbor x)) = Ok (canon (to_cbor x), length (encodeValue (to_cbor x)))"
  by (simp add: cbor_Decode_def decode_encode_full wf_to_cbor)

lemma wire_roundtrip:
  assumes "ok x" and "small_input (encodeValue (to_cbor x))"
  shows "\<exists>v. cbor_Decode (encodeValue (to_cbor x)) = Ok (v, length (encodeValue (to_cbor x))) \<and> from_cbor v = Ok (norm x)"
  using wire_decode [OF assms] from_canon [OF assms(1)] by blast

lemma wire_inj:
  assumes "ok x" and "ok y" and "small_input (encodeValue (to_cbor x))"
    and "encodeValue (to_cbor x) = encodeValue (to_cbor y)"
  shows "norm x = norm y"
  using assms encode_eq_iff [OF wf_to_cbor wf_to_cbor, of x y] from_canon by (metis outcome.inject(1))

end

end
