(* ===== verification/Go_Sha256.thy ===== *)
theory Go_Sha256
  imports Go_Prelude
begin

text \<open>
  The two packages of Go's standard library that the identity and handshake packages call:
  \<open>crypto/sha256\<close> (FIPS 180-4) and \<open>crypto/hmac\<close> over it (RFC 2104, \<open>hmac.Equal\<close> included).
  Everything is executable.
\<close>

section \<open>SHA-256\<close>

text \<open>
  The constants are given by their meaning in the standard: the first 32 bits of the fractional parts
  of the cube roots (the round constants) and of the square roots (the initial state) of the first
  primes. \<open>iroot\<close> finds the integer part of a \<open>k\<close>-th root bit by bit; the conversion to a word keeps
  the low 32 bits.
\<close>

primrec iroot :: "nat \<Rightarrow> int \<Rightarrow> nat \<Rightarrow> int \<Rightarrow> int" where
  "iroot k n 0 r = r"
| "iroot k n (Suc b) r = iroot k n b (if (r + 2 ^ b) ^ k \<le> n then r + 2 ^ b else r)"

definition root_bits :: "nat \<Rightarrow> int \<Rightarrow> u32" where
  "root_bits k p = word_of_int (iroot k (p * 2 ^ (32 * k)) 40 0)"

definition sha_primes :: "int list" where
  "sha_primes =
    [2, 3, 5, 7, 11, 13, 17, 19, 23, 29, 31, 37, 41, 43, 47, 53,
     59, 61, 67, 71, 73, 79, 83, 89, 97, 101, 103, 107, 109, 113, 127, 131,
     137, 139, 149, 151, 157, 163, 167, 173, 179, 181, 191, 193, 197, 199, 211, 223,
     227, 229, 233, 239, 241, 251, 257, 263, 269, 271, 277, 281, 283, 293, 307, 311]"

definition sha_K :: "u32 list" where
  "sha_K = map (root_bits 3) sha_primes"

type_synonym sha_state = "u32 \<times> u32 \<times> u32 \<times> u32 \<times> u32 \<times> u32 \<times> u32 \<times> u32"

definition sha_init :: sha_state where
  "sha_init = (root_bits 2 2, root_bits 2 3, root_bits 2 5, root_bits 2 7,
     root_bits 2 11, root_bits 2 13, root_bits 2 17, root_bits 2 19)"

definition rotr32 :: "nat \<Rightarrow> u32 \<Rightarrow> u32" where
  "rotr32 n x = drop_bit n x OR push_bit (32 - n) x"

definition sha_sigma0 :: "u32 \<Rightarrow> u32" where
  "sha_sigma0 x = rotr32 7 x XOR rotr32 18 x XOR drop_bit 3 x"

definition sha_sigma1 :: "u32 \<Rightarrow> u32" where
  "sha_sigma1 x = rotr32 17 x XOR rotr32 19 x XOR drop_bit 10 x"

definition sha_Sigma0 :: "u32 \<Rightarrow> u32" where
  "sha_Sigma0 x = rotr32 2 x XOR rotr32 13 x XOR rotr32 22 x"

definition sha_Sigma1 :: "u32 \<Rightarrow> u32" where
  "sha_Sigma1 x = rotr32 6 x XOR rotr32 11 x XOR rotr32 25 x"

text \<open>The message schedule, latest word first.\<close>

primrec sha_extend :: "nat \<Rightarrow> u32 list \<Rightarrow> u32 list" where
  "sha_extend 0 ws = ws"
| "sha_extend (Suc n) ws =
     sha_extend n ((sha_sigma1 (ws ! 1) + ws ! 6 + sha_sigma0 (ws ! 14) + ws ! 15) # ws)"

fun words_be :: "bytes \<Rightarrow> u32 list" where
  "words_be (a # b # c # d # bs) = be_get [a, b, c, d] # words_be bs"
| "words_be _ = []"

definition sha_schedule :: "bytes \<Rightarrow> u32 list" where
  "sha_schedule block = rev (sha_extend 48 (rev (words_be block)))"

definition sha_round :: "u32 \<times> u32 \<Rightarrow> sha_state \<Rightarrow> sha_state" where
  "sha_round kw st = (case st of (a, b, c, d, e, f, g, h) \<Rightarrow>
     let t1 = h + sha_Sigma1 e + ((e AND f) XOR (NOT e AND g)) + fst kw + snd kw;
         t2 = sha_Sigma0 a + ((a AND b) XOR (a AND c) XOR (b AND c))
     in (t1 + t2, a, b, c, d + t1, e, f, g))"

definition sha_block :: "bytes \<Rightarrow> sha_state \<Rightarrow> sha_state" where
  "sha_block block st =
     (case st of (a, b, c, d, e, f, g, h) \<Rightarrow>
      case fold sha_round (zip sha_K (sha_schedule block)) st of (a', b', c', d', e', f', g', h') \<Rightarrow>
        (a + a', b + b', c + c', d + d', e + e', f + f', g + g', h + h'))"

definition sha_pad :: "bytes \<Rightarrow> bytes" where
  "sha_pad m = m @ 0x80 # replicate ((119 - length m mod 64) mod 64) 0 @ PutUint64 (of_nat (8 * length m))"

function sha_blocks :: "bytes \<Rightarrow> sha_state \<Rightarrow> sha_state" where
  "sha_blocks bs st = (if bs = [] then st else sha_blocks (drop 64 bs) (sha_block (take 64 bs) st))"
  by pat_completeness auto
termination sha_blocks
  by (relation "measure (length \<circ> fst)") auto

declare sha_blocks.simps [simp del]

definition sha_bytes :: "sha_state \<Rightarrow> bytes" where
  "sha_bytes st = (case st of (a, b, c, d, e, f, g, h) \<Rightarrow> concat (map PutUint32 [a, b, c, d, e, f, g, h]))"

definition Sum256 :: "bytes \<Rightarrow> bytes" where
  "Sum256 m = sha_bytes (sha_blocks (sha_pad m) sha_init)"

lemma length_Sum256 [simp]: "length (Sum256 m) = 32"
  by (simp add: Sum256_def sha_bytes_def split: prod.split)

lemma Sum256_not_Nil [simp]: "Sum256 m \<noteq> []"
  using length_Sum256 [of m] by (metis list.size(3) zero_neq_numeral)

text \<open>The padded message consists of whole blocks.\<close>

lemma sha_pad_blocks: "length (sha_pad m) mod 64 = 0"
proof -
  define r where "r = length m mod 64"
  have "r < 64" by (simp add: r_def)
  then have "r + (119 - r) mod 64 + 9 = 64 \<or> r + (119 - r) mod 64 + 9 = 128"
  proof (cases "r < 56")
    case True
    then have "119 - r = (55 - r) + 64" by simp
    then have "(119 - r) mod 64 = (55 - r) mod 64" by (simp only: mod_add_self2)
    also have "\<dots> = 55 - r" by (rule mod_less) simp
    finally show ?thesis using True by simp
  next
    case False
    then have "(119 - r) mod 64 = 119 - r" by (intro mod_less) simp
    then show ?thesis using False \<open>r < 64\<close> by simp
  qed
  then have "(r + (119 - r) mod 64 + 9) mod 64 = 0" by (elim disjE) simp_all
  then have "(length m + ((119 - r) mod 64 + 9)) mod 64 = 0"
    unfolding r_def by (metis add.assoc mod_add_left_eq)
  then show ?thesis by (simp add: sha_pad_def r_def ac_simps)
qed

section \<open>HMAC-SHA256\<close>

definition hmac_key :: "bytes \<Rightarrow> bytes" where
  "hmac_key key = (let k = (if 64 < length key then Sum256 key else key) in k @ replicate (64 - length k) 0)"

definition hmac_Sum :: "bytes \<Rightarrow> bytes \<Rightarrow> bytes" where
  "hmac_Sum key m =
     Sum256 (map (\<lambda>b. b XOR 0x5c) (hmac_key key) @ Sum256 (map (\<lambda>b. b XOR 0x36) (hmac_key key) @ m))"

lemma length_hmac_Sum [simp]: "length (hmac_Sum key m) = 32"
  by (simp add: hmac_Sum_def)

lemma length_hmac_key [simp]: "length (hmac_key key) = 64"
  by (simp add: hmac_key_def)

text \<open>
  A comparison in constant time: the differences of all bytes are accumulated, so that the time
  does not depend on where the first difference is. It decides equality.
\<close>

definition xor_acc :: "bytes \<Rightarrow> bytes \<Rightarrow> byte \<Rightarrow> byte" where
  "xor_acc a b r = foldl (\<lambda>r (x, y). r OR (x XOR y)) r (zip a b)"

lemma xor_eq_0_iff: "x XOR y = 0 \<longleftrightarrow> x = (y :: 'a::len word)"
  by (auto simp: bit_eq_iff bit_xor_iff)

lemma or_eq_0_iff_word: "x OR y = 0 \<longleftrightarrow> x = 0 \<and> y = (0 :: 'a::len word)"
  by (auto simp: bit_eq_iff bit_or_iff)

lemma xor_acc_0_iff: "length a = length b \<Longrightarrow> xor_acc a b r = 0 \<longleftrightarrow> r = 0 \<and> a = b"
  unfolding xor_acc_def
  by (induction a b arbitrary: r rule: list_induct2) (auto simp: or_eq_0_iff_word xor_eq_0_iff)

text \<open>\<open>hmac.Equal\<close>\<close>

definition hmac_Equal :: "bytes \<Rightarrow> bytes \<Rightarrow> bool" where
  "hmac_Equal a b \<longleftrightarrow> length a = length b \<and> xor_acc a b 0 = 0"

lemma hmac_Equal_iff [simp]: "hmac_Equal a b \<longleftrightarrow> a = b"
  by (auto simp: hmac_Equal_def xor_acc_0_iff)

section \<open>Bindings up to a collision\<close>

text \<open>
  A hash can only be said to determine its input up to a collision. Collisions exist, so their mere
  existence says nothing: \<open>collision_in\<close> asks for one between the inputs that two computations hash
  at the same step.
\<close>

definition collision_in :: "bytes list \<Rightarrow> bytes list \<Rightarrow> bool" where
  "collision_in xs ys \<longleftrightarrow> (\<exists>(x, y) \<in> set (zip xs ys). x \<noteq> y \<and> Sum256 x = Sum256 y)"

lemma collision_in_Cons:
  "collision_in (x # xs) (y # ys) \<longleftrightarrow> (x \<noteq> y \<and> Sum256 x = Sum256 y) \<or> collision_in xs ys"
  by (auto simp: collision_in_def)

lemma collision_in_append:
  "length xs = length ys \<Longrightarrow> collision_in (xs @ xs') (ys @ ys') \<longleftrightarrow> collision_in xs ys \<or> collision_in xs' ys'"
  by (auto simp: collision_in_def)

text \<open>The two inputs an HMAC computation hashes.\<close>

definition hmac_inputs :: "bytes \<Rightarrow> bytes \<Rightarrow> bytes list" where
  "hmac_inputs key m =
     (let inner = map (\<lambda>b. b XOR 0x36) (hmac_key key) @ m
      in [map (\<lambda>b. b XOR 0x5c) (hmac_key key) @ Sum256 inner, inner])"

lemma length_hmac_inputs [simp]: "length (hmac_inputs key m) = 2"
  by (simp add: hmac_inputs_def Let_def)

lemma inj_xor: "inj (\<lambda>b. b XOR (c :: byte))"
  by (rule injI, rule bit_word_eqI) (metis bit_xor_iff)

lemma map_xor_eq [simp]: "map (\<lambda>b. b XOR (c :: byte)) xs = map (\<lambda>b. b XOR c) ys \<longleftrightarrow> xs = ys"
  using inj_xor [of c] by (rule inj_map_eq_map)

lemma hmac_binding:
  assumes "hmac_Sum k m = hmac_Sum k' m'" and nc: "\<not> collision_in (hmac_inputs k m) (hmac_inputs k' m')"
  shows "hmac_key k = hmac_key k' \<and> m = m'"
proof -
  define ki ki' where "ki = map (\<lambda>b. b XOR 0x36) (hmac_key k)" and "ki' = map (\<lambda>b. b XOR 0x36) (hmac_key k')"
  define ko ko' where "ko = map (\<lambda>b. b XOR 0x5c) (hmac_key k)" and "ko' = map (\<lambda>b. b XOR 0x5c) (hmac_key k')"
  have len: "length ki = length ki'" "length ko = length ko'" by (simp_all add: ki_def ki'_def ko_def ko'_def)
  have "Sum256 (ko @ Sum256 (ki @ m)) = Sum256 (ko' @ Sum256 (ki' @ m'))"
    using assms(1) by (simp add: hmac_Sum_def ki_def ki'_def ko_def ko'_def)
  then have "ko @ Sum256 (ki @ m) = ko' @ Sum256 (ki' @ m')"
    using nc by (auto simp: hmac_inputs_def Let_def collision_in_Cons ki_def ki'_def ko_def ko'_def)
  then have "Sum256 (ki @ m) = Sum256 (ki' @ m')" using len by simp
  then have "ki @ m = ki' @ m'"
    using nc by (auto simp: hmac_inputs_def Let_def collision_in_Cons ki_def ki'_def)
  with len have "ki = ki'" "m = m'" by simp_all
  then show ?thesis by (simp add: ki_def ki'_def)
qed

lemma hmac_key_inj:
  "hmac_key k = hmac_key k' \<Longrightarrow> length k = length k' \<Longrightarrow> length k \<le> 64 \<Longrightarrow> k = k'"
  by (simp add: hmac_key_def Let_def)

end
