(* ===== verification/Identity.thy ===== *)
theory Identity
  imports Cbor_Fields Go_Sha256 Go_Quote
begin

text \<open>
  Package \<open>identity\<close> (\<open>src/identity/identity.go\<close>): agent identifiers, capability descriptors, the
  self-signed agent record with its CBOR form, and its verification. A Go map is an association
  list with distinct keys; the order in which \<open>range\<close> visits it is the argument \<open>ord\<close>. The
  signature scheme is the argument \<open>verifyFn\<close>, as in the code.
\<close>

section \<open>Constants and errors\<close>

definition RecordTypeV1 :: gostring where "RecordTypeV1 = ascii ''aafp-record-v1''"
definition KeyAlgMLDSA65 :: u64 where "KeyAlgMLDSA65 = 1"
definition MaxRecordExpiry :: u64 where "MaxRecordExpiry = 30 * 24 * 60 * 60"

datatype id_error =
    CapabilityExpectedIntMap
  | CapabilityMissingName
  | CapabilityBadMetadata
  | RecordExpectedIntMap
  | RecordMissingType
  | RecordMissingAgentId
  | RecordMissingPublicKey
  | RecordBadCapability id_error
  | InvalidAgentId
  | InvalidRecordType gostring
  | UnsupportedKeyAlgorithm u64
  | SignatureVerificationFailed
  | RecordExpired

text \<open>The text of an error; \<open>tab\<close> is the table of printable runes that \<open>%q\<close> consults.\<close>

primrec id_error_msg :: "(nat \<Rightarrow> bool) \<Rightarrow> id_error \<Rightarrow> gostring" where
  "id_error_msg tab CapabilityExpectedIntMap = ascii ''capability: expected int map''"
| "id_error_msg tab CapabilityMissingName = ascii ''capability: missing or invalid name (key 1)''"
| "id_error_msg tab CapabilityBadMetadata = ascii ''capability: metadata must be string map''"
| "id_error_msg tab RecordExpectedIntMap = ascii ''record: expected int map''"
| "id_error_msg tab RecordMissingType = ascii ''record: missing record_type (key 1)''"
| "id_error_msg tab RecordMissingAgentId = ascii ''record: missing agent_id (key 2)''"
| "id_error_msg tab RecordMissingPublicKey = ascii ''record: missing public_key (key 3)''"
| "id_error_msg tab (RecordBadCapability e) = ascii ''record: bad capability: '' @ id_error_msg tab e"
| "id_error_msg tab InvalidAgentId = ascii ''record: invalid agent_id (does not match SHA-256(public_key))''"
| "id_error_msg tab (InvalidRecordType t) = ascii ''record: invalid record_type '' @ fmt_q tab t"
| "id_error_msg tab (UnsupportedKeyAlgorithm a) = ascii ''record: unsupported key_algorithm '' @ ascii (fmt_d (unat a))"
| "id_error_msg tab SignatureVerificationFailed = ascii ''record: signature verification failed''"
| "id_error_msg tab RecordExpired = ascii ''record: expired''"

text \<open>Whatever an untrusted record holds, the text of the error it causes is printable on one line.\<close>

lemma id_error_msg_visible: "list_all visible (id_error_msg tab e)"
  by (induction e) (simp_all only: id_error_msg.simps list_all_append fmt_q_visible visible_ascii_iff
      visible_fmt_d [unfolded visible_ascii_iff],
      simp_all add: visible_def)

section \<open>Agent identifiers\<close>

definition AgentIdFromPubkey :: "bytes \<Rightarrow> bytes" where
  "AgentIdFromPubkey pubkey = Sum256 pubkey"

definition constantTimeEq :: "bytes \<Rightarrow> bytes \<Rightarrow> bool" where
  "constantTimeEq a b = (if length a \<noteq> length b then False else xor_acc a b 0 = 0)"

definition VerifyAgentId :: "bytes \<Rightarrow> bytes \<Rightarrow> bool" where
  "VerifyAgentId agentId pubkey =
     (let expected = AgentIdFromPubkey pubkey
      in if length agentId \<noteq> 32 \<or> length expected \<noteq> 32 then False else constantTimeEq agentId expected)"

lemma constantTimeEq_iff [simp]: "constantTimeEq a b \<longleftrightarrow> a = b"
  by (auto simp: constantTimeEq_def xor_acc_0_iff)

lemma VerifyAgentId_iff: "VerifyAgentId agentId pubkey \<longleftrightarrow> agentId = Sum256 pubkey"
  by (auto simp: VerifyAgentId_def AgentIdFromPubkey_def)

section \<open>Capability descriptors\<close>

type_synonym metadata = "(gostring \<times> cbor_value) list"

record CapabilityDescriptor =
  Name :: gostring
  Metadata :: metadata

definition cap_ToCBOR :: "(metadata \<Rightarrow> metadata) \<Rightarrow> CapabilityDescriptor \<Rightarrow> cbor_value" where
  "cap_ToCBOR ord c = IMap [(1, TStr (Name c)), (2, SMap (go_range ord (Metadata c)))]"

definition cap_metadata :: "cbor_value \<Rightarrow> (id_error, metadata) outcome" where
  "cap_metadata metaVal =
     (if Kind metaVal = KindStrMap then Ok (go_map_of (v_strMap metaVal))
      else if Kind metaVal = KindIntMap \<and> length (v_intMap metaVal) = 0 then Ok []
      else if Kind metaVal = KindNull then Ok []
      else Err CapabilityBadMetadata)"

definition CapabilityFromCBOR :: "cbor_value \<Rightarrow> (id_error, CapabilityDescriptor) outcome" where
  "CapabilityFromCBOR v =
     (if Kind v \<noteq> KindIntMap then Err CapabilityExpectedIntMap
      else case field KindTextString v 1 of
          None \<Rightarrow> Err CapabilityMissingName
        | Some nameVal \<Rightarrow>
            (case IntMapGet v 2 of
               None \<Rightarrow> Ok \<lparr>Name = v_str nameVal, Metadata = []\<rparr>
             | Some metaVal \<Rightarrow> obind (cap_metadata metaVal) (\<lambda>md. Ok \<lparr>Name = v_str nameVal, Metadata = md\<rparr>)))"

section \<open>Agent records\<close>

record AgentRecord =
  RecordType :: gostring
  AgentId :: bytes
  PublicKey :: bytes
  Capabilities :: "CapabilityDescriptor list"
  Endpoints :: "gostring list"
  CreatedAt :: u64
  ExpiresAt :: u64
  Signature :: bytes
  KeyAlgorithm :: u64
  RecordVersion :: u64

text \<open>Each capability is encoded by a call of its own, which ranges over its metadata in its own order.\<close>

type_synonym meta_order = "nat \<Rightarrow> metadata \<Rightarrow> metadata"

definition caps_ToCBOR :: "meta_order \<Rightarrow> CapabilityDescriptor list \<Rightarrow> cbor_value list" where
  "caps_ToCBOR ord cs = map2 (\<lambda>i c. cap_ToCBOR (ord i) c) [0..<length cs] cs"

definition record_ToCBORWithoutSig :: "meta_order \<Rightarrow> AgentRecord \<Rightarrow> cbor_value" where
  "record_ToCBORWithoutSig ord r = IMap
     [(1, TStr (RecordType r)),
      (2, BStr (AgentId r)),
      (3, BStr (PublicKey r)),
      (4, Arr (caps_ToCBOR ord (Capabilities r))),
      (5, Arr (map TStr (Endpoints r))),
      (6, UUint (CreatedAt r)),
      (7, UUint (ExpiresAt r)),
      (9, UUint (KeyAlgorithm r)),
      (10, UUint (RecordVersion r))]"

definition record_ToCBOR :: "meta_order \<Rightarrow> AgentRecord \<Rightarrow> cbor_value" where
  "record_ToCBOR ord r =
     (let v = record_ToCBORWithoutSig ord r in IMap (v_intMap v @ [(8, BStr (Signature r))]))"

definition record_capability :: "cbor_value \<Rightarrow> (id_error, CapabilityDescriptor) outcome" where
  "record_capability capVal = (case CapabilityFromCBOR capVal of
     Ok c \<Rightarrow> Ok c | Err e \<Rightarrow> Err (RecordBadCapability e) | Panic \<Rightarrow> Panic)"

definition AgentRecordFromCBOR :: "cbor_value \<Rightarrow> (id_error, AgentRecord) outcome" where
  "AgentRecordFromCBOR v =
     (if Kind v \<noteq> KindIntMap then Err RecordExpectedIntMap
      else case field KindTextString v 1 of None \<Rightarrow> Err RecordMissingType | Some recordType \<Rightarrow>
        (case field KindByteString v 2 of None \<Rightarrow> Err RecordMissingAgentId | Some agentId \<Rightarrow>
        (case field KindByteString v 3 of None \<Rightarrow> Err RecordMissingPublicKey | Some publicKey \<Rightarrow>
           obind (decode_each record_capability (field_arr v 4)) (\<lambda>caps.
             Ok \<lparr>RecordType = v_str recordType, AgentId = v_bytes agentId, PublicKey = v_bytes publicKey,
                 Capabilities = caps,
                 Endpoints = map v_str (filter (\<lambda>epVal. Kind epVal = KindTextString) (field_arr v 5)),
                 CreatedAt = field_uint v 6, ExpiresAt = field_uint v 7, Signature = field_bytes v 8,
                 KeyAlgorithm = field_uint v 9, RecordVersion = field_uint v 10\<rparr>))))"

definition record_SignatureInput :: "meta_order \<Rightarrow> AgentRecord \<Rightarrow> (id_error, bytes) outcome" where
  "record_SignatureInput ord r =
     obind (cbor_Encode (record_ToCBORWithoutSig ord r)) (\<lambda>cborBytes. Ok (ascii ''aafp-v1-record'' @ cborBytes))"

definition record_Verify ::
  "meta_order \<Rightarrow> u64 \<Rightarrow> (bytes \<Rightarrow> bytes \<Rightarrow> bytes \<Rightarrow> bool) \<Rightarrow> AgentRecord \<Rightarrow> (id_error, unit) outcome" where
  "record_Verify ord currentTime verifyFn r =
     (if \<not> VerifyAgentId (AgentId r) (PublicKey r) then Err InvalidAgentId
      else if RecordType r \<noteq> RecordTypeV1 then Err (InvalidRecordType (RecordType r))
      else if KeyAlgorithm r \<noteq> KeyAlgMLDSA65 then Err (UnsupportedKeyAlgorithm (KeyAlgorithm r))
      else obind (record_SignatureInput ord r) (\<lambda>sigInput.
        if \<not> verifyFn (PublicKey r) sigInput (Signature r) then Err SignatureVerificationFailed
        else if ExpiresAt r \<le> currentTime then Err RecordExpired
        else Ok ()))"

definition ExceedsMaxExpiryWarning :: "u64 \<Rightarrow> AgentRecord \<Rightarrow> bool" where
  "ExceedsMaxExpiryWarning now r = (if ExpiresAt r \<le> now then False else ExpiresAt r - now > MaxRecordExpiry)"

section \<open>Well-formed records and their normal form\<close>

text \<open>
  The keys of a Go map are distinct, and every value in it was built by the constructors of package
  \<open>cbor\<close>. The normal form lists the metadata in key order, with nested maps in key order too.
\<close>

definition cap_ok :: "CapabilityDescriptor \<Rightarrow> bool" where
  "cap_ok c \<longleftrightarrow> distinct (map fst (Metadata c)) \<and> (\<forall>e \<in> set (Metadata c). wf_value (snd e))"

definition record_ok :: "AgentRecord \<Rightarrow> bool" where
  "record_ok r \<longleftrightarrow> (\<forall>c \<in> set (Capabilities r). cap_ok c)"

definition cap_canon :: "CapabilityDescriptor \<Rightarrow> CapabilityDescriptor" where
  "cap_canon c = c\<lparr>Metadata := sortStrMapEntries (map (map_prod id canon) (Metadata c))\<rparr>"

definition record_canon :: "AgentRecord \<Rightarrow> AgentRecord" where
  "record_canon r = r\<lparr>Capabilities := map cap_canon (Capabilities r)\<rparr>"

definition cap_value :: "CapabilityDescriptor \<Rightarrow> cbor_value" where
  "cap_value c = canon (cap_ToCBOR (\<lambda>m. m) c)"

lemma distinct_sortStr: "distinct (map fst (sortStrMapEntries es)) = distinct (map fst es)"
  by (metis mset_sort(2) mset_map mset_eq_imp_distinct_iff)

lemma map_fst_map_prod [simp]: "map fst (map (map_prod id f) es) = map fst es"
  by simp

text \<open>Whatever order \<open>range\<close> takes, the normal form of the encoded value is the same.\<close>

lemma canon_range:
  assumes "distinct (map fst m)"
  shows "canon (SMap (go_range ord m)) = canon (SMap m)"
proof -
  have "mset (map (map_prod id canon) (go_range ord m)) = mset (map (map_prod id canon) m)"
    by simp
  then show ?thesis
    using assms sort_perm_str [of "map (map_prod id canon) (go_range ord m)" "map (map_prod id canon) m"]
    by simp
qed

lemma canon_cap: "cap_ok c \<Longrightarrow> canon (cap_ToCBOR ord c) = cap_value c"
  using canon_range [of "Metadata c" ord] unfolding cap_value_def cap_ToCBOR_def cap_ok_def
  by (simp del: canon.simps(7))

lemma canon_caps: "\<forall>c \<in> set cs. cap_ok c \<Longrightarrow> map canon (caps_ToCBOR ord cs) = map cap_value cs"
  by (rule nth_equalityI) (simp_all add: caps_ToCBOR_def canon_cap)

lemma CapabilityFromCBOR_canon:
  assumes "cap_ok c"
  shows "CapabilityFromCBOR (cap_value c) = Ok (cap_canon c)"
proof -
  have k: "IntMapGet (cap_value c) 1 = Some (TStr (Name c))"
    "IntMapGet (cap_value c) 2 = Some (canon (SMap (Metadata c)))"
    unfolding cap_value_def cap_ToCBOR_def by (subst IntMapGet_canon; simp del: canon.simps(7))+
  have "Kind (cap_value c) = KindIntMap" by (simp add: cap_value_def cap_ToCBOR_def)
  moreover have "cap_metadata (canon (SMap (Metadata c))) = Ok (Metadata (cap_canon c))"
    using assms by (auto simp: cap_metadata_def cap_canon_def cap_ok_def go_map_of_distinct distinct_sortStr
        sortStrMapEntries_def [of "[]"])
  ultimately show ?thesis by (simp add: CapabilityFromCBOR_def field_def k cap_canon_def)
qed

lemma wf_cap: "cap_ok c \<Longrightarrow> wf_value (cap_ToCBOR ord c)"
  by (auto simp: cap_ToCBOR_def cap_ok_def)

interpretation capability: cbor_struct "cap_ToCBOR ord" CapabilityFromCBOR cap_ok cap_canon for ord
  by unfold_locales (simp_all add: wf_cap canon_cap CapabilityFromCBOR_canon)

end
