(* ===== verification/Identity_Properties.thy ===== *)
theory Identity_Properties
  imports Identity
begin

text \<open>
  What package \<open>identity\<close> promises: a record survives encoding and decoding, the bytes that are
  signed determine every field but the signature, and a record that verifies is bound to its key,
  unexpired, and verifies again after transport.
\<close>

section \<open>The CBOR form of a record\<close>

definition record_value :: "AgentRecord \<Rightarrow> cbor_value" where
  "record_value r = canon (record_ToCBOR (\<lambda>_ m. m) r)"

lemmas record_forms = record_ToCBOR_def record_ToCBORWithoutSig_def

lemma canon_endpoints [simp]: "map (canon \<circ> TStr) es = map TStr es"
  by simp

lemma canon_record:
  "record_ok r \<Longrightarrow> canon (record_ToCBOR ord r) = record_value r"
  "record_ok r \<Longrightarrow> canon (record_ToCBORWithoutSig ord r) = canon (record_ToCBORWithoutSig (\<lambda>_ m. m) r)"
  by (simp_all add: record_value_def record_forms record_ok_def canon_caps Let_def)

lemma wf_caps: "\<forall>c \<in> set cs. cap_ok c \<Longrightarrow> v \<in> set (caps_ToCBOR ord cs) \<Longrightarrow> wf_value v"
  by (auto simp: caps_ToCBOR_def set_zip intro!: wf_cap)

lemma wf_record:
  "record_ok r \<Longrightarrow> wf_value (record_ToCBORWithoutSig ord r)"
  "record_ok r \<Longrightarrow> wf_value (record_ToCBOR ord r)"
  by (auto simp: record_forms record_ok_def Let_def dest: wf_caps)

lemma record_fields:
  assumes "record_ok r"
  shows "IntMapGet (record_value r) 1 = Some (TStr (RecordType r))"
    and "IntMapGet (record_value r) 2 = Some (BStr (AgentId r))"
    and "IntMapGet (record_value r) 3 = Some (BStr (PublicKey r))"
    and "IntMapGet (record_value r) 4 = Some (Arr (map cap_value (Capabilities r)))"
    and "IntMapGet (record_value r) 5 = Some (Arr (map TStr (Endpoints r)))"
    and "IntMapGet (record_value r) 6 = Some (UUint (CreatedAt r))"
    and "IntMapGet (record_value r) 7 = Some (UUint (ExpiresAt r))"
    and "IntMapGet (record_value r) 8 = Some (BStr (Signature r))"
    and "IntMapGet (record_value r) 9 = Some (UUint (KeyAlgorithm r))"
    and "IntMapGet (record_value r) 10 = Some (UUint (RecordVersion r))"
  using assms unfolding record_value_def record_forms record_ok_def Let_def
  by (subst IntMapGet_canon; simp add: canon_caps)+

lemma AgentRecordFromCBOR_canon:
  assumes "record_ok r"
  shows "AgentRecordFromCBOR (record_value r) = Ok (record_canon r)"
proof -
  have k: "Kind (record_value r) = KindIntMap"
    by (simp add: record_value_def record_forms Let_def)
  have "decode_each record_capability (map cap_value (Capabilities r)) = Ok (map cap_canon (Capabilities r))"
    using assms by (intro decode_each_map) (simp add: record_capability_def CapabilityFromCBOR_canon record_ok_def)
  moreover have "filter (\<lambda>epVal. Kind epVal = KindTextString) (map TStr (Endpoints r)) = map TStr (Endpoints r)"
    by (simp add: filter_map comp_def)
  ultimately show ?thesis
    by (simp add: AgentRecordFromCBOR_def field_defs record_fields [OF assms] k record_canon_def comp_def)
qed

interpretation record_wire: cbor_struct "record_ToCBOR ord" AgentRecordFromCBOR record_ok record_canon for ord
  by unfold_locales (simp_all add: wf_record canon_record AgentRecordFromCBOR_canon)

section \<open>What the signature covers\<close>

text \<open>The signature is the only field outside the signed bytes.\<close>

lemma record_value_sig:
  "canon (record_ToCBORWithoutSig ord r) = canon (record_ToCBORWithoutSig ord (r\<lparr>Signature := s\<rparr>))"
  by (simp add: record_forms)

lemma cap_value_inj: "cap_ok c \<Longrightarrow> cap_ok d \<Longrightarrow> cap_value c = cap_value d \<Longrightarrow> cap_canon c = cap_canon d"
  by (metis CapabilityFromCBOR_canon outcome.inject(1))

lemma cap_value_canon_eq: "cap_canon c = cap_canon d \<Longrightarrow> cap_value c = cap_value d"
proof -
  assume eq: "cap_canon c = cap_canon d"
  from arg_cong [OF eq, of Name] have "Name c = Name d" by (simp add: cap_canon_def)
  moreover from arg_cong [OF eq, of Metadata]
  have m: "sortStrMapEntries (map (map_prod id canon) (Metadata c))
      = sortStrMapEntries (map (map_prod id canon) (Metadata d))" by (simp add: cap_canon_def)
  moreover from m have "Metadata c = [] \<longleftrightarrow> Metadata d = []"
    by (metis map_is_Nil_conv sortStr_Nil_iff)
  ultimately show ?thesis by (simp add: cap_value_def cap_ToCBOR_def)
qed

lemma caps_value_eq_iff:
  assumes "\<forall>c \<in> set cs. cap_ok c" and "\<forall>d \<in> set ds. cap_ok d"
  shows "map cap_value cs = map cap_value ds \<longleftrightarrow> map cap_canon cs = map cap_canon ds"
  using assms
proof (induction cs arbitrary: ds)
  case (Cons c cs)
  then show ?case
    by (cases ds) (auto dest: cap_value_inj cap_value_canon_eq)
qed auto

lemma record_canon_eq_iff:
  "record_canon r = record_canon s \<longleftrightarrow>
     RecordType r = RecordType s \<and> AgentId r = AgentId s \<and> PublicKey r = PublicKey s \<and>
     map cap_canon (Capabilities r) = map cap_canon (Capabilities s) \<and> Endpoints r = Endpoints s \<and>
     CreatedAt r = CreatedAt s \<and> ExpiresAt r = ExpiresAt s \<and> Signature r = Signature s \<and>
     KeyAlgorithm r = KeyAlgorithm s \<and> RecordVersion r = RecordVersion s"
  by (cases r; cases s) (auto simp: record_canon_def)

lemma map_TStr_eq_iff: "map TStr xs = map TStr ys \<longleftrightarrow> xs = ys"
  by (rule inj_map_eq_map) (simp add: inj_def)

lemma signed_value_eq_iff:
  assumes "record_ok r" and "record_ok s"
  shows "canon (record_ToCBORWithoutSig ord r) = canon (record_ToCBORWithoutSig ord' s) \<longleftrightarrow>
    record_canon (r\<lparr>Signature := []\<rparr>) = record_canon (s\<lparr>Signature := []\<rparr>)"
  using assms unfolding record_ToCBORWithoutSig_def record_ok_def
  by (subst canon_IMap_eq_iff)
    (simp_all add: canon_caps caps_value_eq_iff record_canon_eq_iff map_TStr_eq_iff)

lemma SignatureInput_eq: "record_SignatureInput ord r = Ok (ascii ''aafp-v1-record'' @ encodeValue (record_ToCBORWithoutSig ord r))"
  by (simp add: record_SignatureInput_def cbor_Encode_def)

lemma encode_unsigned_eq:
  "record_ok r \<Longrightarrow> encodeValue (record_ToCBORWithoutSig ord r) = encodeValue (record_ToCBORWithoutSig ord' r)"
  by (metis canon_record(2) encode_canon)

text \<open>The normal form is a well-formed record, and taking it twice changes nothing.\<close>

lemma cap_canon_ok: "cap_ok c \<Longrightarrow> cap_ok (cap_canon c)"
  by (auto simp: cap_ok_def cap_canon_def distinct_sortStr wf_canon)

lemma record_canon_ok: "record_ok r \<Longrightarrow> record_ok (record_canon r)"
  by (auto simp: record_ok_def record_canon_def cap_canon_ok)

lemma cap_canon_idem [simp]: "cap_canon (cap_canon c) = cap_canon c"
proof -
  have "map (map_prod id canon) (map (map_prod id canon) m) = map (map_prod id canon) m" for m :: metadata
    by auto
  then show ?thesis
    by (cases c) (simp only: cap_canon_def sortStr_map [symmetric] sort_idem
        CapabilityDescriptor.select_convs CapabilityDescriptor.update_convs)
qed

lemma record_canon_idem [simp]: "record_canon (record_canon r) = record_canon r"
  by (simp add: record_canon_def)

lemma encode_unsigned_canon:
  assumes "record_ok r"
  shows "encodeValue (record_ToCBORWithoutSig ord (record_canon r)) = encodeValue (record_ToCBORWithoutSig ord' r)"
proof -
  have "record_canon ((record_canon r)\<lparr>Signature := []\<rparr>) = record_canon (r\<lparr>Signature := []\<rparr>)"
    by (simp add: record_canon_def)
  with signed_value_eq_iff [OF record_canon_ok [OF assms] assms] show ?thesis
    by (metis encode_canon)
qed

lemma record_canon_sel [simp]:
  "RecordType (record_canon r) = RecordType r" "AgentId (record_canon r) = AgentId r"
  "PublicKey (record_canon r) = PublicKey r" "ExpiresAt (record_canon r) = ExpiresAt r"
  "Signature (record_canon r) = Signature r" "KeyAlgorithm (record_canon r) = KeyAlgorithm r"
  by (simp_all add: record_canon_def)

lemma Verify_canon:
  "record_ok r \<Longrightarrow> record_Verify ord t f (record_canon r) = record_Verify ord' t f r"
  using encode_unsigned_canon [of r ord ord'] by (simp add: record_Verify_def SignatureInput_eq)

section \<open>Properties\<close>

definition sample_record :: AgentRecord where
  "sample_record = \<lparr>RecordType = RecordTypeV1, AgentId = Sum256 [7], PublicKey = [7],
     Capabilities = [\<lparr>Name = ascii ''inference'', Metadata = [(ascii ''model'', TStr (ascii ''m'')), (ascii ''a'', NullV)]\<rparr>,
       \<lparr>Name = ascii ''x'', Metadata = []\<rparr>],
     Endpoints = [ascii ''/ip4''], CreatedAt = 5, ExpiresAt = 100, Signature = [1, 2],
     KeyAlgorithm = 1, RecordVersion = 3\<rparr>"

lemma sample_record_ok: "record_ok sample_record"
  by (simp add: sample_record_def record_ok_def cap_ok_def ascii_def)

lemma sample_record_small:
  "small_input (encodeValue (record_ToCBOR (\<lambda>_. rev) sample_record))"
  "small_input (encodeValue (record_ToCBORWithoutSig (\<lambda>_. rev) sample_record))"
  by (simp_all add: small_input_def sample_record_def record_forms caps_ToCBOR_def cap_ToCBOR_def go_range_def
      RecordTypeV1_def upt_rec go_eval)

text \<open>
  C21: a record survives transport: for a record whose metadata maps hold values built by the
  constructors of package \<open>cbor\<close>, decoding its encoding gives the record back, with the metadata in
  key order, whatever order \<open>range\<close> visited the metadata in, empty metadata included.
\<close>

theorem agent_record_roundtrip:
  assumes "record_ok r" and "small_input (encodeValue (record_ToCBOR ord r))"
  shows "\<exists>v. cbor_Decode (encodeValue (record_ToCBOR ord r)) = Ok (v, length (encodeValue (record_ToCBOR ord r))) \<and>
    AgentRecordFromCBOR v = Ok (record_canon r)"
  using assms by (rule record_wire.wire_roundtrip)

theorem agent_record_roundtrip_witness:
  "\<exists>v n. cbor_Decode (encodeValue (record_ToCBOR (\<lambda>_. rev) sample_record)) = Ok (v, n) \<and>
    AgentRecordFromCBOR v = Ok (record_canon sample_record)"
  using agent_record_roundtrip [OF sample_record_ok sample_record_small(1)] by blast

text \<open>
  C11: the signature covers the record: the signed bytes of two records are the same exactly when the
  records agree on every field but the signature (up to the order of the metadata). No other field
  can be altered without changing what was signed.
\<close>

theorem record_signature_covers:
  assumes "record_ok r" and "record_ok s"
    and "small_input (encodeValue (record_ToCBORWithoutSig ord r))"
  shows "record_SignatureInput ord r = record_SignatureInput ord' s \<longleftrightarrow>
    record_canon (r\<lparr>Signature := []\<rparr>) = record_canon (s\<lparr>Signature := []\<rparr>)"
  using encode_eq_iff [OF wf_record(1) wf_record(1) assms(3), of s ord', OF assms(1,2)]
    signed_value_eq_iff [OF assms(1,2)]
  by (simp add: SignatureInput_eq)

theorem record_signature_covers_witness:
  "record_SignatureInput (\<lambda>_. rev) sample_record
   \<noteq> record_SignatureInput (\<lambda>_ m. m) (sample_record\<lparr>RecordVersion := 4\<rparr>)"
proof -
  have "record_ok (sample_record\<lparr>RecordVersion := 4\<rparr>)"
    using sample_record_ok by (simp add: record_ok_def)
  from record_signature_covers [OF sample_record_ok this sample_record_small(2)] show ?thesis
    by (simp add: record_canon_eq_iff sample_record_def)
qed

text \<open>
  C17: a record verifies exactly when its agent id is the hash of its key, its type and algorithm are
  the supported ones, the signature over its signed bytes is valid and it has not expired; it then
  verifies after transport too, with the metadata visited in any order.
\<close>

theorem record_verify_decides:
  assumes "record_ok r"
  shows "(record_Verify ord t verifyFn r = Ok () \<longleftrightarrow>
      AgentId r = Sum256 (PublicKey r) \<and> RecordType r = RecordTypeV1 \<and> KeyAlgorithm r = KeyAlgMLDSA65 \<and>
      (\<exists>input. record_SignatureInput ord r = Ok input \<and> verifyFn (PublicKey r) input (Signature r)) \<and>
      t < ExpiresAt r) \<and>
    record_Verify ord t verifyFn r \<noteq> Panic \<and>
    record_Verify ord' t verifyFn (record_canon r) = record_Verify ord t verifyFn r"
  using Verify_canon [OF assms]
  by (auto simp: record_Verify_def VerifyAgentId_iff SignatureInput_eq not_le)

theorem record_verify_decides_witness:
  "record_Verify (\<lambda>_. rev) 99 (\<lambda>pk m sig. pk = [7] \<and> sig = [1, 2]) sample_record = Ok () \<and>
   record_Verify (\<lambda>_ m. m) 99 (\<lambda>pk m sig. pk = [7] \<and> sig = [1, 2]) (record_canon sample_record) = Ok ()"
  using record_verify_decides [OF sample_record_ok, of "\<lambda>_. rev" 99 "\<lambda>pk m sig. pk = [7] \<and> sig = [1, 2]" "\<lambda>_ m. m"]
  by (simp add: SignatureInput_eq sample_record_def KeyAlgMLDSA65_def)

text \<open>The warning compares the true remaining lifetime: the subtraction does not wrap around.\<close>

lemma expiry_warning: "ExceedsMaxExpiryWarning now r \<longleftrightarrow> unat now + 2592000 < unat (ExpiresAt r)"
  by (auto simp: ExceedsMaxExpiryWarning_def MaxRecordExpiry_def word_le_nat_alt word_less_nat_alt unat_sub)

end
