(* ===== verification/Handshake_Msg.thy ===== *)
theory Handshake_Msg
  imports Cbor_Fields Go_Sha256
begin

text \<open>
  Package \<open>handshake\<close>, the messages and the key schedule (\<open>src/handshake/handshake.go\<close>): the three
  handshake messages and their CBOR forms, the running transcript hash, HKDF-SHA256, the session
  identifier and the receiver MAC. A nil slice and an empty one are both the empty list, except
  for \<open>ReceiverMac\<close>, where the code tells them apart (\<open>None\<close> is nil; a decoded byte string is
  never nil). The \<open>append\<close> calls on arguments are modelled by their results; \<open>Session_Alias\<close> models
  their effect on the memory behind the arguments.
\<close>

section \<open>Constants and errors\<close>

definition domainSeparator :: gostring where "domainSeparator = ascii ''aafp-v1-handshake''"
definition sessionInfoStr :: gostring where "sessionInfoStr = ascii ''aafp-session-id-v1''"
definition dosMacInfoStr :: gostring where "dosMacInfoStr = ascii ''aafp-v1-dos-mac-key''"

datatype msg_error =
    ExtensionExpectedIntMap
  | ClientHelloExpectedIntMap
  | ReceiverMacNull
  | ReceiverMacKind ValueKind
  | HandshakeDecodeFailed cbor_error

text \<open>The text of an error; a \<open>ValueKind\<close> has no \<open>String\<close> method and prints as its number.\<close>

primrec kind_number :: "ValueKind \<Rightarrow> nat" where
  "kind_number KindUnsigned = 0"
| "kind_number KindNegative = 1"
| "kind_number KindByteString = 2"
| "kind_number KindTextString = 3"
| "kind_number KindArray = 4"
| "kind_number KindIntMap = 5"
| "kind_number KindStrMap = 6"
| "kind_number KindBool = 7"
| "kind_number KindNull = 8"

primrec msg_error_msg :: "msg_error \<Rightarrow> string" where
  "msg_error_msg ExtensionExpectedIntMap = ''extension: expected int map''"
| "msg_error_msg ClientHelloExpectedIntMap = ''ClientHello: expected int map''"
| "msg_error_msg ReceiverMacNull = ''ClientHello: receiver_mac must be omitted when absent, not null (A-2)''"
| "msg_error_msg (ReceiverMacKind k) = ''ClientHello: receiver_mac expected bstr, got '' @ fmt_d (kind_number k)"
| "msg_error_msg (HandshakeDecodeFailed e) = ''handshake: CBOR decode failed: '' @ cbor_error_msg e"

section \<open>Extensions\<close>

record ExtensionEntry =
  ExtType :: u64
  ExtData :: bytes
  ExtCritical :: bool

definition ext_ToCBOR :: "ExtensionEntry \<Rightarrow> cbor_value" where
  "ext_ToCBOR e = IMap [(1, UUint (ExtType e)), (2, BStr (ExtData e)), (3, BoolV (ExtCritical e))]"

definition ExtensionFromCBOR :: "cbor_value \<Rightarrow> (msg_error, ExtensionEntry) outcome" where
  "ExtensionFromCBOR v =
     (if Kind v \<noteq> KindIntMap then Err ExtensionExpectedIntMap
      else Ok \<lparr>ExtType = field_uint v 1, ExtData = field_bytes v 2, ExtCritical = field_bool v 3\<rparr>)"

section \<open>Messages\<close>

record ClientHello =
  ch_ProtocolVersion :: u64
  ch_AgentId :: bytes
  ch_PublicKey :: bytes
  ch_Nonce :: bytes
  ch_Capabilities :: "cbor_value list"
  ch_Extensions :: "ExtensionEntry list"
  ch_Signature :: bytes
  ch_ExpiresAt :: u64
  ch_ReceiverMac :: "bytes option"
  ch_KeyAlgorithm :: u64

definition ch_ToCBORWithoutSigAndMac :: "ClientHello \<Rightarrow> cbor_value" where
  "ch_ToCBORWithoutSigAndMac ch = IMap
     [(1, UUint (ch_ProtocolVersion ch)),
      (2, BStr (ch_AgentId ch)),
      (3, BStr (ch_PublicKey ch)),
      (4, BStr (ch_Nonce ch)),
      (5, Arr (ch_Capabilities ch)),
      (6, Arr (map ext_ToCBOR (ch_Extensions ch))),
      (8, UUint (ch_ExpiresAt ch)),
      (10, UUint (ch_KeyAlgorithm ch))]"

definition ch_ToCBOR :: "ClientHello \<Rightarrow> cbor_value" where
  "ch_ToCBOR ch = IMap
     ([(1, UUint (ch_ProtocolVersion ch)),
       (2, BStr (ch_AgentId ch)),
       (3, BStr (ch_PublicKey ch)),
       (4, BStr (ch_Nonce ch)),
       (5, Arr (ch_Capabilities ch)),
       (6, Arr (map ext_ToCBOR (ch_Extensions ch))),
       (7, BStr (ch_Signature ch)),
       (8, UUint (ch_ExpiresAt ch))]
      @ (case ch_ReceiverMac ch of Some mac \<Rightarrow> [(9, BStr mac)] | None \<Rightarrow> [])
      @ [(10, UUint (ch_KeyAlgorithm ch))])"

definition ch_receiverMac :: "cbor_value \<Rightarrow> (msg_error, bytes option) outcome" where
  "ch_receiverMac v = (case IntMapGet v 9 of
     None \<Rightarrow> Ok None
   | Some val \<Rightarrow> if Kind val = KindByteString then Ok (Some (v_bytes val))
       else if Kind val = KindNull then Err ReceiverMacNull
       else Err (ReceiverMacKind (Kind val)))"

definition ClientHelloFromCBOR :: "cbor_value \<Rightarrow> (msg_error, ClientHello) outcome" where
  "ClientHelloFromCBOR v =
     (if Kind v \<noteq> KindIntMap then Err ClientHelloExpectedIntMap
      else obind (decode_each ExtensionFromCBOR (field_arr v 6)) (\<lambda>exts.
        obind (ch_receiverMac v) (\<lambda>mac.
          Ok \<lparr>ch_ProtocolVersion = field_uint v 1, ch_AgentId = field_bytes v 2,
              ch_PublicKey = field_bytes v 3, ch_Nonce = field_bytes v 4,
              ch_Capabilities = field_arr v 5, ch_Extensions = exts, ch_Signature = field_bytes v 7,
              ch_ExpiresAt = field_uint v 8, ch_ReceiverMac = mac, ch_KeyAlgorithm = field_uint v 10\<rparr>)))"

record ServerHello =
  sh_ProtocolVersion :: u64
  sh_AgentId :: bytes
  sh_PublicKey :: bytes
  sh_Nonce :: bytes
  sh_Capabilities :: "cbor_value list"
  sh_Extensions :: "ExtensionEntry list"
  sh_SessionId :: bytes
  sh_Signature :: bytes
  sh_ExpiresAt :: u64
  sh_KeyAlgorithm :: u64

definition sh_ToCBORWithoutSig :: "ServerHello \<Rightarrow> cbor_value" where
  "sh_ToCBORWithoutSig sh = IMap
     [(1, UUint (sh_ProtocolVersion sh)),
      (2, BStr (sh_AgentId sh)),
      (3, BStr (sh_PublicKey sh)),
      (4, BStr (sh_Nonce sh)),
      (5, Arr (sh_Capabilities sh)),
      (6, Arr (map ext_ToCBOR (sh_Extensions sh))),
      (7, BStr (sh_SessionId sh)),
      (9, UUint (sh_ExpiresAt sh)),
      (10, UUint (sh_KeyAlgorithm sh))]"

definition sh_ToCBOR :: "ServerHello \<Rightarrow> cbor_value" where
  "sh_ToCBOR sh = (let v = sh_ToCBORWithoutSig sh in IMap (v_intMap v @ [(8, BStr (sh_Signature sh))]))"

record ClientFinished =
  cf_SessionId :: bytes
  cf_Signature :: bytes

definition cf_ToCBORWithoutSig :: "ClientFinished \<Rightarrow> cbor_value" where
  "cf_ToCBORWithoutSig cf = IMap [(1, BStr (cf_SessionId cf))]"

definition cf_ToCBOR :: "ClientFinished \<Rightarrow> cbor_value" where
  "cf_ToCBOR cf = IMap [(1, BStr (cf_SessionId cf)), (2, BStr (cf_Signature cf))]"

definition EncodeHandshakeMessage :: "cbor_value \<Rightarrow> ('e, bytes) outcome" where
  "EncodeHandshakeMessage v = cbor_Encode v"

definition DecodeHandshakeMessage :: "bytes \<Rightarrow> (msg_error, cbor_value) outcome" where
  "DecodeHandshakeMessage data = (case cbor_Decode data of
     Ok (v, _) \<Rightarrow> Ok v | Err e \<Rightarrow> Err (HandshakeDecodeFailed e) | Panic \<Rightarrow> Panic)"

section \<open>The transcript hash\<close>

record TranscriptHash =
  state :: bytes

definition NewTranscriptHash :: "bytes \<Rightarrow> TranscriptHash" where
  "NewTranscriptHash tlsBinding = \<lparr>state = Sum256 tlsBinding\<rparr>"

definition th_Update :: "bytes \<Rightarrow> TranscriptHash \<Rightarrow> TranscriptHash" where
  "th_Update data t = t\<lparr>state := Sum256 (state t @ data)\<rparr>"

definition th_Current :: "TranscriptHash \<Rightarrow> bytes" where
  "th_Current t = state t"

definition hs_SignatureInput :: "bytes \<Rightarrow> bytes" where
  "hs_SignatureInput h = domainSeparator @ h"

section \<open>HKDF, session identifier, receiver MAC\<close>

definition hkdfExtract :: "bytes \<Rightarrow> bytes \<Rightarrow> bytes" where
  "hkdfExtract salt ikm = (let salt = (if length salt = 0 then replicate 32 0 else salt) in hmac_Sum salt ikm)"

text \<open>
  The loop of \<open>hkdfExpand\<close>, with the number of rounds left, the counter \<open>i\<close> (written as one byte)
  and the variables \<open>t\<close> and \<open>okm\<close>. The sum wraps around, Go's division truncates towards zero, and
  \<open>okm[:length]\<close> panics for a length that is negative or beyond what was produced.
\<close>

primrec expand_loop :: "nat \<Rightarrow> nat \<Rightarrow> bytes \<Rightarrow> bytes \<Rightarrow> bytes \<Rightarrow> bytes \<Rightarrow> bytes" where
  "expand_loop 0 i prk info t okm = okm"
| "expand_loop (Suc n) i prk info t okm =
     (let t' = hmac_Sum prk (t @ info @ [of_nat i]) in expand_loop n (Suc i) prk info t' (okm @ t'))"

definition go_div :: "int \<Rightarrow> int \<Rightarrow> int" where
  "go_div a b = sgn a * sgn b * (\<bar>a\<bar> div \<bar>b\<bar>)"

definition hkdfExpand :: "bytes \<Rightarrow> bytes \<Rightarrow> int \<Rightarrow> (msg_error, bytes) outcome" where
  "hkdfExpand prk info len =
     (let n = go_div (wrap_int (wrap_int (len + 32) - 1)) 32; okm = expand_loop (nat n) 1 prk info [] [] in go_slice okm 0 len)"

definition ComputeSessionId :: "bytes \<Rightarrow> bytes \<Rightarrow> bytes \<Rightarrow> bytes \<Rightarrow> (msg_error, bytes) outcome" where
  "ComputeSessionId hAfterClientHello clientNonce serverNonce serverAgentId =
     (let salt = clientNonce @ serverNonce; ikm = hAfterClientHello @ serverAgentId;
          prk = hkdfExtract salt ikm
      in hkdfExpand prk sessionInfoStr 32)"

definition ComputeReceiverMac :: "bytes \<Rightarrow> bytes \<Rightarrow> (msg_error, bytes) outcome" where
  "ComputeReceiverMac receiverAgentId chCbor =
     obind (hkdfExpand (hkdfExtract [] receiverAgentId) dosMacInfoStr 32) (\<lambda>macKey. Ok (hmac_Sum macKey chCbor))"

definition VerifyReceiverMac :: "bytes \<Rightarrow> bytes \<Rightarrow> bytes \<Rightarrow> (msg_error, bool) outcome" where
  "VerifyReceiverMac receiverAgentId chCbor expectedMac =
     obind (ComputeReceiverMac receiverAgentId chCbor) (\<lambda>computed.
       Ok (if length computed \<noteq> length expectedMac then False else hmac_Equal computed expectedMac))"

end
