(* ===== verification/Handshake_Msg_Properties.thy ===== *)
theory Handshake_Msg_Properties
  imports Handshake_Msg
begin

text \<open>
  What the handshake messages promise: a ClientHello survives transport, its receiver MAC can be
  checked by the receiver, the transcript hash and the session identifier determine what they were
  computed from (up to a collision of SHA-256 between the inputs of the two computations), and HKDF
  is the one of RFC 5869.
\<close>

section \<open>CBOR forms\<close>

definition ch_ok :: "ClientHello \<Rightarrow> bool" where
  "ch_ok ch \<longleftrightarrow> (\<forall>v \<in> set (ch_Capabilities ch). wf_value v)"

definition sh_ok :: "ServerHello \<Rightarrow> bool" where
  "sh_ok sh \<longleftrightarrow> (\<forall>v \<in> set (sh_Capabilities sh). wf_value v)"

definition ch_canon :: "ClientHello \<Rightarrow> ClientHello" where
  "ch_canon ch = ch\<lparr>ch_Capabilities := map canon (ch_Capabilities ch)\<rparr>"

definition sh_canon :: "ServerHello \<Rightarrow> ServerHello" where
  "sh_canon sh = sh\<lparr>sh_Capabilities := map canon (sh_Capabilities sh)\<rparr>"

text \<open>What the transcript covers: everything but the signatures and the receiver MAC.\<close>

definition ch_covered :: "ClientHello \<Rightarrow> ClientHello" where
  "ch_covered ch = ch_canon (ch\<lparr>ch_Signature := [], ch_ReceiverMac := None\<rparr>)"

definition sh_covered :: "ServerHello \<Rightarrow> ServerHello" where
  "sh_covered sh = sh_canon (sh\<lparr>sh_Signature := []\<rparr>)"

lemma ext_fields:
  "IntMapGet (canon (ext_ToCBOR e)) 1 = Some (UUint (ExtType e))"
  "IntMapGet (canon (ext_ToCBOR e)) 2 = Some (BStr (ExtData e))"
  "IntMapGet (canon (ext_ToCBOR e)) 3 = Some (BoolV (ExtCritical e))"
  unfolding ext_ToCBOR_def by (subst IntMapGet_canon; simp)+

lemma ExtensionFromCBOR_canon: "ExtensionFromCBOR (canon (ext_ToCBOR e)) = Ok e"
proof -
  have "Kind (canon (ext_ToCBOR e)) = KindIntMap" by (simp add: ext_ToCBOR_def)
  then show ?thesis by (simp add: ExtensionFromCBOR_def field_defs ext_fields)
qed

lemma decode_extensions:
  "decode_each ExtensionFromCBOR (map (canon \<circ> ext_ToCBOR) es) = Ok es"
  using decode_each_map [of es ExtensionFromCBOR "canon \<circ> ext_ToCBOR" "\<lambda>e. e"]
  by (simp add: ExtensionFromCBOR_canon)

lemma canon_ext_inj: "map (canon \<circ> ext_ToCBOR) es = map (canon \<circ> ext_ToCBOR) fs \<longleftrightarrow> es = fs"
  by (metis decode_extensions outcome.inject(1))

lemma ch_fields:
  "IntMapGet (canon (ch_ToCBOR ch)) 1 = Some (UUint (ch_ProtocolVersion ch))"
  "IntMapGet (canon (ch_ToCBOR ch)) 2 = Some (BStr (ch_AgentId ch))"
  "IntMapGet (canon (ch_ToCBOR ch)) 3 = Some (BStr (ch_PublicKey ch))"
  "IntMapGet (canon (ch_ToCBOR ch)) 4 = Some (BStr (ch_Nonce ch))"
  "IntMapGet (canon (ch_ToCBOR ch)) 5 = Some (Arr (map canon (ch_Capabilities ch)))"
  "IntMapGet (canon (ch_ToCBOR ch)) 6 = Some (Arr (map (canon \<circ> ext_ToCBOR) (ch_Extensions ch)))"
  "IntMapGet (canon (ch_ToCBOR ch)) 7 = Some (BStr (ch_Signature ch))"
  "IntMapGet (canon (ch_ToCBOR ch)) 8 = Some (UUint (ch_ExpiresAt ch))"
  "IntMapGet (canon (ch_ToCBOR ch)) 9 = map_option BStr (ch_ReceiverMac ch)"
  "IntMapGet (canon (ch_ToCBOR ch)) 10 = Some (UUint (ch_KeyAlgorithm ch))"
  unfolding ch_ToCBOR_def by (subst IntMapGet_canon; simp split: option.split)+

lemma ClientHelloFromCBOR_canon: "ClientHelloFromCBOR (canon (ch_ToCBOR ch)) = Ok (ch_canon ch)"
proof -
  have "Kind (canon (ch_ToCBOR ch)) = KindIntMap" by (simp add: ch_ToCBOR_def)
  moreover have "ch_receiverMac (canon (ch_ToCBOR ch)) = Ok (ch_ReceiverMac ch)"
    by (simp add: ch_receiverMac_def ch_fields split: option.split)
  ultimately show ?thesis
    by (simp add: ClientHelloFromCBOR_def field_defs ch_fields decode_extensions ch_canon_def)
qed

lemma wf_messages:
  "ch_ok ch \<Longrightarrow> wf_value (ch_ToCBOR ch)"
  "ch_ok ch \<Longrightarrow> wf_value (ch_ToCBORWithoutSigAndMac ch)"
  "sh_ok sh \<Longrightarrow> wf_value (sh_ToCBORWithoutSig sh)"
  "wf_value (cf_ToCBORWithoutSig cf)"
  by (auto simp: ch_ok_def sh_ok_def ch_ToCBOR_def ch_ToCBORWithoutSigAndMac_def sh_ToCBORWithoutSig_def
      cf_ToCBORWithoutSig_def ext_ToCBOR_def split: option.splits)

interpretation extension: cbor_struct ext_ToCBOR ExtensionFromCBOR "\<lambda>_. True" "\<lambda>e. e"
  by unfold_locales (simp_all add: ExtensionFromCBOR_canon, simp add: ext_ToCBOR_def)

interpretation client_hello: cbor_struct ch_ToCBOR ClientHelloFromCBOR ch_ok ch_canon
  by unfold_locales (simp_all add: wf_messages ClientHelloFromCBOR_canon)

lemma client_hello_wire:
  assumes "ch_ok ch" and "small_input (encodeValue (ch_ToCBOR ch))"
  shows "obind (DecodeHandshakeMessage (encodeValue (ch_ToCBOR ch))) ClientHelloFromCBOR = Ok (ch_canon ch)"
  using client_hello.wire_roundtrip [OF assms] by (auto simp: DecodeHandshakeMessage_def)

section \<open>What the encodings without signature determine\<close>

lemma ch_canon_eq_iff:
  "ch_covered ch = ch_covered ch' \<longleftrightarrow>
     ch_ProtocolVersion ch = ch_ProtocolVersion ch' \<and> ch_AgentId ch = ch_AgentId ch' \<and>
     ch_PublicKey ch = ch_PublicKey ch' \<and> ch_Nonce ch = ch_Nonce ch' \<and>
     map canon (ch_Capabilities ch) = map canon (ch_Capabilities ch') \<and>
     ch_Extensions ch = ch_Extensions ch' \<and> ch_ExpiresAt ch = ch_ExpiresAt ch' \<and>
     ch_KeyAlgorithm ch = ch_KeyAlgorithm ch'"
  by (cases ch; cases ch') (auto simp: ch_covered_def ch_canon_def)

lemma sh_canon_eq_iff:
  "sh_covered sh = sh_covered sh' \<longleftrightarrow>
     sh_ProtocolVersion sh = sh_ProtocolVersion sh' \<and> sh_AgentId sh = sh_AgentId sh' \<and>
     sh_PublicKey sh = sh_PublicKey sh' \<and> sh_Nonce sh = sh_Nonce sh' \<and>
     map canon (sh_Capabilities sh) = map canon (sh_Capabilities sh') \<and>
     sh_Extensions sh = sh_Extensions sh' \<and> sh_SessionId sh = sh_SessionId sh' \<and>
     sh_ExpiresAt sh = sh_ExpiresAt sh' \<and> sh_KeyAlgorithm sh = sh_KeyAlgorithm sh'"
  by (cases sh; cases sh') (auto simp: sh_covered_def sh_canon_def)

lemma unsigned_eq_iff:
  "canon (ch_ToCBORWithoutSigAndMac ch) = canon (ch_ToCBORWithoutSigAndMac ch') \<longleftrightarrow> ch_covered ch = ch_covered ch'"
  "canon (sh_ToCBORWithoutSig sh) = canon (sh_ToCBORWithoutSig sh') \<longleftrightarrow> sh_covered sh = sh_covered sh'"
  "canon (cf_ToCBORWithoutSig cf) = canon (cf_ToCBORWithoutSig cf') \<longleftrightarrow> cf_SessionId cf = cf_SessionId cf'"
  unfolding ch_ToCBORWithoutSigAndMac_def sh_ToCBORWithoutSig_def cf_ToCBORWithoutSig_def
  by (subst canon_IMap_eq_iff; simp add: ch_canon_eq_iff sh_canon_eq_iff canon_ext_inj comp_def [symmetric])+

section \<open>The transcript\<close>

text \<open>The transcript after a sequence of updates, and the inputs hashed on the way.\<close>

definition transcript :: "bytes \<Rightarrow> bytes list \<Rightarrow> TranscriptHash" where
  "transcript tls msgs = fold th_Update msgs (NewTranscriptHash tls)"

primrec update_inputs :: "bytes list \<Rightarrow> TranscriptHash \<Rightarrow> bytes list" where
  "update_inputs [] t = []"
| "update_inputs (m # ms) t = (state t @ m) # update_inputs ms (th_Update m t)"

definition transcript_inputs :: "bytes \<Rightarrow> bytes list \<Rightarrow> bytes list" where
  "transcript_inputs tls msgs = tls # update_inputs msgs (NewTranscriptHash tls)"

lemma state_length:
  "length (state (NewTranscriptHash tls)) = 32" "length (state (th_Update d t)) = 32"
  by (simp_all add: NewTranscriptHash_def th_Update_def)

lemma updates_bind:
  "length ms = length ms' \<Longrightarrow> length (state t) = length (state t') \<Longrightarrow>
   state (fold th_Update ms t) = state (fold th_Update ms' t') \<Longrightarrow>
   \<not> collision_in (update_inputs ms t) (update_inputs ms' t') \<Longrightarrow> state t = state t' \<and> ms = ms'"
proof (induction ms ms' arbitrary: t t' rule: list_induct2)
  case (Cons m ms m' ms')
  have "state (th_Update m t) = state (th_Update m' t') \<and> ms = ms'"
    using Cons.prems by (intro Cons.IH) (simp_all add: state_length collision_in_Cons)
  moreover from this have "state t @ m = state t' @ m'"
    using Cons.prems(3) by (auto simp: th_Update_def collision_in_Cons)
  ultimately show ?case using Cons.prems(1) by simp
qed simp

lemma transcript_binds:
  assumes "length msgs = length msgs'" and "th_Current (transcript tls msgs) = th_Current (transcript tls' msgs')"
    and "\<not> collision_in (transcript_inputs tls msgs) (transcript_inputs tls' msgs')"
  shows "tls = tls' \<and> msgs = msgs'"
proof -
  have "state (NewTranscriptHash tls) = state (NewTranscriptHash tls') \<and> msgs = msgs'"
    using assms by (intro updates_bind)
      (simp_all add: transcript_def th_Current_def transcript_inputs_def collision_in_Cons state_length)
  with assms(3) show ?thesis
    by (auto simp: NewTranscriptHash_def transcript_inputs_def collision_in_Cons)
qed

text \<open>The messages a completed handshake folds into the transcript.\<close>

definition handshake_messages :: "ClientHello \<Rightarrow> ServerHello \<Rightarrow> ClientFinished \<Rightarrow> bytes list" where
  "handshake_messages ch sh cf =
     [encodeValue (ch_ToCBORWithoutSigAndMac ch), encodeValue (sh_ToCBORWithoutSig sh),
      encodeValue (cf_ToCBORWithoutSig cf)]"

lemma handshake_messages_eq_iff:
  assumes "ch_ok ch" "ch_ok ch'" "sh_ok sh" "sh_ok sh'"
    and "\<forall>m \<in> set (handshake_messages ch sh cf). small_input m"
  shows "handshake_messages ch sh cf = handshake_messages ch' sh' cf' \<longleftrightarrow>
    ch_covered ch = ch_covered ch' \<and> sh_covered sh = sh_covered sh' \<and> cf_SessionId cf = cf_SessionId cf'"
  using assms(5) unfolding handshake_messages_def
  by (simp add: encode_eq_iff wf_messages assms(1-4) unsigned_eq_iff)

section \<open>HKDF\<close>

text \<open>The blocks \<open>T(i)\<close> of RFC 5869.\<close>

primrec hkdf_T :: "bytes \<Rightarrow> bytes \<Rightarrow> nat \<Rightarrow> bytes" where
  "hkdf_T prk info 0 = []"
| "hkdf_T prk info (Suc n) = hmac_Sum prk (hkdf_T prk info n @ info @ [of_nat (Suc n)])"

lemma expand_loop_T:
  "expand_loop n (Suc i) prk info (hkdf_T prk info i) okm
   = okm @ concat (map (hkdf_T prk info) [Suc i..<Suc i + n])"
proof (induction n arbitrary: i okm)
  case (Suc n)
  have "[Suc i..<Suc i + Suc n] = Suc i # [Suc (Suc i)..<Suc (Suc i) + n]" by (simp add: upt_conv_Cons del: upt_Suc)
  with Suc [of "Suc i" "okm @ hkdf_T prk info (Suc i)"] show ?case by (simp add: Let_def del: upt_Suc)
qed simp

lemma length_blocks: "length (concat (map (hkdf_T prk info) [Suc 0..<Suc n])) = 32 * n"
  by (induction n) simp_all

lemma wrap_int_sum: "wrap_int (wrap_int (len + 32) - 1) = wrap_int (len + 31)"
proof -
  have "(word_of_int (int_of_u64 w - 1) :: u64) = w - 1" for w
    using word_of_int_int_of_u64 [of w] by (simp add: wi_hom_sub [symmetric])
  then show ?thesis by (simp add: wrap_int_def add.commute)
qed

lemma go_div_blocks:
  assumes "0 \<le> len" and "len \<le> 2 ^ 63 - 32"
  shows "nat (go_div (wrap_int (wrap_int (len + 32) - 1)) 32) = (nat len + 31) div 32"
proof -
  have "wrap_int (wrap_int (len + 32) - 1) = len + 31"
    unfolding wrap_int_sum using assms by (intro wrap_int_id) simp_all
  moreover have "go_div (len + 31) 32 = (len + 31) div 32" using assms by (simp add: go_div_def sgn_if)
  moreover have "nat ((len + 31) div 32) = (nat len + 31) div 32"
    using assms by (simp add: nat_div_distrib nat_add_distrib)
  ultimately show ?thesis by simp
qed

lemma hkdfExpand_Ok:
  assumes "0 \<le> len" and "len \<le> 2 ^ 63 - 32"
  shows "hkdfExpand prk info len = Ok (take (nat len) (concat (map (hkdf_T prk info) [1..<Suc ((nat len + 31) div 32)])))"
proof -
  let ?n = "(nat len + 31) div 32"
  have "nat len \<le> 32 * ?n" by linarith
  moreover have "expand_loop ?n 1 prk info [] [] = concat (map (hkdf_T prk info) [1..<Suc ?n])"
    using expand_loop_T [of ?n 0 prk info "[]"] by simp
  ultimately show ?thesis
    using assms(1) length_blocks [of prk info ?n] go_div_blocks [OF assms]
    unfolding hkdfExpand_def Let_def by (simp add: go_slice_def nat_le_iff del: upt_Suc)
qed


lemma hkdfExpand_32: "hkdfExpand prk info 32 = Ok (hmac_Sum prk (info @ [1]))"
  by (simp add: hkdfExpand_Ok)

section \<open>Session identifiers\<close>


lemma length_hkdfExtract [simp]: "length (hkdfExtract salt ikm) = 32"
  by (simp add: hkdfExtract_def Let_def)



section \<open>The receiver MAC\<close>

lemma ComputeReceiverMac_eq:
  "ComputeReceiverMac rid data = Ok (hmac_Sum (hmac_Sum (hkdfExtract [] rid) (dosMacInfoStr @ [1])) data)"
  by (simp add: ComputeReceiverMac_def hkdfExpand_32)

lemma VerifyReceiverMac_iff:
  "VerifyReceiverMac rid data mac = Ok (ComputeReceiverMac rid data = Ok mac)"
  by (auto simp: VerifyReceiverMac_def ComputeReceiverMac_eq)

text \<open>A decoded ClientHello has the encoding without signature and MAC that its sender computed.\<close>

lemma encode_unsigned_decoded:
  "encodeValue (ch_ToCBORWithoutSigAndMac (ch_canon (ch\<lparr>ch_ReceiverMac := mac\<rparr>)))
   = encodeValue (ch_ToCBORWithoutSigAndMac ch)"
proof -
  have "ch_covered (ch_canon (ch\<lparr>ch_ReceiverMac := mac\<rparr>)) = ch_covered ch"
    by (simp add: ch_canon_eq_iff) (simp add: ch_canon_def)
  then show ?thesis by (metis unsigned_eq_iff(1) encode_canon)
qed

section \<open>Properties\<close>

definition sample_hello :: ClientHello where
  "sample_hello = \<lparr>ch_ProtocolVersion = 1, ch_AgentId = [1], ch_PublicKey = [2], ch_Nonce = [3],
     ch_Capabilities = [SMap [(ascii ''bb'', NullV), (ascii ''a'', UUint 5)]],
     ch_Extensions = [\<lparr>ExtType = 7, ExtData = [9], ExtCritical = True\<rparr>], ch_Signature = [4],
     ch_ExpiresAt = 100, ch_ReceiverMac = None, ch_KeyAlgorithm = 1\<rparr>"

definition sample_server_hello :: ServerHello where
  "sample_server_hello = \<lparr>sh_ProtocolVersion = 1, sh_AgentId = [1], sh_PublicKey = [2], sh_Nonce = [3],
     sh_Capabilities = [], sh_Extensions = [], sh_SessionId = [8], sh_Signature = [4],
     sh_ExpiresAt = 100, sh_KeyAlgorithm = 1\<rparr>"

lemma sample_hello_ok: "ch_ok sample_hello" "sh_ok sample_server_hello"
  by (simp_all add: ch_ok_def sh_ok_def sample_hello_def sample_server_hello_def)

lemma sample_hello_small:
  "length mac = 32 \<Longrightarrow> small_input (encodeValue (ch_ToCBOR (sample_hello\<lparr>ch_ReceiverMac := Some mac\<rparr>)))"
  "small_input (encodeValue (ch_ToCBOR sample_hello))"
  "\<forall>m \<in> set (handshake_messages sample_hello sample_server_hello \<lparr>cf_SessionId = [8], cf_Signature = []\<rparr>). small_input m"
  by (simp_all add: small_input_def sample_hello_def sample_server_hello_def handshake_messages_def ch_ToCBOR_def
      ch_ToCBORWithoutSigAndMac_def sh_ToCBORWithoutSig_def cf_ToCBORWithoutSig_def ext_ToCBOR_def go_eval)

text \<open>
  C20: a ClientHello survives transport: decoding the encoding of a message with capabilities built by
  the constructors of package \<open>cbor\<close> gives the message back, with the capabilities' maps in key order;
  an absent receiver MAC stays absent.
\<close>

theorem client_hello_roundtrip:
  assumes "ch_ok ch" and "small_input (encodeValue (ch_ToCBOR ch))"
  shows "\<exists>data. EncodeHandshakeMessage (ch_ToCBOR ch) = (Ok data :: (msg_error, bytes) outcome) \<and>
    obind (DecodeHandshakeMessage data) ClientHelloFromCBOR = Ok (ch_canon ch)"
  using client_hello_wire [OF assms] by (simp add: EncodeHandshakeMessage_def cbor_Encode_def)

theorem client_hello_roundtrip_witness:
  "\<exists>data. EncodeHandshakeMessage (ch_ToCBOR sample_hello) = (Ok data :: (msg_error, bytes) outcome) \<and>
    obind (DecodeHandshakeMessage data) ClientHelloFromCBOR = Ok (ch_canon sample_hello)"
  using sample_hello_ok(1) sample_hello_small(2) by (rule client_hello_roundtrip)

text \<open>
  C36: decoding a ClientHello never panics, and it fails exactly when the value is no integer-keyed
  map, an extension is none, or the receiver MAC is present but no byte string (a null included). In
  particular the empty map decodes: every other field may be missing and reads as its zero value.
\<close>

theorem client_hello_decode_errors:
  "ClientHelloFromCBOR v \<noteq> Panic \<and>
   (is_Ok (ClientHelloFromCBOR v) \<longleftrightarrow> Kind v = KindIntMap \<and>
      list_all (\<lambda>e. Kind e = KindIntMap) (field_arr v 6) \<and>
      (case IntMapGet v 9 of None \<Rightarrow> True | Some val \<Rightarrow> Kind val = KindByteString)) \<and>
   ClientHelloFromCBOR (IMap [(9, NullV)]) = Err ReceiverMacNull \<and>
   ClientHelloFromCBOR (IMap []) = Ok \<lparr>ch_ProtocolVersion = 0, ch_AgentId = [], ch_PublicKey = [],
     ch_Nonce = [], ch_Capabilities = [], ch_Extensions = [], ch_Signature = [], ch_ExpiresAt = 0,
     ch_ReceiverMac = None, ch_KeyAlgorithm = 0\<rparr>"
proof -
  have ext: "is_Ok (decode_each ExtensionFromCBOR vs) \<longleftrightarrow> list_all (\<lambda>e. Kind e = KindIntMap) vs" for vs
    by (induction vs) (auto simp: is_Ok_iff ExtensionFromCBOR_def)
  have mac: "is_Ok (ch_receiverMac v) \<longleftrightarrow>
      (case IntMapGet v 9 of None \<Rightarrow> True | Some val \<Rightarrow> Kind val = KindByteString)"
    by (simp add: ch_receiverMac_def split: option.split)
  have "ClientHelloFromCBOR v \<noteq> Panic"
    using decode_each_no_Panic [of ExtensionFromCBOR "field_arr v 6"]
    by (auto simp: ClientHelloFromCBOR_def obind_eq_Panic ExtensionFromCBOR_def ch_receiverMac_def split: option.splits)
  moreover have "is_Ok (ClientHelloFromCBOR v) \<longleftrightarrow> Kind v = KindIntMap \<and>
      is_Ok (decode_each ExtensionFromCBOR (field_arr v 6)) \<and> is_Ok (ch_receiverMac v)"
    by (auto simp: ClientHelloFromCBOR_def is_Ok_iff)
  ultimately show ?thesis
    by (simp add: ext mac) (simp add: ClientHelloFromCBOR_def ch_receiverMac_def field_defs IntMapGet_def)
qed

text \<open>
  C18: the receiver MAC protects the message end to end: the MAC a client computes over its ClientHello
  and sends in it is the one the receiver finds in the decoded message and accepts, and no other MAC
  is accepted for that message.
\<close>

theorem receiver_mac_end_to_end:
  assumes "ch_ok ch"
    and "ComputeReceiverMac rid (encodeValue (ch_ToCBORWithoutSigAndMac ch)) = Ok mac"
    and "small_input (encodeValue (ch_ToCBOR (ch\<lparr>ch_ReceiverMac := Some mac\<rparr>)))"
  shows "\<exists>ch'. obind (DecodeHandshakeMessage (encodeValue (ch_ToCBOR (ch\<lparr>ch_ReceiverMac := Some mac\<rparr>))))
      ClientHelloFromCBOR = Ok ch' \<and> ch_ReceiverMac ch' = Some mac \<and>
    (\<forall>m. VerifyReceiverMac rid (encodeValue (ch_ToCBORWithoutSigAndMac ch')) m = Ok (m = mac))"
proof (intro exI conjI allI)
  let ?ch = "ch\<lparr>ch_ReceiverMac := Some mac\<rparr>"
  have "ch_ok ?ch" using assms(1) by (simp add: ch_ok_def)
  then show "obind (DecodeHandshakeMessage (encodeValue (ch_ToCBOR ?ch))) ClientHelloFromCBOR = Ok (ch_canon ?ch)"
    using assms(3) by (rule client_hello_wire)
  show "ch_ReceiverMac (ch_canon ?ch) = Some mac" by (simp add: ch_canon_def)
  show "VerifyReceiverMac rid (encodeValue (ch_ToCBORWithoutSigAndMac (ch_canon ?ch))) m = Ok (m = mac)" for m
    using assms(2) by (auto simp: encode_unsigned_decoded VerifyReceiverMac_iff)
qed

theorem receiver_mac_end_to_end_witness:
  "\<exists>mac ch'. obind (DecodeHandshakeMessage (encodeValue (ch_ToCBOR (sample_hello\<lparr>ch_ReceiverMac := Some mac\<rparr>))))
      ClientHelloFromCBOR = Ok ch' \<and>
    VerifyReceiverMac [5] (encodeValue (ch_ToCBORWithoutSigAndMac ch')) mac = Ok True"
proof -
  obtain mac where mac: "ComputeReceiverMac [5] (encodeValue (ch_ToCBORWithoutSigAndMac sample_hello)) = Ok mac"
    and len: "length mac = 32" by (simp add: ComputeReceiverMac_eq)
  from receiver_mac_end_to_end [OF sample_hello_ok(1) mac sample_hello_small(1) [OF len]]
  obtain ch' where "obind (DecodeHandshakeMessage (encodeValue (ch_ToCBOR (sample_hello\<lparr>ch_ReceiverMac := Some mac\<rparr>))))
      ClientHelloFromCBOR = Ok ch'"
    and "VerifyReceiverMac [5] (encodeValue (ch_ToCBORWithoutSigAndMac ch')) mac = Ok True" by auto
  then show ?thesis by blast
qed

text \<open>
  C5: the transcript binds the handshake: if two handshakes differ in the TLS binding or in any field
  of their messages other than signatures and receiver MAC, their final transcript hashes differ,
  unless SHA-256 collides on two inputs hashed at the same step of the two computations.
\<close>

theorem transcript_binds_handshake:
  assumes "ch_ok ch" "ch_ok ch'" "sh_ok sh" "sh_ok sh'"
    and "\<forall>m \<in> set (handshake_messages ch sh cf). small_input m"
    and "tls \<noteq> tls' \<or> ch_covered ch \<noteq> ch_covered ch' \<or> sh_covered sh \<noteq> sh_covered sh' \<or>
      cf_SessionId cf \<noteq> cf_SessionId cf'"
  shows "th_Current (transcript tls (handshake_messages ch sh cf))
      \<noteq> th_Current (transcript tls' (handshake_messages ch' sh' cf')) \<or>
    collision_in (transcript_inputs tls (handshake_messages ch sh cf))
      (transcript_inputs tls' (handshake_messages ch' sh' cf'))"
proof -
  have "length (handshake_messages ch sh cf) = length (handshake_messages ch' sh' cf')"
    by (simp add: handshake_messages_def)
  from transcript_binds [OF this, of tls tls'] handshake_messages_eq_iff [OF assms(1-5), of cf'] assms(6)
  show ?thesis by blast
qed

theorem transcript_binds_handshake_witness:
  "let cf = \<lparr>cf_SessionId = [8], cf_Signature = []\<rparr>; ms = handshake_messages sample_hello sample_server_hello cf;
     ms' = handshake_messages (sample_hello\<lparr>ch_Nonce := [4]\<rparr>) sample_server_hello cf
   in th_Current (transcript [0] ms) \<noteq> th_Current (transcript [0] ms') \<or>
     collision_in (transcript_inputs [0] ms) (transcript_inputs [0] ms')"
proof -
  have ok: "ch_ok (sample_hello\<lparr>ch_Nonce := [4]\<rparr>)" by (simp add: ch_ok_def sample_hello_def)
  have "ch_covered sample_hello \<noteq> ch_covered (sample_hello\<lparr>ch_Nonce := [4]\<rparr>)"
    by (simp add: ch_canon_eq_iff sample_hello_def)
  with transcript_binds_handshake [OF sample_hello_ok(1) ok sample_hello_ok(2) sample_hello_ok(2) sample_hello_small(3),
      of "[0]" "[0]" "\<lparr>cf_SessionId = [8], cf_Signature = []\<rparr>"]
  show ?thesis by (simp add: Let_def)
qed





end
