(* ===== verification/Mldsa.thy ===== *)
theory Mldsa
  imports Go_Prelude
begin

text \<open>
  Package \<open>mldsa\<close> (\<open>src/mldsa/mldsa.go\<close>): the wrapper that gives the ML-DSA-65 library the types
  and the checks of this repository. The library (\<open>github.com/KarpelesLab/mldsa\<close>) is not part of
  the repository: its calls are the fields of the argument \<open>lib\<close>, over types of its own for keys
  and errors. What the wrapper relies on is stated by \<open>fips204\<close>, the sizes and the completeness
  that FIPS 204 documents.
\<close>

section \<open>Constants, errors and types\<close>

definition PublicKeySize :: nat where "PublicKeySize = 1952"
definition SecretKeySize :: nat where "SecretKeySize = 4032"
definition SignatureSize :: nat where "SignatureSize = 3309"
definition SeedSize :: nat where "SeedSize = 32"
definition KeyAlgorithmID :: nat where "KeyAlgorithmID = 1"
definition AlgorithmName :: gostring where "AlgorithmName = ascii ''ML-DSA-65''"

datatype 'e mldsa_error =
    ErrInvalidKeyLength nat nat
  | ErrInvalidSignatureLength nat nat
  | ErrInvalidSeedLength nat nat
  | ErrSigningFailed 'e
  | ErrKeyGenFailed 'e
  | InvalidPublicKey 'e
  | InvalidSecretKey 'e

text \<open>The text of an error, given the texts of the library's errors.\<close>

primrec mldsa_error_msg :: "('e \<Rightarrow> string) \<Rightarrow> 'e mldsa_error \<Rightarrow> string" where
  "mldsa_error_msg lib_msg (ErrInvalidKeyLength m n) =
     ''mldsa65: invalid key length: expected '' @ fmt_d m @ '', got '' @ fmt_d n"
| "mldsa_error_msg lib_msg (ErrInvalidSignatureLength m n) =
     ''mldsa65: invalid signature length: expected '' @ fmt_d m @ '', got '' @ fmt_d n"
| "mldsa_error_msg lib_msg (ErrInvalidSeedLength m n) =
     ''mldsa65: invalid seed length: expected '' @ fmt_d m @ '', got '' @ fmt_d n"
| "mldsa_error_msg lib_msg (ErrSigningFailed e) = ''mldsa65: signing failed: '' @ lib_msg e"
| "mldsa_error_msg lib_msg (ErrKeyGenFailed e) = ''mldsa65: key generation failed: '' @ lib_msg e"
| "mldsa_error_msg lib_msg (InvalidPublicKey e) = ''mldsa65: invalid public key: '' @ lib_msg e"
| "mldsa_error_msg lib_msg (InvalidSecretKey e) = ''mldsa65: invalid secret key: '' @ lib_msg e"

record PublicKey_t = pk_data :: bytes
record SecretKey_t = sk_data :: bytes
record Signature_t = sig_data :: bytes

text \<open>The source of randomness of a call: the operating system's, or a reader over given bytes.\<close>

datatype reader = RandReader "nat \<Rightarrow> byte" | BytesReader bytes

record ('e, 'key, 'pk, 'sk) mldsalib =
  GenerateKey65 :: "reader \<Rightarrow> ('e, 'key) outcome"
  NewKey65 :: "bytes \<Rightarrow> ('e, 'key) outcome"
  key_PublicKeyBytes :: "'key \<Rightarrow> bytes"
  key_PrivateKeyBytes :: "'key \<Rightarrow> bytes"
  NewPublicKey65 :: "bytes \<Rightarrow> ('e, 'pk) outcome"
  NewPrivateKey65 :: "bytes \<Rightarrow> ('e, 'sk) outcome"
  SignWithContext :: "'sk \<Rightarrow> reader \<Rightarrow> bytes \<Rightarrow> bytes \<Rightarrow> ('e, bytes) outcome"
  pub_Verify :: "'pk \<Rightarrow> bytes \<Rightarrow> bytes \<Rightarrow> bytes \<Rightarrow> bool"

definition PublicKey_Bytes :: "PublicKey_t \<Rightarrow> bytes" where "PublicKey_Bytes pk = pk_data pk"
definition SecretKey_Bytes :: "SecretKey_t \<Rightarrow> bytes" where "SecretKey_Bytes sk = sk_data sk"
definition Signature_Bytes :: "Signature_t \<Rightarrow> bytes" where "Signature_Bytes sg = sig_data sg"

fun wrap_err :: "('e \<Rightarrow> 'f) \<Rightarrow> ('e, 'a) outcome \<Rightarrow> ('f, 'a) outcome" where
  "wrap_err f (Ok a) = Ok a"
| "wrap_err f (Err e) = Err (f e)"
| "wrap_err f Panic = Panic"

section \<open>Operations\<close>

definition NewPublicKey ::
  "('e, 'key, 'pk, 'sk) mldsalib \<Rightarrow> bytes \<Rightarrow> ('e mldsa_error, PublicKey_t) outcome" where
  "NewPublicKey lib b =
     (if length b \<noteq> PublicKeySize then Err (ErrInvalidKeyLength PublicKeySize (length b))
      else obind (wrap_err InvalidPublicKey (NewPublicKey65 lib b)) (\<lambda>_. Ok \<lparr>pk_data = b\<rparr>))"

definition NewSecretKey ::
  "('e, 'key, 'pk, 'sk) mldsalib \<Rightarrow> bytes \<Rightarrow> ('e mldsa_error, SecretKey_t) outcome" where
  "NewSecretKey lib b =
     (if length b \<noteq> SecretKeySize then Err (ErrInvalidKeyLength SecretKeySize (length b))
      else obind (wrap_err InvalidSecretKey (NewPrivateKey65 lib b)) (\<lambda>_. Ok \<lparr>sk_data = b\<rparr>))"

definition NewSignature :: "bytes \<Rightarrow> ('e mldsa_error, Signature_t) outcome" where
  "NewSignature b =
     (if length b \<noteq> SignatureSize then Err (ErrInvalidSignatureLength SignatureSize (length b))
      else Ok \<lparr>sig_data = b\<rparr>)"

definition GenerateKeypair ::
  "('e, 'key, 'pk, 'sk) mldsalib \<Rightarrow> reader \<Rightarrow> ('e mldsa_error, PublicKey_t \<times> SecretKey_t) outcome" where
  "GenerateKeypair lib rand =
     obind (wrap_err ErrKeyGenFailed (GenerateKey65 lib rand)) (\<lambda>key.
       Ok (\<lparr>pk_data = key_PublicKeyBytes lib key\<rparr>, \<lparr>sk_data = key_PrivateKeyBytes lib key\<rparr>))"

definition KeypairFromSeed ::
  "('e, 'key, 'pk, 'sk) mldsalib \<Rightarrow> bytes \<Rightarrow> ('e mldsa_error, PublicKey_t \<times> SecretKey_t) outcome" where
  "KeypairFromSeed lib seed =
     (if length seed \<noteq> SeedSize then Err (ErrInvalidSeedLength SeedSize (length seed))
      else obind (wrap_err ErrKeyGenFailed (NewKey65 lib seed)) (\<lambda>key.
        Ok (\<lparr>pk_data = key_PublicKeyBytes lib key\<rparr>, \<lparr>sk_data = key_PrivateKeyBytes lib key\<rparr>)))"

definition mldsa_Sign ::
  "('e, 'key, 'pk, 'sk) mldsalib \<Rightarrow> reader \<Rightarrow> SecretKey_t \<Rightarrow> bytes \<Rightarrow> ('e mldsa_error, Signature_t) outcome" where
  "mldsa_Sign lib rand sk msg =
     obind (wrap_err InvalidSecretKey (NewPrivateKey65 lib (sk_data sk))) (\<lambda>privKey.
     obind (wrap_err ErrSigningFailed (SignWithContext lib privKey rand msg [])) (\<lambda>sig.
       Ok \<lparr>sig_data = sig\<rparr>))"

definition SignDeterministic ::
  "('e, 'key, 'pk, 'sk) mldsalib \<Rightarrow> SecretKey_t \<Rightarrow> bytes \<Rightarrow> ('e mldsa_error, Signature_t) outcome" where
  "SignDeterministic lib sk msg =
     obind (wrap_err InvalidSecretKey (NewPrivateKey65 lib (sk_data sk))) (\<lambda>privKey.
       let zeroReader = BytesReader (replicate 32 0) in
     obind (wrap_err ErrSigningFailed (SignWithContext lib privKey zeroReader msg [])) (\<lambda>sig.
       Ok \<lparr>sig_data = sig\<rparr>))"

text \<open>The arguments of \<open>Verify\<close> are pointers, which may be nil.\<close>

definition mldsa_Verify ::
  "('e, 'key, 'pk, 'sk) mldsalib \<Rightarrow> PublicKey_t option \<Rightarrow> bytes \<Rightarrow> Signature_t option \<Rightarrow> ('e, bool) outcome" where
  "mldsa_Verify lib pk msg sig = (case (pk, sig) of
     (Some p, Some s) \<Rightarrow>
       if length (pk_data p) \<noteq> PublicKeySize \<or> length (sig_data s) \<noteq> SignatureSize then Ok False
       else (case NewPublicKey65 lib (pk_data p) of
           Err _ \<Rightarrow> Ok False
         | Panic \<Rightarrow> Panic
         | Ok pubKey \<Rightarrow> Ok (pub_Verify lib pubKey (sig_data s) msg []))
   | _ \<Rightarrow> Ok False)"

section \<open>What the library documents\<close>

text \<open>
  Keys and signatures have the sizes of FIPS 204, key bytes decode, decoding returns a key or an
  error, and a signature made with a private key is accepted under the public key of the same pair.
\<close>

definition fips204 :: "('e, 'key, 'pk, 'sk) mldsalib \<Rightarrow> bool" where
  "fips204 lib \<longleftrightarrow>
     (\<forall>key. length (key_PublicKeyBytes lib key) = 1952 \<and> length (key_PrivateKeyBytes lib key) = 4032) \<and>
     (\<forall>b. NewPublicKey65 lib b \<noteq> Panic) \<and>
     (\<forall>key. \<exists>pk sk. NewPublicKey65 lib (key_PublicKeyBytes lib key) = Ok pk \<and>
        NewPrivateKey65 lib (key_PrivateKeyBytes lib key) = Ok sk \<and>
        (\<forall>rand msg ctx sig. SignWithContext lib sk rand msg ctx = Ok sig \<longrightarrow>
           length sig = 3309 \<and> pub_Verify lib pk sig msg ctx))"

lemmas mldsa_sizes = PublicKeySize_def SecretKeySize_def SignatureSize_def SeedSize_def

lemma wrap_err_eq_Ok [simp]: "wrap_err f m = Ok a \<longleftrightarrow> m = Ok a"
  by (cases m) auto

lemma KeypairFromSeed_key:
  "KeypairFromSeed lib seed = Ok (pk, sk) \<Longrightarrow>
   \<exists>key. pk = \<lparr>pk_data = key_PublicKeyBytes lib key\<rparr> \<and> sk = \<lparr>sk_data = key_PrivateKeyBytes lib key\<rparr>"
  by (auto simp: KeypairFromSeed_def split: if_splits)

lemma GenerateKeypair_key:
  "GenerateKeypair lib rand = Ok (pk, sk) \<Longrightarrow>
   \<exists>key. pk = \<lparr>pk_data = key_PublicKeyBytes lib key\<rparr> \<and> sk = \<lparr>sk_data = key_PrivateKeyBytes lib key\<rparr>"
  by (auto simp: GenerateKeypair_def)

lemma SignDeterministic_Sign: "SignDeterministic lib sk msg = mldsa_Sign lib (BytesReader (replicate 32 0)) sk msg"
  by (simp add: SignDeterministic_def mldsa_Sign_def Let_def)

lemma sign_verify:
  assumes "fips204 lib" and "mldsa_Sign lib rand \<lparr>sk_data = key_PrivateKeyBytes lib key\<rparr> msg = Ok sig"
  shows "length (sig_data sig) = 3309"
    and "mldsa_Verify lib (Some \<lparr>pk_data = key_PublicKeyBytes lib key\<rparr>) msg (Some sig) = Ok True"
  using assms by (auto simp: fips204_def mldsa_Sign_def mldsa_Verify_def mldsa_sizes dest!: spec [of _ key])

lemma keys_accepted:
  assumes "fips204 lib"
  shows "NewPublicKey lib (key_PublicKeyBytes lib key) = Ok \<lparr>pk_data = key_PublicKeyBytes lib key\<rparr>"
    and "NewSecretKey lib (key_PrivateKeyBytes lib key) = Ok \<lparr>sk_data = key_PrivateKeyBytes lib key\<rparr>"
  using assms by (auto simp: fips204_def NewPublicKey_def NewSecretKey_def mldsa_sizes dest!: spec [of _ key])

lemma Verify_no_Panic: "fips204 lib \<Longrightarrow> mldsa_Verify lib pk msg sig \<noteq> Panic"
  by (auto simp: fips204_def mldsa_Verify_def split: option.split outcome.split)

section \<open>Properties\<close>

text \<open>A library whose signature is a hash-like stamp of message and key, for the witnesses.\<close>

definition stamp_lib :: "(unit, byte, byte, byte) mldsalib" where
  "stamp_lib = \<lparr>GenerateKey65 = (\<lambda>r. case r of RandReader f \<Rightarrow> Ok (f 0) | BytesReader bs \<Rightarrow> if bs = [] then Err () else Ok (hd bs)),
     NewKey65 = (\<lambda>seed. if seed = [] then Err () else Ok (hd seed)),
     key_PublicKeyBytes = (\<lambda>k. replicate 1952 k), key_PrivateKeyBytes = (\<lambda>k. replicate 4032 k),
     NewPublicKey65 = (\<lambda>b. if b = [] then Err () else Ok (hd b)),
     NewPrivateKey65 = (\<lambda>b. if b = [] then Err () else Ok (hd b)),
     SignWithContext = (\<lambda>sk r msg ctx. Ok (replicate 3309 (sk + sum_list msg))),
     pub_Verify = (\<lambda>pk sig msg ctx. sig = replicate 3309 (pk + sum_list msg))\<rparr>"

lemma stamp_lib_fips204: "fips204 stamp_lib"
  by (auto simp: fips204_def stamp_lib_def)

text \<open>
  Keys and signatures the package makes are keys and signatures it accepts: a generated or seeded
  key pair passes \<open>NewPublicKey\<close> and \<open>NewSecretKey\<close>, and a signature, hedged or deterministic, passes
  \<open>NewSignature\<close> and verifies under the public key of the pair; \<open>Verify\<close> answers false for nil and for
  arguments of the wrong size, and never panics.
\<close>

lemma mldsa_sign_verify:
  assumes "fips204 lib" and "KeypairFromSeed lib seed = Ok (pk, sk) \<or> GenerateKeypair lib rand = Ok (pk, sk)"
    and "mldsa_Sign lib rand' sk msg = Ok sig \<or> SignDeterministic lib sk msg = Ok sig"
  shows "NewPublicKey lib (PublicKey_Bytes pk) = Ok pk \<and> NewSecretKey lib (SecretKey_Bytes sk) = Ok sk \<and>
    (NewSignature (Signature_Bytes sig) :: ('e mldsa_error, Signature_t) outcome) = Ok sig \<and>
    mldsa_Verify lib (Some pk) msg (Some sig) = Ok True \<and>
    (\<forall>p m s. mldsa_Verify lib p m s \<noteq> Panic) \<and> mldsa_Verify lib None msg (Some sig) = Ok False \<and>
    (\<forall>s. length (sig_data s) \<noteq> 3309 \<longrightarrow> mldsa_Verify lib (Some pk) msg (Some s) = Ok False)"
proof -
  from assms(2) obtain key where "pk = \<lparr>pk_data = key_PublicKeyBytes lib key\<rparr>"
    and "sk = \<lparr>sk_data = key_PrivateKeyBytes lib key\<rparr>"
    using KeypairFromSeed_key GenerateKeypair_key by blast
  moreover from assms(3) obtain r where "mldsa_Sign lib r sk msg = Ok sig"
    by (auto simp: SignDeterministic_Sign)
  ultimately show ?thesis
    using sign_verify [OF assms(1), of r key msg sig] keys_accepted [OF assms(1), of key] Verify_no_Panic [OF assms(1)]
    by (simp add: NewSignature_def mldsa_Verify_def mldsa_sizes PublicKey_Bytes_def SecretKey_Bytes_def Signature_Bytes_def)
qed

end
