(* ===== verification/End_To_End.thy ===== *)
theory End_To_End
  imports Pipeline_Properties Identity_Properties Handshake_Msg_Properties Mldsa
begin

text \<open>
  Lemmas that join components: a frame written by the sender passes the length and header phases of
  the receiver's pipeline, and a record signed with \<open>mldsa\<close> verifies with \<open>mldsa\<close>.
\<close>

section \<open>From the sender's encoders through the receiver's pipeline\<close>

lemma frameext_inverse:
  assumes "frameext_Encode exts = Ok b" and "length b < 2 ^ 32"
  shows "frameext_Decode b = Ok exts" and "b = [] \<longleftrightarrow> exts = []"
proof -
  have b: "b = section_bytes exts"
    using assms(1) by (simp add: frameext_Encode_def encode_exts_eq split: if_splits)
  then show "frameext_Decode b = Ok exts"
    using decode_exts_section [of 0 b exts "[]"] assms(2) by (simp add: frameext_Decode_def)
  show "b = [] \<longleftrightarrow> exts = []"
    unfolding b by (cases exts) (simp_all add: ext_bytes_def ext_header_def)
qed

lemma sent_frame:
  assumes "wf_frame f"
  shows "frame_Encode f = Ok (frame_bytes f)" and "frame_of (frame_bytes f) = f" and "fits_int (frame_bytes f)"
    and "header_ok (frame_bytes f)" and "lengths_ok (frame_bytes f)" and "is_Ok (frame_Decode (frame_bytes f))"
proof -
  have bounds: "length (fPayload f) \<le> MaxPayloadSize" "length (fExtensions f) \<le> MaxExtensionSize"
    using assms by (simp_all add: wf_frame_def)
  note fields = frame_bytes_fields [OF bounds, of "[]", simplified]
  show "frame_Encode f = Ok (frame_bytes f)" using bounds by (simp add: frame_Encode_eq)
  show "frame_of (frame_bytes f) = f" by (rule fields)
  show "fits_int (frame_bytes f)" using bounds by (simp add: fits_int_def length_frame_bytes frame_consts)
  show "header_ok (frame_bytes f)"
    using assms by (simp add: header_ok_def length_frame_bytes wf_frame_def) (simp add: frame_bytes_def)
  have "unat (Uint64 (drop 12 (frame_bytes f))) < 2 ^ 63" "unat (Uint64 (drop 20 (frame_bytes f))) < 2 ^ 63"
    using fields(1,2) bounds unfolding payload_len_def ext_len_def by (simp_all add: frame_consts)
  then show "lengths_ok (frame_bytes f)"
    using fields(1,2) bounds by (simp add: lengths_ok_def int_of_u64_small payload_len_def ext_len_def)
  show "is_Ok (frame_Decode (frame_bytes f))"
    using frame_Decode_frame_bytes [OF assms, of "[]"] by simp
qed

lemma sent_frame_delivered:
  assumes f: "wf_frame f" and v: "strict_value v" "fPayload f = encodeValue v"
    and e: "frameext_Encode exts = Ok (fExtensions f)" "fFrameType f = TypeHandshake \<longrightarrow> exts = []"
    and auth: "auth_ok (ctx p) f" "exts_known (ctx p) exts" "exts_negotiated (ctx p) exts"
  shows "process p (frame_bytes f) s = delivered p (frame_bytes f) s"
    and "exts_of f = Some exts" and "decodeValue (fPayload f) 0 = Ok (canon v, length (fPayload f))"
proof -
  note sent = sent_frame [OF f]
  have "length (fPayload f) \<le> MaxPayloadSize" "length (fExtensions f) \<le> MaxExtensionSize"
    using f by (simp_all add: wf_frame_def)
  then have small: "small_input (encodeValue v)" and short: "length (fExtensions f) < 2 ^ 32"
    using v(2) by (simp_all add: small_input_def frame_consts)
  from decode_canonical_full [OF v(1) small]
  have canonical: "CheckCanonical (fPayload f) = Ok ()"
    by (simp add: CheckCanonical_def decodeCanonicalCheck_def v(2))
  then have cbor: "cbor_ok f" "validateCbor f \<noteq> Panic"
    by (simp_all add: cbor_ok_def validateCbor_cases)
  show exts: "exts_of f = Some exts"
    using frameext_inverse [OF e(1) short] e(2) by (auto simp: exts_of_def)
  have "first_failing (phase_checks (ctx p) (frame_bytes f)) = None"
    using auth cbor by (simp add: phase_checks_def Let_def sent exts auth_ok_def)
  then show "process p (frame_bytes f) s = delivered p (frame_bytes f) s"
    using process_first_failing [OF sent(3), of p s] cbor(2) by (simp add: sent(2))
  show "decodeValue (fPayload f) 0 = Ok (canon v, length (fPayload f))"
    using decodeCanonical_refines(1) [OF decode_canonical_full [OF v(1) small] small] v(2) by simp
qed

section \<open>Self-signed records\<close>

text \<open>
  The signature check a caller of \<open>AgentRecord.Verify\<close> builds from package \<open>mldsa\<close>: parse key and
  signature, then verify.
\<close>

definition mldsa_verifyFn :: "('e, 'key, 'pk, 'sk) mldsalib \<Rightarrow> bytes \<Rightarrow> bytes \<Rightarrow> bytes \<Rightarrow> bool" where
  "mldsa_verifyFn lib pubkey msg sig =
     (case (NewPublicKey lib pubkey, NewSignature sig :: ('e mldsa_error, Signature_t) outcome) of
        (Ok pk, Ok s) \<Rightarrow> mldsa_Verify lib (Some pk) msg (Some s) = Ok True
      | _ \<Rightarrow> False)"

lemma sig_eta: "\<lparr>sig_data = sig_data sig\<rparr> = (sig :: Signature_t)"
  by (cases sig) simp

lemma mldsa_verifyFn_signed:
  assumes "fips204 lib" and "KeypairFromSeed lib seed = Ok (pk, sk)" and "SignDeterministic lib sk msg = Ok sig"
  shows "mldsa_verifyFn lib (pk_data pk) msg (sig_data sig)"
proof -
  from KeypairFromSeed_key [OF assms(2)] obtain key where
    k: "pk = \<lparr>pk_data = key_PublicKeyBytes lib key\<rparr>" "sk = \<lparr>sk_data = key_PrivateKeyBytes lib key\<rparr>" by blast
  have "mldsa_Sign lib (BytesReader (replicate 32 0)) \<lparr>sk_data = key_PrivateKeyBytes lib key\<rparr> msg = Ok sig"
    using assms(3) by (simp only: SignDeterministic_Sign k(2))
  from sign_verify [OF assms(1) this] keys_accepted(1) [OF assms(1), of key] show ?thesis
    by (simp add: mldsa_verifyFn_def NewSignature_def mldsa_sizes k(1) sig_eta)
qed

section \<open>Domain separation\<close>

lemma domains_differ: "ascii ''aafp-v1-record'' @ x \<noteq> domainSeparator @ y"
proof
  assume "ascii ''aafp-v1-record'' @ x = domainSeparator @ y"
  then have "(ascii ''aafp-v1-record'' @ x) ! 8 = (domainSeparator @ y) ! 8" by simp
  then show False by (simp add: ascii_def domainSeparator_def nth_append of_char_def)
qed

end
