(* ===== verification/Go_Filepath.thy ===== *)
theory Go_Filepath
  imports Go_Fmt
begin

text \<open>
  Package \<open>path/filepath\<close> on Unix, as far as the fixture command uses it: \<open>Clean\<close>, \<open>Join\<close> of two
  elements and \<open>Rel\<close>, on paths as lists of elements between slashes. A path whose elements are proper
  names is clean, and joining and relating such paths is appending and dropping elements.
\<close>

section \<open>Definitions\<close>

fun split_path :: "string \<Rightarrow> string list" where
  "split_path [] = ['''']"
| "split_path (c # cs) =
     (if c = CHR ''/'' then '''' # split_path cs
      else (case split_path cs of p # ps \<Rightarrow> (c # p) # ps | [] \<Rightarrow> [[c]]))"

definition rooted :: "string \<Rightarrow> bool" where
  "rooted p \<longleftrightarrow> p \<noteq> [] \<and> hd p = CHR ''/''"

text \<open>One element of a path, on the stack of the elements kept so far.\<close>

definition clean_step :: "bool \<Rightarrow> string list \<Rightarrow> string \<Rightarrow> string list" where
  "clean_step r st p =
     (if p = '''' \<or> p = ''.'' then st
      else if p = ''..'' then
        (if st = [] then (if r then [] else [''..''])
         else if hd st = ''..'' then ''..'' # st else tl st)
      else p # st)"

definition filepath_Clean :: "string \<Rightarrow> string" where
  "filepath_Clean p =
     (if p = '''' then ''.''
      else let ps = rev (foldl (clean_step (rooted p)) [] (split_path p)) in
        if rooted p then ''/'' @ join ''/'' ps else if ps = [] then ''.'' else join ''/'' ps)"

definition filepath_Join :: "string \<Rightarrow> string \<Rightarrow> string" where
  "filepath_Join a b =
     (if a \<noteq> '''' then filepath_Clean (a @ ''/'' @ b) else if b \<noteq> '''' then filepath_Clean b else '''')"

fun drop_common :: "string list \<Rightarrow> string list \<Rightarrow> string list \<times> string list" where
  "drop_common (b # bs) (t # ts) = (if b = t then drop_common bs ts else (b # bs, t # ts))"
| "drop_common bs ts = (bs, ts)"

text \<open>For a base other than the current directory and the root. \<open>None\<close> is the error.\<close>

definition filepath_Rel :: "string \<Rightarrow> string \<Rightarrow> string option" where
  "filepath_Rel basepath targpath =
     (let b = filepath_Clean basepath; t = filepath_Clean targpath in
      if t = b then Some ''.''
      else if rooted b \<noteq> rooted t then None
      else let (bs, ts) = drop_common (split_path b) (split_path t) in
        if bs \<noteq> [] \<and> hd bs = ''..'' then None
        else Some (join ''/'' (replicate (length bs) ''..'' @ ts)))"

section \<open>Proper names\<close>

definition proper :: "string \<Rightarrow> bool" where
  "proper p \<longleftrightarrow> CHR ''/'' \<notin> set p \<and> p \<noteq> '''' \<and> p \<noteq> ''.'' \<and> p \<noteq> ''..''"

lemma split_path_nonempty [simp]: "split_path s \<noteq> []"
  by (cases s) (auto split: list.split)

lemma split_path_name: "CHR ''/'' \<notin> set p \<Longrightarrow> split_path p = [p]"
  by (induction p) auto

lemma split_path_append: "CHR ''/'' \<notin> set p \<Longrightarrow> split_path (p @ CHR ''/'' # s) = p # split_path s"
  by (induction p) auto

lemma join_single: "join sep [p] = p"
  by simp

lemma join_Cons: "ps \<noteq> [] \<Longrightarrow> join sep (p # ps) = p @ sep @ join sep ps"
  by (cases ps) auto

lemma split_join: "ps \<noteq> [] \<Longrightarrow> \<forall>p \<in> set ps. CHR ''/'' \<notin> set p \<Longrightarrow> split_path (join ''/'' ps) = ps"
proof (induction ps)
  case (Cons p ps)
  show ?case
  proof (cases "ps = []")
    case True
    with Cons.prems show ?thesis by (simp add: split_path_name)
  next
    case False
    with Cons show ?thesis by (simp add: join_Cons split_path_append del: join.simps)
  qed
qed simp

lemma clean_proper: "\<forall>p \<in> set ps. proper p \<Longrightarrow> foldl (clean_step r) st ps = rev ps @ st"
  by (induction ps arbitrary: st) (simp_all add: clean_step_def proper_def)

lemma join_proper:
  assumes "ps \<noteq> []" and "\<forall>p \<in> set ps. proper p"
  shows "join ''/'' ps \<noteq> ''''" and "\<not> rooted (join ''/'' ps)" and "split_path (join ''/'' ps) = ps"
proof -
  obtain q qs where ps: "ps = q # qs" using assms(1) by (cases ps) simp_all
  then have "q \<noteq> ''''" "CHR ''/'' \<notin> set q" using assms(2) by (simp_all add: proper_def)
  then show "join ''/'' ps \<noteq> ''''" "\<not> rooted (join ''/'' ps)"
    unfolding ps by (simp, cases q) (auto simp: rooted_def)
  show "split_path (join ''/'' ps) = ps" using assms by (intro split_join) (auto simp: proper_def)
qed

lemma Clean_proper:
  "ps \<noteq> [] \<Longrightarrow> \<forall>p \<in> set ps. proper p \<Longrightarrow> filepath_Clean (join ''/'' ps) = join ''/'' ps"
  by (simp add: filepath_Clean_def Let_def join_proper clean_proper)

lemma join_snoc: "ps \<noteq> [] \<Longrightarrow> join sep (ps @ [p]) = join sep ps @ sep @ p"
  by (cases ps) auto

lemma Join_proper:
  assumes "ps \<noteq> []" and "\<forall>p \<in> set ps. proper p" and "proper p"
  shows "filepath_Join (join ''/'' ps) p = join ''/'' (ps @ [p])"
  using Clean_proper [of "ps @ [p]"] join_proper(1) [OF assms(1,2)] assms
  by (simp add: filepath_Join_def join_snoc)

lemma drop_common_same: "drop_common bs (bs @ ts) = ([], ts)"
  by (induction bs) (cases ts, simp_all)

text \<open>Below the base, the relative path is the rest of the path.\<close>

lemma Rel_proper:
  assumes "bs \<noteq> []" "ts \<noteq> []" and "\<forall>p \<in> set (bs @ ts). proper p"
  shows "filepath_Rel (join ''/'' bs) (join ''/'' (bs @ ts)) = Some (join ''/'' ts)"
proof -
  have b: "\<forall>p \<in> set bs. proper p" and bt: "bs @ ts \<noteq> []" using assms by auto
  note jb = join_proper [OF assms(1) b] and jt = join_proper [OF bt assms(3)]
  have "join ''/'' (bs @ ts) \<noteq> join ''/'' bs" using jb(3) jt(3) assms(2) by (metis append_self_conv)
  then show ?thesis
    by (simp add: filepath_Rel_def Let_def Clean_proper [OF assms(1) b] Clean_proper [OF bt assms(3)]
        jb jt drop_common_same)
qed

text \<open>Rooted paths stay rooted, and have no path relative to one that is not.\<close>

lemma rooted_Clean: "rooted p \<Longrightarrow> rooted (filepath_Clean p)"
  by (auto simp: filepath_Clean_def rooted_def Let_def)

lemma rooted_Join: "rooted d \<Longrightarrow> rooted (filepath_Join d n)"
  using rooted_Clean [of "d @ ''/'' @ n"] by (auto simp: filepath_Join_def rooted_def)

lemma Rel_rooted:
  assumes "bs \<noteq> []" and "\<forall>p \<in> set bs. proper p" and "rooted t"
  shows "filepath_Rel (join ''/'' bs) t = None"
  using rooted_Clean [OF assms(3)] join_proper(2) [OF assms(1,2)]
  by (auto simp: filepath_Rel_def Let_def Clean_proper [OF assms(1,2)])

end
