(* ===== verification/Interop_Fixtures.thy ===== *)
theory Interop_Fixtures
  imports Go_Filepath Cbor_Properties Frame Identity_Properties Handshake_Msg_Properties
begin

text \<open>
  The command \<open>src/cmd/generate_interop_fixtures/main.go\<close>, which writes fixed protocol messages for
  other implementations to check against. Files are an association list from paths to contents in
  the order of writing; whether the operating system lets a directory or a file be written, and what
  a directory holds when it is read back, is the argument \<open>os\<close>. A refused write makes the command
  panic as in the code. What the command prints is part of its state.
\<close>

section \<open>Fixed inputs\<close>




section \<open>Writing\<close>

type_synonym files = "(string \<times> bytes) list"

text \<open>
  A node of the file system: a file, whose contents may be unreadable, or a directory with its
  entries in the order \<open>os.ReadDir\<close> lists them, which may be unreadable too.
\<close>

datatype fs_node = FileNode "bytes option" | DirNode "(string \<times> fs_node) list option"


record world =
  w_files :: files
  w_out :: string

definition newline :: string where "newline = [CHR 0x0A]"


definition wrote_line :: "string \<times> bytes \<Rightarrow> string" where
  "wrote_line f = ''  wrote '' @ fst f @ '' ('' @ fmt_d (length (snd f)) @ '' bytes)'' @ newline"





text \<open>
  \<open>hashDir\<close> prints the hash of every file below a directory that it can read, under its path relative
  to the default output directory, and no name where \<open>filepath.Rel\<close> fails.
\<close>

definition hash_line :: "string \<times> bytes \<Rightarrow> string" where
  "hash_line f = ''  '' @ concat (map fmt_02x (Sum256 (snd f))) @ ''  ''
     @ (case filepath_Rel ''go_interop_fixtures'' (fst f) of Some rel \<Rightarrow> rel | None \<Rightarrow> '''') @ newline"

fun hashDir :: "string \<Rightarrow> fs_node \<Rightarrow> string"
  and hashEntries :: "string \<Rightarrow> (string \<times> fs_node) list \<Rightarrow> string" where
  "hashDir dir (DirNode (Some entries)) = hashEntries dir entries"
| "hashDir dir (DirNode None) = ''''"
| "hashDir dir (FileNode _) = ''''"
| "hashEntries dir [] = ''''"
| "hashEntries dir ((name, e) # es) =
     (let full = filepath_Join dir name in
      case e of
        DirNode _ \<Rightarrow> hashDir full e
      | FileNode data \<Rightarrow>
          (if name \<noteq> ''manifest.json'' then (case data of Some d \<Rightarrow> hash_line (full, d) | None \<Rightarrow> '''') else ''''))
     @ hashEntries dir es"

section \<open>The fixtures\<close>














definition manifest :: gostring where
  "manifest = ascii ''{\"version\":\"aafp-v1-interop-fixtures-go-1\",\"generated_by\":\"go-independent\"}''"


section \<open>What is written\<close>




text \<open>The effect of writing a list of files.\<close>

definition emit :: "files \<Rightarrow> world \<Rightarrow> world" where
  "emit fs w = w\<lparr>w_files := w_files w @ fs, w_out := w_out w @ concat (map wrote_line fs)\<rparr>"

lemma emit_simps [simp]: "emit [] w = w" "emit gs (emit fs w) = emit (fs @ gs) w"
  by (simp_all add: emit_def)




















section \<open>Properties\<close>



section \<open>What is printed\<close>

text \<open>The readable files below a node, with their paths.\<close>

fun files_below :: "string \<Rightarrow> fs_node \<Rightarrow> (string \<times> string \<times> bytes) list"
  and files_in :: "string \<Rightarrow> (string \<times> fs_node) list \<Rightarrow> (string \<times> string \<times> bytes) list" where
  "files_below dir (DirNode (Some es)) = files_in dir es"
| "files_below dir (DirNode None) = []"
| "files_below dir (FileNode _) = []"
| "files_in dir [] = []"
| "files_in dir ((name, FileNode (Some d)) # es) = (name, filepath_Join dir name, d) # files_in dir es"
| "files_in dir ((name, FileNode None) # es) = files_in dir es"
| "files_in dir ((name, DirNode x) # es) = files_below (filepath_Join dir name) (DirNode x) @ files_in dir es"

lemma hashDir_files:
  "hashDir dir node = concat (map (hash_line \<circ> snd) (filter (\<lambda>f. fst f \<noteq> ''manifest.json'') (files_below dir node)))"
  "hashEntries dir es = concat (map (hash_line \<circ> snd) (filter (\<lambda>f. fst f \<noteq> ''manifest.json'') (files_in dir es)))"
  by (induction dir node and dir es rule: files_below_files_in.induct) (simp_all add: Let_def)

text \<open>In the default directory a file is named by its path below that directory.\<close>

lemma hash_line_default:
  assumes "ps \<noteq> []" and "\<forall>p \<in> set ps. proper p"
  shows "hash_line (join ''/'' (''go_interop_fixtures'' # ps), data) =
    ''  '' @ concat (map fmt_02x (Sum256 data)) @ ''  '' @ join ''/'' ps @ newline"
  using Rel_proper [of "[''go_interop_fixtures'']" ps] assms
  by (simp add: hash_line_def proper_def join_single del: join.simps(2))

text \<open>
  In an output directory given by an absolute path, every line is printed without a name:
  \<open>filepath.Rel\<close> cannot relate it to the default directory and its error is dropped.
\<close>

lemma rooted_files:
  "rooted dir \<Longrightarrow> \<forall>f \<in> set (files_below dir node). rooted (fst (snd f))"
  "rooted dir \<Longrightarrow> \<forall>f \<in> set (files_in dir es). rooted (fst (snd f))"
  by (induction dir node and dir es rule: files_below_files_in.induct) (auto simp: rooted_Join)

lemma hashDir_absolute_nameless:
  assumes "rooted dir"
  shows "hashDir dir node = concat (map (\<lambda>(_, _, d). ''  '' @ concat (map fmt_02x (Sum256 d)) @ ''  '' @ newline)
    (filter (\<lambda>f. fst f \<noteq> ''manifest.json'') (files_below dir node)))"
proof -
  have "hash_line (snd f) = (\<lambda>(_, _, d). ''  '' @ concat (map fmt_02x (Sum256 d)) @ ''  '' @ newline) f"
    if "f \<in> set (files_below dir node)" for f
    using rooted_files(1) [OF assms, of node] that Rel_rooted [of "[''go_interop_fixtures'']" "fst (snd f)"]
    by (auto simp: hash_line_def proper_def split: prod.split)
  then show ?thesis unfolding hashDir_files(1) by (auto intro!: arg_cong [of _ _ concat])
qed

end
