(* ===== verification/Session_Alias.thy ===== *)
theory Session_Alias
  imports Handshake_Msg_Properties
begin

text \<open>
  \<open>ComputeSessionId\<close> once more, with the memory behind its arguments: the code appends to the slices
  it was given, and \<open>append\<close> writes into spare capacity behind a slice before it allocates. The store
  maps addresses to backing arrays; a slice is a window of one of them.
\<close>

section \<open>Slices with a backing array\<close>

record slice =
  s_base :: nat
  s_off :: nat
  s_len :: nat
  s_cap :: nat

record store =
  arrays :: "nat \<Rightarrow> bytes"
  next_free :: nat

definition slice_ok :: "store \<Rightarrow> slice \<Rightarrow> bool" where
  "slice_ok m s \<longleftrightarrow> s_base s < next_free m \<and> s_len s \<le> s_cap s \<and> s_off s + s_cap s \<le> length (arrays m (s_base s))"

definition contents :: "store \<Rightarrow> slice \<Rightarrow> bytes" where
  "contents m s = take (s_len s) (drop (s_off s) (arrays m (s_base s)))"

definition overwrite :: "bytes \<Rightarrow> nat \<Rightarrow> bytes \<Rightarrow> bytes" where
  "overwrite a i bs = take i a @ bs @ drop (i + length bs) a"

text \<open>
  \<open>append(s, bs...)\<close>: in place if the capacity suffices, otherwise in a new array (whose own spare
  capacity the caller cannot observe here and which is left out).
\<close>

definition go_append :: "slice \<Rightarrow> bytes \<Rightarrow> store \<Rightarrow> slice \<times> store" where
  "go_append s bs m =
     (if s_len s + length bs \<le> s_cap s
      then (s\<lparr>s_len := s_len s + length bs\<rparr>,
            m\<lparr>arrays := (arrays m)(s_base s := overwrite (arrays m (s_base s)) (s_off s + s_len s) bs)\<rparr>)
      else (\<lparr>s_base = next_free m, s_off = 0, s_len = s_len s + length bs, s_cap = s_len s + length bs\<rparr>,
            m\<lparr>arrays := (arrays m)(next_free m := contents m s @ bs), next_free := Suc (next_free m)\<rparr>))"

definition ComputeSessionId_mem ::
  "slice \<Rightarrow> slice \<Rightarrow> slice \<Rightarrow> slice \<Rightarrow> store \<Rightarrow> (msg_error, bytes) outcome \<times> store" where
  "ComputeSessionId_mem hAfterClientHello clientNonce serverNonce serverAgentId m =
     (let (salt, m1) = go_append clientNonce (contents m serverNonce) m;
          (ikm, m2) = go_append hAfterClientHello (contents m1 serverAgentId) m1;
          prk = hkdfExtract (contents m2 salt) (contents m2 ikm)
      in (hkdfExpand prk sessionInfoStr 32, m2))"

section \<open>Appending\<close>

text \<open>Every array the caller already had is unchanged.\<close>

definition unchanged :: "store \<Rightarrow> store \<Rightarrow> bool" where
  "unchanged m m' \<longleftrightarrow> (\<forall>a < next_free m. arrays m' a = arrays m a)"

lemma contents_unchanged: "unchanged m m' \<Longrightarrow> slice_ok m s \<Longrightarrow> contents m' s = contents m s"
  by (simp add: unchanged_def slice_ok_def contents_def)

lemma length_contents: "slice_ok m s \<Longrightarrow> length (contents m s) = s_len s"
  by (auto simp: slice_ok_def contents_def min_def)

lemma append_contents:
  assumes "slice_ok m s" and "go_append s bs m = (s', m')"
  shows "contents m' s' = contents m s @ bs"
proof (cases "s_len s + length bs \<le> s_cap s")
  case True
  let ?a = "arrays m (s_base s)"
  have "s_off s + s_len s \<le> length ?a" using assms(1) by (simp add: slice_ok_def)
  then have "drop (s_off s) (overwrite ?a (s_off s + s_len s) bs)
      = take (s_len s) (drop (s_off s) ?a) @ bs @ drop (s_off s + s_len s + length bs) ?a"
    by (simp add: overwrite_def drop_take)
  moreover have "length (take (s_len s) (drop (s_off s) ?a)) = s_len s"
    using length_contents [OF assms(1)] by (simp add: contents_def)
  ultimately show ?thesis using True assms(2) by (auto simp: go_append_def contents_def)
next
  case False
  with assms length_contents [OF assms(1)] show ?thesis
    by (auto simp: go_append_def contents_def [of _ "\<lparr>s_base = b, s_off = o', s_len = l, s_cap = c\<rparr>" for b o' l c])
qed

text \<open>A slice without spare capacity is copied, unless there is nothing to append.\<close>

lemma append_full:
  assumes "slice_ok m s" and "s_cap s = s_len s" and "go_append s bs m = (s', m')"
  shows "unchanged m m'" and "slice_ok m' s'" and "next_free m \<le> next_free m'"
proof -
  have "bs = []" if "s_len s + length bs \<le> s_cap s" using that assms(2) by simp
  moreover have "overwrite a i [] = a" for a i by (simp add: overwrite_def)
  moreover note length_contents [OF assms(1)]
  ultimately show "unchanged m m'" "slice_ok m' s'" "next_free m \<le> next_free m'"
    using assms by (auto simp: go_append_def unchanged_def slice_ok_def split: if_splits)
qed

lemma slice_ok_unchanged: "unchanged m m' \<Longrightarrow> next_free m \<le> next_free m' \<Longrightarrow> slice_ok m s \<Longrightarrow> slice_ok m' s"
  by (simp add: unchanged_def slice_ok_def)

section \<open>Properties\<close>

definition alias_store :: store where
  "alias_store = \<lparr>arrays = (\<lambda>a. if a = 0 then replicate 32 1 @ replicate 64 9 else if a = 1 then replicate 32 2
     else if a = 2 then replicate 32 3 else replicate 32 4), next_free = 4\<rparr>"

definition whole :: "nat \<Rightarrow> slice" where
  "whole a = \<lparr>s_base = a, s_off = 0, s_len = 32, s_cap = 32\<rparr>"

text \<open>
  C38: for slices without spare capacity \<open>ComputeSessionId\<close> computes the session identifier of their
  contents and changes none of the caller's memory. A client nonce that is a window of a longer
  message buffer is different: the call overwrites the message behind the nonce with the server nonce.
\<close>

theorem session_id_append_aliasing:
  assumes "slice_ok m h" "slice_ok m cn" "slice_ok m sn" "slice_ok m aid"
    and "s_cap cn = s_len cn" "s_cap h = s_len h"
  shows "\<exists>m'. ComputeSessionId_mem h cn sn aid m
        = (ComputeSessionId (contents m h) (contents m cn) (contents m sn) (contents m aid), m') \<and> unchanged m m' \<and>
    arrays (snd (ComputeSessionId_mem (whole 2) ((whole 0)\<lparr>s_cap := 96\<rparr>) (whole 1) (whole 3) alias_store)) 0
      = replicate 32 1 @ replicate 32 2 @ replicate 32 9"
proof -
  obtain salt m1 where a1: "go_append cn (contents m sn) m = (salt, m1)" by fastforce
  note f1 = append_full [OF assms(2,5) a1] and c1 = append_contents [OF assms(2) a1]
  have h1: "slice_ok m1 h" by (rule slice_ok_unchanged [OF f1(1,3) assms(1)])
  obtain ikm m2 where a2: "go_append h (contents m1 aid) m1 = (ikm, m2)" by fastforce
  note f2 = append_full [OF h1 assms(6) a2] and c2 = append_contents [OF h1 a2]
  have "contents m2 salt = contents m cn @ contents m sn"
    using contents_unchanged [OF f2(1) f1(2)] c1 by simp
  moreover have "contents m2 ikm = contents m h @ contents m aid"
    using c2 contents_unchanged [OF f1(1)] assms(1,4) by simp
  moreover have "unchanged m m2" using f1(1,3) f2(1) by (auto simp: unchanged_def)
  moreover have "arrays (snd (ComputeSessionId_mem (whole 2) ((whole 0)\<lparr>s_cap := 96\<rparr>) (whole 1) (whole 3) alias_store)) 0
      = replicate 32 1 @ replicate 32 2 @ replicate 32 9"
    by (simp add: ComputeSessionId_mem_def whole_def alias_store_def go_append_def contents_def overwrite_def Let_def)
  ultimately show ?thesis
    using a1 a2 by (simp add: ComputeSessionId_mem_def ComputeSessionId_def Let_def)
qed

theorem session_id_append_aliasing_witness:
  "\<exists>m'. ComputeSessionId_mem (whole 2) (whole 1) (whole 1) (whole 3) alias_store
      = (ComputeSessionId (replicate 32 3) (replicate 32 2) (replicate 32 2) (replicate 32 4), m') \<and> unchanged alias_store m'"
  using session_id_append_aliasing [of alias_store "whole 2" "whole 1" "whole 1" "whole 3"]
  by (auto simp: slice_ok_def whole_def alias_store_def contents_def)

end
