(* ===== verification/Spec2Isabelle.thy ===== *)
theory Spec2Isabelle
  imports Cbor_Properties Frame Frame_Ext Pipeline_Properties Close_Manager Handshake_State_Properties
    Replay_Refinement Identity_Properties Handshake_Msg_Properties Mldsa End_To_End
    Interop_Fixtures Session_Alias
begin

text \<open>
  Verification of the Go implementation of the AAFP agent protocol (\<open>src/\<close>).

  \<^bold>\<open>The program.\<close> Agents exchange frames over a QUIC connection. A frame has a fixed header, an
  extension section and a payload, which for most frame types is canonical CBOR. Received bytes go
  through a pipeline of twenty phases; only when all checks of the first seventeen passed are the
  callbacks of negotiated extensions run. A connection begins with a handshake of three signed CBOR
  messages bound together by a transcript hash, guarded against replays by a cache of nonces, and it
  ends with an exchange of CLOSE frames. Agents publish self-signed records.

  \<^bold>\<open>Theories and sources.\<close>
    \<^item> \<open>Go_Prelude\<close>: what the code uses of Go: fixed-width integers, results (\<open>outcome\<close>: a value, an error
      or a panic), slices, \<open>make\<close>, \<open>encoding/binary\<close>, \<open>sort.SliceStable\<close>, ranging over maps. \<open>Go_Utf8\<close>:
      UTF-8 strings and runes. \<open>Go_Fmt\<close>, \<open>Go_Quote\<close>: the verbs of \<open>fmt\<close> in the texts of errors, durations
      and \<open>%q\<close> included. \<open>Go_Filepath\<close>: \<open>path/filepath\<close>. \<open>Go_Sha256\<close>: \<open>crypto/sha256\<close> and \<open>crypto/hmac\<close>, and what it means that a
      hash determines its input up to a collision. \<open>Go_Machine\<close>: runs of a state machine, reachable
      states, and the locales \<open>invariant\<close>, \<open>terminal\<close>, \<open>one_shot\<close> and \<open>simulation\<close> with the facts their
      clients share.
    \<^item> \<open>src/cbor/cbor.go\<close>: \<open>Cbor_Encode\<close> (values, encoder, key order), \<open>Cbor_Decode\<close> (the lenient decoder, the
      canonical decoder, \<open>CheckCanonical\<close>). \<open>Cbor_Head\<close> treats heads; \<open>Cbor_Correct\<close> states the contract
      both decoders share as the locale \<open>item_decoder\<close> and proves the round trip from it; \<open>Cbor_Theorems\<close>
      has the refinement of the lenient decoder by the canonical one, the key orders and the normal
      form; \<open>Cbor_Properties\<close> has the properties. \<open>Cbor_Fields\<close> has what the clients of the package share:
      reading fields of a structure, and the locale \<open>cbor_struct\<close>, the contract of a \<open>ToCBOR\<close>/\<open>FromCBOR\<close> pair,
      interpreted for capabilities, records, extensions and ClientHello.
    \<^item> \<open>src/errors/errors.go\<close>: \<open>Aafp_Errors\<close>. \<open>src/frame/frame.go\<close>: \<open>Frame\<close>. \<open>src/frameext/frameext.go\<close>: \<open>Frame_Ext\<close>.
    \<^item> \<open>src/pipeline/pipeline.go\<close>: \<open>Pipeline\<close>, \<open>Pipeline_Properties\<close>. The specification is an ordered list of
      checks, \<open>phase_checks\<close>; the pipeline refines it.
    \<^item> \<open>src/closemanager/closemanager.go\<close>: \<open>Close_Manager\<close>. \<open>src/handshake/state_machine.go\<close>: \<open>Handshake_State\<close>,
      \<open>Handshake_State_Properties\<close>, where the client's and the server's machine interpret the same two
      locales. \<open>src/replaycache/\<close>: \<open>Replay_Cache\<close>, \<open>Replay_Properties\<close>, and \<open>Replay_Refinement\<close>,
      which specifies the cache as a set that holds pairs for a time and proves the refinement by
      interpreting \<open>simulation\<close>.
    \<^item> \<open>src/identity/identity.go\<close>: \<open>Identity\<close>, \<open>Identity_Properties\<close>. \<open>src/handshake/handshake.go\<close>: \<open>Handshake_Msg\<close>,
      \<open>Handshake_Msg_Properties\<close>, and \<open>Session_Alias\<close>, where \<open>ComputeSessionId\<close> is modelled a second time with
      the memory behind its slices. \<open>src/mldsa/mldsa.go\<close>: \<open>Mldsa\<close>.
    \<^item> \<open>src/cmd/generate_interop_fixtures/main.go\<close>: \<open>Interop_Fixtures\<close>. Evaluating the model of this command
      gives, byte for byte, the forty files under \<open>src/go-interop-fixtures/\<close>. What the command prints is
      modelled too, over a tree of files that \<open>hashDir\<close> reads back.
    \<^item> \<open>End_To_End\<close> and this theory join the components.

  \<^bold>\<open>State and operations.\<close> A Go struct is a record with its fields, an operation on it a function that
  returns the new state; an error or a panic is a value of \<open>outcome\<close>. A run of a machine is a list of
  events, each carrying the reading of the clock where the code calls \<open>time.Now\<close>, so the theorems hold
  for every interleaving and every clock. The order in which a map is visited is an argument, so they
  hold for every order. The pipeline's context and callbacks are records of functions over a state of
  the application, as the code's interfaces are. The signature library is not in the repository: it is
  the argument \<open>lib\<close> of \<open>Mldsa\<close>, with what FIPS 204 documents as the hypothesis \<open>fips204\<close>.

  \<^bold>\<open>What is shown.\<close>
    \<^item> CBOR: decoding inverts encoding; the encoding is canonical and determines the value; the canonical
      decoder accepts only what the lenient one decodes to the same value; what is decoded is well
      formed; the exact cause of a panic of \<open>Decode\<close>.
    \<^item> Frames and extensions: round trips, soundness of decoding, rejection of every proper prefix.
    \<^item> Pipeline: no callback runs and nothing is delivered unless every check passed; the first failing
      check decides the error; what is delivered; oversized frames.
    \<^item> Closing: the state invariant, at most one CLOSE frame and one close of the connection, no data after
      CLOSE, completion after the timeout, truncation of messages at a rune boundary.
    \<^item> Handshake machines: strict order of states, timeouts, termination, gating of frame types.
    \<^item> Replay cache: bounded size, rejection of replays within the retention time, equality of its answers
      with those of the timed set.
    \<^item> Messages and records: round trips, the receiver MAC end to end, binding of transcript hash, session
      identifier and record signature to what they are computed from, verification of records, HKDF.
    \<^item> Together: a message arrives as it was sent; a self-signed record verifies after transport; signatures
      of records and of handshakes cover disjoint sets of bytes.

  \<^bold>\<open>Bounds.\<close> \<open>int\<close> has 64 bits. Statements about decoding assume inputs of at most a tebibyte
  (\<open>small_input\<close>), far above the frame limit of one mebibyte and below every size where \<open>make\<close> or the
  arithmetic of positions fails, or less than \<open>2 ^ 63\<close> bytes (\<open>fits_int\<close>), the length of any Go slice.
  \<open>make\<close> panics above \<open>2 ^ 48\<close> bytes, the address space of 64-bit Linux. No definition needs fuel: every
  recursion terminates on the data.

  \<^bold>\<open>Not modelled.\<close> Exhaustion of memory below the limit of \<open>make\<close>; locking inside an operation (each operation of the replay
  cache runs under its mutex and is one step); the table of printable runes above U+00FF (an argument of
  \<open>%q\<close>); values of an enumeration outside its constants, which only conversions from integers make, with
  the default branches of \<open>String\<close> that print them; tests and data.
\<close>

section \<open>A message from the sender's encoders to the receiver's application\<close>

definition sample_request :: frame where
  "sample_request = \<lparr>fVersion = 1, fFrameType = 3, fFlags = 0, fStreamID = 4, fExtensions = [], fPayload = sample_bytes\<rparr>"

text \<open>
  C2: a message arrives as it was sent. A frame whose payload is the encoding of a value, and whose
  extension section is the encoding of a list of extensions, encodes; the pipeline of a receiver whose
  checks pass runs the callbacks of the negotiated extensions and delivers that very frame with those
  extensions, and the payload decodes to the value.
\<close>

theorem message_end_to_end:
  assumes "wf_frame f" and "strict_value v" and "fPayload f = encodeValue v"
    and "frameext_Encode exts = Ok (fExtensions f)" and "fFrameType f = TypeHandshake \<longrightarrow> exts = []"
    and "auth_ok (ctx p) f" and "exts_known (ctx p) exts" and "exts_negotiated (ctx p) exts"
    and "run_calls (calls p exts) s = (Ok (), s')"
  shows "\<exists>data pf. frame_Encode f = Ok data \<and> process p data s = (Ok pf, s') \<and>
    pFrame pf = f \<and> pExtensions pf = exts \<and>
    cbor_Decode (fPayload (pFrame pf)) = Ok (canon v, length (fPayload f))"
proof -
  note sent = sent_frame [OF assms(1)]
  note got = sent_frame_delivered [OF assms(1-8)]
  have "process p (frame_bytes f) s = (Ok \<lparr>pFrame = f, pExtensions = exts,
      ExtensionCallbackCount = length (calls p exts), ExtensionsIgnored = length exts - length (calls p exts)\<rparr>, s')"
    unfolding got(1) delivered_def Let_def sent(2) got(2) by (simp add: callback_result_def assms(9))
  with sent(1) got(3) show ?thesis by (auto simp: cbor_Decode_def)
qed

theorem message_end_to_end_witness:
  "\<exists>data pf. frame_Encode sample_request = Ok data \<and> process counting_pipeline data 5 = (Ok pf, 5) \<and>
    pFrame pf = sample_request \<and> pExtensions pf = [] \<and>
    cbor_Decode (fPayload (pFrame pf)) = Ok (canon sample_value, length (fPayload sample_request))"
proof (rule message_end_to_end)
  show "wf_frame sample_request"
    by (simp add: wf_frame_def sample_request_def sample_bytes_def frame_consts IsCriticalUnknownFrameType_def
        isValidFrameType_def)
  show "fPayload sample_request = encodeValue sample_value" by (simp add: sample_request_def sample_encoding)
  show "frameext_Encode [] = Ok (fExtensions sample_request)"
    by (simp add: frameext_Encode_def sample_request_def encode_exts_eq)
  show "auth_ok (ctx counting_pipeline) sample_request"
    by (simp add: auth_ok_def sample_request_def counting_pipeline_def pipeline_New_def testing_context_def
        DefaultTestingContext_def)
qed (simp_all add: sample_strict exts_known_def exts_negotiated_def calls_def)

section \<open>Signatures\<close>

text \<open>
  C7: an agent can publish a record and anyone can verify it: given the completeness FIPS 204 documents
  for the signature library, a record for a seeded key, signed with \<open>SignDeterministic\<close> over its
  signature input, encodes, and what is decoded from the encoding verifies until it expires.
\<close>

theorem self_signed_record_verifies:
  assumes "fips204 lib" and "KeypairFromSeed lib seed = Ok (pk, sk)"
    and "record_ok r" and "PublicKey r = pk_data pk" and "AgentId r = AgentIdFromPubkey (pk_data pk)"
    and "RecordType r = RecordTypeV1" and "KeyAlgorithm r = KeyAlgMLDSA65" and "t < ExpiresAt r"
    and "record_SignatureInput ord r = Ok input" and "SignDeterministic lib sk input = Ok sig"
    and "small_input (encodeValue (record_ToCBOR ord (r\<lparr>Signature := sig_data sig\<rparr>)))"
  shows "\<exists>v n r'. cbor_Decode (encodeValue (record_ToCBOR ord (r\<lparr>Signature := sig_data sig\<rparr>))) = Ok (v, n) \<and>
    AgentRecordFromCBOR v = Ok r' \<and> record_Verify ord' t (mldsa_verifyFn lib) r' = Ok ()"
proof -
  let ?r = "r\<lparr>Signature := sig_data sig\<rparr>"
  have ok: "record_ok ?r" using assms(3) by (simp add: record_ok_def)
  have "record_SignatureInput ord ?r = Ok input" using assms(9) by (simp add: SignatureInput_eq record_ToCBORWithoutSig_def)
  with assms(4-8) mldsa_verifyFn_signed [OF assms(1,2,10)] have "record_Verify ord t (mldsa_verifyFn lib) ?r = Ok ()"
    by (simp add: record_Verify_def VerifyAgentId_iff AgentIdFromPubkey_def not_le)
  then have "record_Verify ord' t (mldsa_verifyFn lib) (record_canon ?r) = Ok ()"
    using Verify_canon [OF ok, of ord' t _ ord] by simp
  with record_wire.wire_roundtrip [OF ok assms(11)] show ?thesis by blast
qed

theorem self_signed_record_verifies_witness:
  "let r = sample_record\<lparr>PublicKey := replicate 1952 7, AgentId := AgentIdFromPubkey (replicate 1952 7)\<rparr>
   in \<exists>sig v n r'. cbor_Decode (encodeValue (record_ToCBOR (\<lambda>_. rev) (r\<lparr>Signature := sig\<rparr>))) = Ok (v, n) \<and>
    AgentRecordFromCBOR v = Ok r' \<and> record_Verify (\<lambda>_ m. m) 99 (mldsa_verifyFn stamp_lib) r' = Ok ()"
proof -
  define r where "r = sample_record\<lparr>PublicKey := replicate 1952 7, AgentId := AgentIdFromPubkey (replicate 1952 7)\<rparr>"
  have keys: "KeypairFromSeed stamp_lib (replicate 32 7) = Ok (\<lparr>pk_data = replicate 1952 7\<rparr>, \<lparr>sk_data = replicate 4032 7\<rparr>)"
    by (simp add: KeypairFromSeed_def mldsa_sizes stamp_lib_def)
  obtain input where input: "record_SignatureInput (\<lambda>_. rev) r = Ok input" by (simp add: SignatureInput_eq)
  obtain sig where sig: "SignDeterministic stamp_lib \<lparr>sk_data = replicate 4032 7\<rparr> input = Ok sig"
    by (simp add: SignDeterministic_def Let_def stamp_lib_def)
  have "mldsa_Sign stamp_lib (BytesReader (replicate 32 0)) \<lparr>sk_data = key_PrivateKeyBytes stamp_lib 7\<rparr> input = Ok sig"
    using sig by (simp add: SignDeterministic_Sign stamp_lib_def)
  from sign_verify(1) [OF stamp_lib_fips204 this] have len: "length (sig_data sig) = 3309" .
  have small: "small_input (encodeValue (record_ToCBOR (\<lambda>_. rev) (r\<lparr>Signature := sig_data sig\<rparr>)))"
    by (rule small_encoding) (simp add: r_def sample_record_def record_forms caps_ToCBOR_def cap_ToCBOR_def go_range_def
        RecordTypeV1_def ascii_def AgentIdFromPubkey_def upt_rec Let_def len)
  have "record_ok r" using sample_record_ok by (simp add: r_def record_ok_def)
  from self_signed_record_verifies [OF stamp_lib_fips204 keys this _ _ _ _ _ input sig small, of 99 "\<lambda>_ m. m"]
  show ?thesis unfolding r_def by (auto simp: Let_def sample_record_def KeyAlgMLDSA65_def)
qed

text \<open>
  Signatures cannot be carried over from one use to another: whatever a record and whatever a
  transcript hash, the bytes signed for the record are not the bytes signed in a handshake.
\<close>

lemma signature_domains_disjoint:
  "record_SignatureInput ord r \<noteq> Ok (hs_SignatureInput (th_Current t))"
  by (simp add: SignatureInput_eq hs_SignatureInput_def domains_differ)

end
